(* ===== verification/C_Prelude.thy ===== *)
theory C_Prelude
  imports Main "HOL-Library.Word" "HOL-Library.Monad_Syntax" "HOL-Library.Signed_Division"
begin

unbundle bit_operations_syntax

section \<open>The C machine seen by the MQTT library\<close>

text \<open>
  Shared vocabulary of the development: the fixed-width integers of the x86-64 Linux ABI, C
  pointers, the string functions of the C library the sources call, and cursors into byte
  buffers.

  A C computation is a value of an option type: \<^term>\<open>None\<close> stands for undefined behaviour
  (an access outside an object, a null or uninitialised pointer that is followed), so that
  ``\<open>f x \<noteq> None\<close>'' is memory safety of \<open>f\<close> on \<open>x\<close>. Ordinary error returns of the sources
  stay what they are in the sources: negative integers.
\<close>

subsection \<open>Integers\<close>

type_synonym byte = "8 word"
type_synonym u16 = "16 word"
type_synonym u32 = "32 word"
type_synonym size_t = "64 word"

text \<open>
  \<open>to_int\<close> is the conversion of a mathematical integer to the 32 bit type \<^verbatim>\<open>int\<close>. It is written
  wherever a C expression of type \<^verbatim>\<open>int\<close> could leave that range.
\<close>

definition to_int :: "int \<Rightarrow> int" where
  "to_int x = signed_take_bit 31 x"

lemma to_int_id [simp]: "- 2147483648 \<le> x \<Longrightarrow> x < 2147483648 \<Longrightarrow> to_int x = x"
  by (simp add: to_int_def signed_take_bit_int_eq_self)

lemma to_int_add: "to_int (to_int a + b) = to_int (a + b)"
  unfolding to_int_def by (metis signed_take_bit_add signed_take_bit_signed_take_bit min.idem)

lemma to_int_range: "- 2147483648 \<le> to_int x" "to_int x < 2147483648"
  using signed_take_bit_int_greater_eq_minus_exp [of 31 x] signed_take_bit_int_less_exp [of 31 x]
  by (simp_all add: to_int_def)

lemma sdiv_nonneg: "0 \<le> (n::int) \<Longrightarrow> 0 < k \<Longrightarrow> n sdiv k = n div k"
  by (cases "n = 0") (simp_all add: signed_divide_int_def)

lemma smod_nonneg: "0 \<le> (n::int) \<Longrightarrow> 0 < k \<Longrightarrow> n smod k = n mod k"
  using minus_sdiv_mult_eq_smod [of n k] by (simp add: sdiv_nonneg minus_div_mult_eq_mod)

lemma sdiv_128_decreases: "0 < (n::int) sdiv 128 \<Longrightarrow> n sdiv 128 < n"
proof (cases "0 \<le> n")
  case True
  then show "0 < n sdiv 128 \<Longrightarrow> ?thesis" by (simp add: sdiv_nonneg)
next
  case False
  then show "0 < n sdiv 128 \<Longrightarrow> ?thesis" by (simp add: signed_divide_int_def)
qed

text \<open>The conversion of an \<^verbatim>\<open>int\<close> argument to \<^verbatim>\<open>size_t\<close>.\<close>

definition to_size :: "int \<Rightarrow> nat" where
  "to_size n = nat (n mod 18446744073709551616)"

lemma to_size_nonneg [simp]: "0 \<le> n \<Longrightarrow> n < 18446744073709551616 \<Longrightarrow> to_size n = nat n"
  by (simp add: to_size_def)

lemma uint_byte_lt [simp]: "uint (b :: byte) < 256"
  using uint_lt2p [of b] by simp

lemma unat_byte_lt [simp]: "unat (b :: byte) < 256"
  using unsigned_less [of b] by simp

subsection \<open>Bits and bit fields of a byte\<close>

lemma uint_word_of_nat_byte [simp]: "n < 256 \<Longrightarrow> uint (word_of_nat n :: byte) = int n"
  by (simp add: unsigned_of_nat take_bit_nat_eq_self)

lemma uint_mod_2_byte [simp]: "uint (word_of_int (x mod 2) :: byte) = x mod 2"
proof -
  have "x mod 2 = 0 \<or> x mod 2 = 1" by presburger
  then show ?thesis by auto
qed

lemma u16_bounds: "0 \<le> uint (n :: u16)" "uint (n :: u16) < 65536"
  using uint_lt2p [of n] by simp_all

lemma uint_and_127: "uint (b AND 127 :: byte) = uint b mod 128"
proof -
  have "b AND 127 = take_bit 7 b" by (simp add: take_bit_eq_mask mask_eq_exp_minus_1)
  then show ?thesis by (simp only: unsigned_take_bit_eq) (simp add: take_bit_eq_mod)
qed

lemma bit_byte_7: "bit (b :: byte) 7 \<longleftrightarrow> 128 \<le> uint b"
proof -
  have "bit b 7 \<longleftrightarrow> odd (uint b div 128)"
    using bit_uint_iff [of b 7] by (simp add: bit_iff_odd)
  moreover have "x < 256 \<Longrightarrow> 0 \<le> x \<Longrightarrow> x div 128 = (if 128 \<le> x then 1 else 0)" for x :: int
    by (auto simp: div_pos_geq)
  ultimately show ?thesis using uint_byte_lt [of b] by simp
qed

lemma and_128_eq_0_iff: "b AND 128 = 0 \<longleftrightarrow> uint (b :: byte) < 128"
proof -
  have "b AND 128 = 0 \<longleftrightarrow> \<not> bit b 7"
    using and_exp_eq_0_iff_not_bit [of b 7] by simp
  then show ?thesis by (auto simp: bit_byte_7)
qed

lemma uint_or_128: "uint (w :: byte) < 128 \<Longrightarrow> uint (w OR 128) = uint w + 128"
proof -
  assume w: "uint w < 128"
  then have "w AND 128 = 0" by (simp add: and_128_eq_0_iff)
  then have "w OR 128 = w + 128" by (simp add: disjunctive_add_eq_or)
  with w show ?thesis by (simp add: uint_word_ariths)
qed

lemma field_div: "0 \<le> k \<Longrightarrow> k < m \<Longrightarrow> (m * x + k) div m = (x :: int)"
  by simp

lemma field_mod: "0 \<le> k \<Longrightarrow> k < m \<Longrightarrow> (m * x + k) mod m = (k :: int)"
  by simp

lemma bit_field: "n = m * (d * y + z) + k \<Longrightarrow> 0 \<le> k \<Longrightarrow> k < m \<Longrightarrow> 0 \<le> z \<Longrightarrow> z < d \<Longrightarrow> n div m mod d = (z :: int)"
  using field_div [of k m "d * y + z"] field_mod [of z d y] by (simp only:)

subsection \<open>Pointers and strings\<close>

text \<open>
  A \<^verbatim>\<open>char *\<close> is null, indeterminate (never assigned), or points into an object. A pointer into
  an object is represented by the bytes from it to the end of that object, which is all a
  reader can see through it.
\<close>

datatype cptr = Null | Wild | Ptr "byte list"

text \<open>A string literal: its characters and the terminating zero.\<close>

definition cstr :: "string \<Rightarrow> cptr" where
  "cstr s = Ptr (map of_char s @ [0])"

text \<open>\<open>bytes_at p n\<close> reads \<^verbatim>\<open>n\<close> bytes from \<^verbatim>\<open>p\<close>.\<close>

fun bytes_at :: "cptr \<Rightarrow> nat \<Rightarrow> byte list option" where
  "bytes_at (Ptr bs) n = (if n \<le> length bs then Some (take n bs) else None)"
| "bytes_at _ n = (if n = 0 then Some [] else None)"

fun strlen :: "cptr \<Rightarrow> int option" where
  "strlen (Ptr bs) =
     (if 0 \<in> set bs then Some (int (length (takeWhile (\<lambda>b. b \<noteq> 0) bs))) else None)"
| "strlen _ = None"

text \<open>\<open>cstring_of p s\<close>: \<^verbatim>\<open>p\<close> points to a C string whose characters are \<open>s\<close>.\<close>

definition cstring_of :: "cptr \<Rightarrow> byte list \<Rightarrow> bool" where
  "cstring_of p s \<longleftrightarrow> 0 \<notin> set s \<and> (\<exists>rest. p = Ptr (s @ 0 # rest))"

lemma takeWhile_zero_append [simp]:
  "0 \<notin> set s \<Longrightarrow> takeWhile (\<lambda>b. b \<noteq> (0::byte)) (s @ 0 # rest) = s"
  by (subst takeWhile_append2) (auto simp: in_set_conv_nth)

lemma strlen_cstring_of [simp]: "cstring_of p s \<Longrightarrow> strlen p = Some (int (length s))"
  by (auto simp: cstring_of_def)

lemma bytes_at_cstring_of [simp]: "cstring_of p s \<Longrightarrow> bytes_at p (length s) = Some s"
  by (auto simp: cstring_of_def)

lemma cstring_of_not_null: "cstring_of p s \<Longrightarrow> p \<noteq> Null"
  by (auto simp: cstring_of_def)

lemma strlen_SomeD:
  assumes "strlen p = Some n"
  obtains s where "cstring_of p s" "n = int (length s)"
proof (cases p)
  case (Ptr bs)
  with assms have z: "0 \<in> set bs" and n: "n = int (length (takeWhile (\<lambda>b. b \<noteq> 0) bs))"
    by (auto split: if_splits)
  from z have ne: "dropWhile (\<lambda>b. b \<noteq> 0) bs \<noteq> []"
    by (auto simp: dropWhile_eq_Nil_conv)
  then obtain rest where "dropWhile (\<lambda>b. b \<noteq> 0) bs = 0 # rest"
    using hd_dropWhile [OF ne] by (cases "dropWhile (\<lambda>b. b \<noteq> 0) bs") auto
  then have "bs = takeWhile (\<lambda>b. b \<noteq> 0) bs @ 0 # rest"
    by (metis takeWhile_dropWhile_id)
  moreover have "0 \<notin> set (takeWhile (\<lambda>b. b \<noteq> 0) bs)"
    by (auto dest: set_takeWhileD)
  ultimately have "cstring_of p (takeWhile (\<lambda>b. b \<noteq> 0) bs)"
    using Ptr by (auto simp: cstring_of_def)
  with n show thesis by (intro that)
qed (use assms in auto)

text \<open>
  \<^verbatim>\<open>atoi\<close>: white space, an optional sign, decimal digits. A value outside of \<^verbatim>\<open>int\<close> is undefined
  behaviour.
\<close>

definition is_space :: "byte \<Rightarrow> bool" where
  "is_space c \<longleftrightarrow> c = 32 \<or> 9 \<le> c \<and> c \<le> 13"

definition is_digit :: "byte \<Rightarrow> bool" where
  "is_digit c \<longleftrightarrow> 48 \<le> c \<and> c \<le> 57"

definition decimal :: "byte list \<Rightarrow> int" where
  "decimal ds = fold (\<lambda>d n. 10 * n + (uint d - 48)) ds 0"

definition atoi_bytes :: "byte list \<Rightarrow> int option" where
  "atoi_bytes s = (let s = dropWhile is_space s;
       neg = (s \<noteq> [] \<and> hd s = 45);
       s = (if s \<noteq> [] \<and> (hd s = 45 \<or> hd s = 43) then tl s else s);
       n = decimal (takeWhile is_digit s);
       n = (if neg then - n else n)
     in if - 2147483648 \<le> n \<and> n < 2147483648 then Some n else None)"

fun atoi :: "cptr \<Rightarrow> int option" where
  "atoi (Ptr bs) = (if 0 \<in> set bs then atoi_bytes (takeWhile (\<lambda>b. b \<noteq> 0) bs) else None)"
| "atoi _ = None"

text \<open>
  \<open>strncmp_eq\<close> and \<open>strcmp_eq\<close> are the tests \<^verbatim>\<open>strncmp(a, b, n) == 0\<close> and \<^verbatim>\<open>strcmp(a, b) == 0\<close>;
  \<open>memcmp_eq\<close> is \<^verbatim>\<open>memcmp(a, b, n) == 0\<close>.
\<close>

fun strncmp_bytes :: "byte list \<Rightarrow> byte list \<Rightarrow> nat \<Rightarrow> bool option" where
  "strncmp_bytes xs ys 0 = Some True"
| "strncmp_bytes (x # xs) (y # ys) (Suc n) =
     (if x \<noteq> y then Some False else if x = 0 then Some True else strncmp_bytes xs ys n)"
| "strncmp_bytes _ _ (Suc n) = None"

fun strncmp_eq :: "cptr \<Rightarrow> cptr \<Rightarrow> nat \<Rightarrow> bool option" where
  "strncmp_eq (Ptr xs) (Ptr ys) n = strncmp_bytes xs ys n"
| "strncmp_eq _ _ n = (if n = 0 then Some True else None)"

fun strcmp_bytes :: "byte list \<Rightarrow> byte list \<Rightarrow> bool option" where
  "strcmp_bytes (x # xs) (y # ys) =
     (if x \<noteq> y then Some False else if x = 0 then Some True else strcmp_bytes xs ys)"
| "strcmp_bytes _ _ = None"

fun strcmp_eq :: "cptr \<Rightarrow> cptr \<Rightarrow> bool option" where
  "strcmp_eq (Ptr xs) (Ptr ys) = strcmp_bytes xs ys"
| "strcmp_eq _ _ = None"

definition memcmp_eq :: "cptr \<Rightarrow> cptr \<Rightarrow> nat \<Rightarrow> bool option" where
  "memcmp_eq p q n = do { xs \<leftarrow> bytes_at p n; ys \<leftarrow> bytes_at q n; Some (xs = ys) }"

lemma strncmp_bytes_append:
  "0 \<notin> set s \<Longrightarrow> length xs \<ge> length s \<Longrightarrow>
     strncmp_bytes xs (s @ rest) (length s) = Some (take (length s) xs = s)"
proof (induction s arbitrary: xs)
  case Nil
  then show ?case by simp
next
  case (Cons y s)
  then show ?case by (cases xs) auto
qed

lemma strcmp_bytes_cstrings:
  "0 \<notin> set s \<Longrightarrow> 0 \<notin> set t \<Longrightarrow> strcmp_bytes (s @ 0 # xs) (t @ 0 # ys) = Some (s = t)"
proof (induction s arbitrary: t)
  case Nil
  then show ?case by (cases t) auto
next
  case (Cons a s)
  then show ?case by (cases t) auto
qed

lemma strcmp_eq_cstrings:
  "cstring_of p s \<Longrightarrow> cstring_of q t \<Longrightarrow> strcmp_eq p q = Some (s = t)"
  by (auto simp: cstring_of_def strcmp_bytes_cstrings)

subsection \<open>Array accesses\<close>

definition fetch :: "'a list \<Rightarrow> nat \<Rightarrow> 'a option" where
  "fetch xs i = (if i < length xs then Some (xs ! i) else None)"

definition store :: "'a list \<Rightarrow> nat \<Rightarrow> 'a \<Rightarrow> 'a list option" where
  "store xs i x = (if i < length xs then Some (xs[i := x]) else None)"

lemma fetch_Some [simp]: "i < length xs \<Longrightarrow> fetch xs i = Some (xs ! i)"
  by (simp add: fetch_def)

lemma fetch_None_iff [simp]: "fetch xs i = None \<longleftrightarrow> length xs \<le> i"
  by (simp add: fetch_def linorder_not_less)

lemma fetch_eq_Some_iff: "fetch xs i = Some x \<longleftrightarrow> i < length xs \<and> x = xs ! i"
  by (auto simp: fetch_def)

lemma store_Some [simp]: "i < length xs \<Longrightarrow> store xs i x = Some (xs[i := x])"
  by (simp add: store_def)

lemma store_eq_Some_iff: "store xs i x = Some ys \<longleftrightarrow> i < length xs \<and> ys = xs[i := x]"
  by (auto simp: store_def)

lemma drop_eq_ConsD:
  assumes "drop p xs = c # cs"
  shows "p < length xs" "xs ! p = c" "drop (Suc p) xs = cs"
proof -
  show p: "p < length xs" using assms by (rule_tac ccontr) simp
  then show "xs ! p = c" "drop (Suc p) xs = cs"
    using assms by (simp_all flip: Cons_nth_drop_Suc)
qed

lemma drop_append_skip: "drop p xs = ys @ zs \<Longrightarrow> drop (p + length ys) xs = zs"
  by (metis add.commute append_eq_conv_conj drop_drop)

subsection \<open>Write cursors\<close>

text \<open>
  A \<^verbatim>\<open>unsigned char **pptr\<close> used for writing is the buffer it walks over and the offset it has
  reached. \<open>emit bs\<close> is the specification of every write: it stores \<open>bs\<close> at the cursor and
  advances it, or runs off the end of the buffer.
\<close>

type_synonym wptr = "byte list \<times> nat"

definition overwrite :: "byte list \<Rightarrow> nat \<Rightarrow> byte list \<Rightarrow> byte list" where
  "overwrite buf p bs = take p buf @ bs @ drop (p + length bs) buf"

definition emit :: "byte list \<Rightarrow> wptr \<Rightarrow> wptr option" where
  "emit bs w = (if snd w + length bs \<le> length (fst w)
     then Some (overwrite (fst w) (snd w) bs, snd w + length bs) else None)"

text \<open>The facts that turn a sequence of writes into a single \<^term>\<open>emit\<close>.\<close>

named_theorems emit_simps

lemma length_overwrite [simp]:
  "p + length bs \<le> length buf \<Longrightarrow> length (overwrite buf p bs) = length buf"
  by (simp add: overwrite_def)

lemma overwrite_Nil [simp]: "overwrite buf p [] = buf"
  by (simp add: overwrite_def)

lemma overwrite_overwrite:
  "p + length xs + length ys \<le> length buf \<Longrightarrow>
     overwrite (overwrite buf p xs) (p + length xs) ys = overwrite buf p (xs @ ys)"
  by (simp add: overwrite_def ac_simps)

lemma take_overwrite_0 [simp]:
  "length bs \<le> length buf \<Longrightarrow> take (length bs) (overwrite buf 0 bs) = bs"
  by (simp add: overwrite_def)

lemma drop_overwrite_0 [simp]:
  "length bs \<le> length buf \<Longrightarrow> drop (length bs) (overwrite buf 0 bs) = drop (length bs) buf"
  by (simp add: overwrite_def)

lemma list_update_overwrite: "p < length buf \<Longrightarrow> buf[p := c] = overwrite buf p [c]"
  by (simp add: overwrite_def upd_conv_take_nth_drop)

lemma emit_bind [emit_simps]: "emit xs w \<bind> emit ys = emit (xs @ ys) w"
  by (auto simp: emit_def overwrite_overwrite add.assoc)

lemma emit_bind_assoc [emit_simps]:
  "emit xs w \<bind> (\<lambda>w. emit ys w \<bind> k) = emit (xs @ ys) w \<bind> k"
  by (simp flip: emit_bind)

lemma emit_eta [emit_simps]: "emit xs w \<bind> (\<lambda>w. emit ys w) = emit (xs @ ys) w"
  by (simp add: emit_bind)

lemma emit_Nil [simp]: "snd w \<le> length (fst w) \<Longrightarrow> emit [] w = Some w"
  by (simp add: emit_def)

lemma emit_eq_None_iff: "emit bs w = None \<longleftrightarrow> length (fst w) < snd w + length bs"
  by (auto simp: emit_def)

text \<open>
  \<open>memcpy w src n\<close> copies \<^verbatim>\<open>n\<close> bytes to the cursor and advances it by \<^verbatim>\<open>n\<close>. The third argument
  of the library function is a \<^verbatim>\<open>size_t\<close>, so a negative \<^verbatim>\<open>int\<close> asks for more bytes than any
  object has.
\<close>

definition memcpy :: "wptr \<Rightarrow> cptr \<Rightarrow> int \<Rightarrow> wptr option" where
  "memcpy w src n =
     (if n < 0 then None else do { bs \<leftarrow> bytes_at src (nat n); emit bs w })"

lemma memcpy_bytes: "bytes_at src (nat n) = Some bs \<Longrightarrow> 0 \<le> n \<Longrightarrow> memcpy w src n = emit bs w"
  by (simp add: memcpy_def)

end
