(* ===== verification/Packet_Core.thy ===== *)
theory Packet_Core
  imports C_Prelude
begin

section \<open>Packet primitives (MQTTPacket.c, MQTTPacket.h)\<close>

text \<open>
  The header byte, the variable-length ``remaining length'' field, two-byte integers and
  length-prefixed strings, read and written through cursors into a byte buffer; and the two
  packet readers \<^verbatim>\<open>MQTTPacket_read\<close> and \<^verbatim>\<open>MQTTPacket_readnb\<close>.
\<close>

subsection \<open>Data\<close>

definition MQTTPACKET_BUFFER_TOO_SHORT :: int where "MQTTPACKET_BUFFER_TOO_SHORT = - 2"
definition MQTTPACKET_READ_ERROR :: int where "MQTTPACKET_READ_ERROR = - 1"

datatype msgTypes =
    CONNECT | CONNACK | PUBLISH | PUBACK | PUBREC | PUBREL | PUBCOMP | SUBSCRIBE | SUBACK
  | UNSUBSCRIBE | UNSUBACK | PINGREQ | PINGRESP | DISCONNECT

fun msgType :: "msgTypes \<Rightarrow> int" where
  "msgType CONNECT = 1" | "msgType CONNACK = 2" | "msgType PUBLISH = 3" | "msgType PUBACK = 4"
| "msgType PUBREC = 5" | "msgType PUBREL = 6" | "msgType PUBCOMP = 7" | "msgType SUBSCRIBE = 8"
| "msgType SUBACK = 9" | "msgType UNSUBSCRIBE = 10" | "msgType UNSUBACK = 11"
| "msgType PINGREQ = 12" | "msgType PINGRESP = 13" | "msgType DISCONNECT = 14"

text \<open>
  The union \<^verbatim>\<open>MQTTHeader\<close> on a little-endian target: bit 0 is \<^verbatim>\<open>retain\<close>, bits 1 and 2 are \<^verbatim>\<open>qos\<close>,
  bit 3 is \<^verbatim>\<open>dup\<close>, bits 4 to 7 are \<^verbatim>\<open>type\<close>. \<open>header_byte\<close> is the byte after the four fields have
  been assigned to a zeroed union (an assignment keeps the low bits of the value), the other
  four read the fields back.
\<close>

definition header_byte :: "int \<Rightarrow> byte \<Rightarrow> int \<Rightarrow> byte \<Rightarrow> byte" where
  "header_byte type dup qos retain =
     word_of_int (16 * (type mod 16) + 8 * (uint dup mod 2) + 2 * (qos mod 4) + uint retain mod 2)"

definition header_type :: "byte \<Rightarrow> int" where
  "header_type b = uint b div 16"

definition header_dup :: "byte \<Rightarrow> byte" where
  "header_dup b = word_of_int (uint b div 8 mod 2)"

definition header_qos :: "byte \<Rightarrow> int" where
  "header_qos b = uint b div 2 mod 4"

definition header_retain :: "byte \<Rightarrow> byte" where
  "header_retain b = word_of_int (uint b mod 2)"

record MQTTLenString =
  len :: int
  data :: cptr

record MQTTString =
  cstring :: cptr
  lenstring :: MQTTLenString

definition MQTTString_initializer :: MQTTString where
  "MQTTString_initializer = \<lparr>cstring = Null, lenstring = \<lparr>len = 0, data = Null\<rparr>\<rparr>"

subsection \<open>The remaining length\<close>

function encode_loop :: "byte list \<Rightarrow> nat \<Rightarrow> int \<Rightarrow> int \<Rightarrow> (int \<times> byte list) option" where
  "encode_loop buf p rc n =
     (let d = word_of_int (n smod 128); n' = n sdiv 128;
          d = (if n' > 0 then d OR 128 else d)
      in do {
        buf \<leftarrow> store buf (p + nat rc) d;
        if n' > 0 then encode_loop buf p (rc + 1) n' else Some (rc + 1, buf)
      })"
  by pat_completeness auto
termination
  by (relation "measure (\<lambda>(buf, p, rc, n). nat n)") (use sdiv_128_decreases in force)+

declare encode_loop.simps [simp del]

definition MQTTPacket_encode :: "wptr \<Rightarrow> int \<Rightarrow> (int \<times> byte list) option" where
  "MQTTPacket_encode w n = encode_loop (fst w) (snd w) 0 n"

text \<open>\<open>encode_at\<close> is the statement \<^verbatim>\<open>ptr += MQTTPacket_encode(ptr, n)\<close> of the serializers.\<close>

definition encode_at :: "wptr \<Rightarrow> int \<Rightarrow> wptr option" where
  "encode_at w n = do { (k, buf) \<leftarrow> MQTTPacket_encode w n; Some (buf, snd w + nat k) }"

text \<open>
  A data source for the readers: asked for \<open>count\<close> bytes it returns its result code, the bytes
  it stored at the destination and its next state.
\<close>

type_synonym 's getfn = "int \<Rightarrow> 's \<Rightarrow> (int \<times> byte list \<times> 's) option"

function decode_loop :: "'s getfn \<Rightarrow> int \<Rightarrow> int \<Rightarrow> int \<Rightarrow> 's \<Rightarrow> (int \<times> int \<times> 's) option" where
  "decode_loop getcharfn l multiplier value s =
     (if l + 1 > 4 then Some (l + 1, value, s)
      else do {
        (rc, cs, s) \<leftarrow> getcharfn 1 s;
        if rc \<noteq> 1 then Some (l + 1, value, s)
        else do {
          c \<leftarrow> fetch cs 0;
          let value = value + uint (c AND 127) * multiplier;
          let multiplier = multiplier * 128;
          if c AND 128 \<noteq> 0 then decode_loop getcharfn (l + 1) multiplier value s
          else Some (l + 1, value, s)
        }
      })"
  by pat_completeness auto
termination
  by (relation "measure (\<lambda>(g, l, m, v, s). nat (4 - l))") auto

declare decode_loop.simps [simp del]

definition MQTTPacket_decode :: "'s getfn \<Rightarrow> 's \<Rightarrow> (int \<times> int \<times> 's) option" where
  "MQTTPacket_decode getcharfn s = decode_loop getcharfn 0 1 0 s"

definition MQTTPacket_len :: "int \<Rightarrow> int" where
  "MQTTPacket_len rem_len =
     (let rem_len = to_int (rem_len + 1)
      in if rem_len < 128 then to_int (rem_len + 1)
         else if rem_len < 16384 then to_int (rem_len + 2)
         else if rem_len < 2097151 then to_int (rem_len + 3)
         else to_int (rem_len + 4))"

fun bufchar_loop :: "nat \<Rightarrow> byte list \<Rightarrow> byte list \<times> nat \<Rightarrow> (byte list \<times> byte list \<times> nat) option" where
  "bufchar_loop 0 c s = Some (c, s)"
| "bufchar_loop (Suc n) c (buf, p) =
     do { x \<leftarrow> fetch buf p; bufchar_loop n [x] (buf, p + 1) }"

definition bufchar :: "(byte list \<times> nat) getfn" where
  "bufchar count s = do { (c, s) \<leftarrow> bufchar_loop (nat count) [] s; Some (count, c, s) }"

definition MQTTPacket_decodeBuf :: "byte list \<Rightarrow> nat \<Rightarrow> (int \<times> int) option" where
  "MQTTPacket_decodeBuf buf p =
     do { (rc, value, _) \<leftarrow> MQTTPacket_decode bufchar (buf, p); Some (rc, value) }"

subsection \<open>Reading and writing the fields of a packet\<close>

definition readInt :: "byte list \<Rightarrow> nat \<Rightarrow> (int \<times> nat) option" where
  "readInt buf p = do {
     a \<leftarrow> fetch buf p;
     b \<leftarrow> fetch buf (p + 1);
     Some (256 * uint a + uint b, p + 2)
   }"

definition readChar :: "byte list \<Rightarrow> nat \<Rightarrow> (byte \<times> nat) option" where
  "readChar buf p = do { c \<leftarrow> fetch buf p; Some (c, p + 1) }"

definition writeChar :: "wptr \<Rightarrow> byte \<Rightarrow> wptr option" where
  "writeChar w c = do { buf \<leftarrow> store (fst w) (snd w) c; Some (buf, snd w + 1) }"

definition writeInt :: "wptr \<Rightarrow> int \<Rightarrow> wptr option" where
  "writeInt w anInt = do {
     w \<leftarrow> writeChar w (word_of_int (anInt sdiv 256));
     writeChar w (word_of_int (anInt smod 256))
   }"

definition writeCString :: "wptr \<Rightarrow> cptr \<Rightarrow> wptr option" where
  "writeCString w string = do {
     n \<leftarrow> strlen string;
     let n = to_int n;
     w \<leftarrow> writeInt w n;
     memcpy w string n
   }"

definition getLenStringLen :: "cptr \<Rightarrow> int option" where
  "getLenStringLen ptr = do {
     bs \<leftarrow> bytes_at ptr 2;
     Some (256 * uint (bs ! 0) + uint (bs ! 1))
   }"

definition writeMQTTString :: "wptr \<Rightarrow> MQTTString \<Rightarrow> wptr option" where
  "writeMQTTString w m =
     (if len (lenstring m) > 0 then do {
        w \<leftarrow> writeInt w (len (lenstring m));
        memcpy w (data (lenstring m)) (len (lenstring m))
      }
      else if cstring m \<noteq> Null then writeCString w (cstring m)
      else writeInt w 0)"

definition readMQTTLenString ::
  "MQTTString \<Rightarrow> byte list \<Rightarrow> nat \<Rightarrow> int \<Rightarrow> (int \<times> MQTTString \<times> nat) option" where
  "readMQTTLenString m buf p enddata =
     (if enddata - int p > 1 then do {
        (n, p) \<leftarrow> readInt buf p;
        let m = m\<lparr>lenstring := (lenstring m)\<lparr>len := n\<rparr>\<rparr>;
        if int p + n \<le> enddata
        then Some (1, m\<lparr>lenstring := (lenstring m)\<lparr>data := Ptr (drop p buf)\<rparr>, cstring := Null\<rparr>,
                   p + nat n)
        else Some (0, m\<lparr>cstring := Null\<rparr>, p)
      }
      else Some (0, m\<lparr>cstring := Null\<rparr>, p))"

definition MQTTstrlen :: "MQTTString \<Rightarrow> int option" where
  "MQTTstrlen m =
     (if cstring m \<noteq> Null then map_option to_int (strlen (cstring m))
      else Some (len (lenstring m)))"

definition MQTTPacket_equals :: "MQTTString \<Rightarrow> cptr \<Rightarrow> bool option" where
  "MQTTPacket_equals a bptr = do {
     (aptr, alen) \<leftarrow>
       (if cstring a \<noteq> Null
        then do { n \<leftarrow> strlen (cstring a); Some (cstring a, to_int n) }
        else Some (data (lenstring a), len (lenstring a)));
     n \<leftarrow> strlen bptr;
     let blen = to_int n;
     if alen = blen then strncmp_eq aptr bptr (to_size alen) else Some False
   }"

subsection \<open>Reading a packet\<close>

text \<open>
  \<open>MQTTPacket_read\<close> stores what the source delivers at the destination even when the result
  code then makes it give up, as the C code does by handing its buffer to the source.
\<close>

definition MQTTPacket_read ::
  "byte list \<Rightarrow> int \<Rightarrow> 's getfn \<Rightarrow> 's \<Rightarrow> (int \<times> byte list \<times> 's) option" where
  "MQTTPacket_read buf buflen getfn s = do {
     (n, bs, s) \<leftarrow> getfn 1 s;
     (buf, _) \<leftarrow> emit bs (buf, 0);
     if n \<noteq> 1 then Some (- 1, buf, s)
     else do {
       (_, rem_len, s) \<leftarrow> MQTTPacket_decode getfn s;
       (k, buf) \<leftarrow> MQTTPacket_encode (buf, 1) rem_len;
       let l = 1 + k;
       if rem_len + l > buflen then Some (- 1, buf, s)
       else if rem_len \<noteq> 0 then do {
         (n, bs, s) \<leftarrow> getfn rem_len s;
         (buf, _) \<leftarrow> emit bs (buf, nat l);
         if n \<noteq> rem_len then Some (- 1, buf, s)
         else do { b \<leftarrow> fetch buf 0; Some (header_type b, buf, s) }
       }
       else do { b \<leftarrow> fetch buf 0; Some (header_type b, buf, s) }
     }
   }"

record MQTTTransport =
  multiplier :: int
  rem_len :: int
  trp_len :: int
  trp_state :: int

function decodenb_loop ::
  "'s getfn \<Rightarrow> MQTTTransport \<Rightarrow> 's \<Rightarrow> (int \<times> MQTTTransport \<times> 's) option" where
  "decodenb_loop getfn trp s =
     (if trp_len trp \<ge> 4 then Some (MQTTPACKET_READ_ERROR, trp, s)
      else do {
        (frc, cs, s) \<leftarrow> getfn 1 s;
        if frc = - 1 then Some (MQTTPACKET_READ_ERROR, trp, s)
        else if frc = 0 then Some (0, trp, s)
        else do {
          c \<leftarrow> fetch cs 0;
          let trp = trp\<lparr>trp_len := trp_len trp + 1,
                        rem_len := rem_len trp + uint (c AND 127) * multiplier trp,
                        multiplier := multiplier trp * 128\<rparr>;
          if c AND 128 \<noteq> 0 then decodenb_loop getfn trp s
          else Some (trp_len trp, trp, s)
        }
      })"
  by pat_completeness auto
termination
  by (relation "measure (\<lambda>(g, trp, s). nat (4 - trp_len trp))") auto

declare decodenb_loop.simps [simp del]

definition MQTTPacket_decodenb ::
  "'s getfn \<Rightarrow> MQTTTransport \<Rightarrow> 's \<Rightarrow> (int \<times> MQTTTransport \<times> 's) option" where
  "MQTTPacket_decodenb getfn trp s =
     (let trp = (if trp_len trp = 0 then trp\<lparr>multiplier := 1, rem_len := 0\<rparr> else trp)
      in decodenb_loop getfn trp s)"

text \<open>
  \<open>MQTTPacket_readnb\<close> is a \<^verbatim>\<open>switch\<close> whose cases fall through; each case is a definition that
  ends in the next one, and every \<^verbatim>\<open>goto exit\<close> resets \<^verbatim>\<open>trp->state\<close>.
\<close>

type_synonym 's readnb_result = "(int \<times> byte list \<times> MQTTTransport \<times> 's) option"

definition readnb_exit :: "int \<Rightarrow> byte list \<Rightarrow> MQTTTransport \<Rightarrow> 's \<Rightarrow> 's readnb_result" where
  "readnb_exit rc buf trp s = Some (rc, buf, trp\<lparr>trp_state := 0\<rparr>, s)"

definition readnb_done :: "byte list \<Rightarrow> MQTTTransport \<Rightarrow> 's \<Rightarrow> 's readnb_result" where
  "readnb_done buf trp s = do { b \<leftarrow> fetch buf 0; readnb_exit (header_type b) buf trp s }"

definition readnb_case2 ::
  "byte list \<Rightarrow> 's getfn \<Rightarrow> MQTTTransport \<Rightarrow> 's \<Rightarrow> 's readnb_result" where
  "readnb_case2 buf getfn trp s =
     (if rem_len trp \<noteq> 0 then do {
        (frc, bs, s) \<leftarrow> getfn (rem_len trp) s;
        (buf, _) \<leftarrow> emit bs (buf, nat (trp_len trp));
        if frc = - 1 then readnb_exit (- 1) buf trp s
        else if frc = 0 then Some (0, buf, trp, s)
        else do {
          let trp = trp\<lparr>rem_len := rem_len trp - frc, trp_len := trp_len trp + frc\<rparr>;
          if rem_len trp \<noteq> 0 then Some (0, buf, trp, s) else readnb_done buf trp s
        }
      }
      else readnb_done buf trp s)"

definition readnb_case1 ::
  "byte list \<Rightarrow> int \<Rightarrow> 's getfn \<Rightarrow> MQTTTransport \<Rightarrow> 's \<Rightarrow> 's readnb_result" where
  "readnb_case1 buf buflen getfn trp s = do {
     (frc, trp, s) \<leftarrow> MQTTPacket_decodenb getfn trp s;
     if frc = MQTTPACKET_READ_ERROR then readnb_exit (- 1) buf trp s
     else if frc = 0 then Some (0, buf, trp, s)
     else do {
       (k, buf) \<leftarrow> MQTTPacket_encode (buf, 1) (rem_len trp);
       let trp = trp\<lparr>trp_len := 1 + k\<rparr>;
       if rem_len trp + trp_len trp > buflen then readnb_exit (- 1) buf trp s
       else readnb_case2 buf getfn (trp\<lparr>trp_state := trp_state trp + 1\<rparr>) s
     }
   }"

definition readnb_case0 ::
  "byte list \<Rightarrow> int \<Rightarrow> 's getfn \<Rightarrow> MQTTTransport \<Rightarrow> 's \<Rightarrow> 's readnb_result" where
  "readnb_case0 buf buflen getfn trp s = do {
     (frc, bs, s) \<leftarrow> getfn 1 s;
     (buf, _) \<leftarrow> emit bs (buf, 0);
     if frc = - 1 then readnb_exit (- 1) buf trp s
     else if frc = 0 then Some (0, buf, trp, s)
     else readnb_case1 buf buflen getfn
            (trp\<lparr>trp_len := 0, trp_state := trp_state trp + 1\<rparr>) s
   }"

definition MQTTPacket_readnb ::
  "byte list \<Rightarrow> int \<Rightarrow> 's getfn \<Rightarrow> MQTTTransport \<Rightarrow> 's \<Rightarrow> 's readnb_result" where
  "MQTTPacket_readnb buf buflen getfn trp s =
     (if trp_state trp = 2 then readnb_case2 buf getfn trp s
      else if trp_state trp = 1 then readnb_case1 buf buflen getfn trp s
      else if trp_state trp = 0 then readnb_case0 buf buflen getfn trp s
      else readnb_case0 buf buflen getfn (trp\<lparr>trp_state := 0\<rparr>) s)"

subsection \<open>Specification vocabulary\<close>

text \<open>
  \<open>remlen_bytes n\<close>: the remaining-length field of the MQTT standard, seven bits per byte, low
  bits first, the top bit marking that another byte follows.
\<close>
fun remlen_bytes :: "nat \<Rightarrow> byte list" where
  "remlen_bytes n =
     (if n < 128 then [word_of_nat n]
      else (word_of_nat (n mod 128) OR 128) # remlen_bytes (n div 128))"
declare remlen_bytes.simps [simp del]

text \<open>\<open>utf_bytes s\<close>: a length-prefixed string. \<open>int_bytes n\<close>: a two-byte big-endian integer.\<close>

definition int_bytes :: "int \<Rightarrow> byte list" where
  "int_bytes n = [word_of_int (n div 256), word_of_int (n mod 256)]"

definition utf_bytes :: "byte list \<Rightarrow> byte list" where
  "utf_bytes s = int_bytes (int (length s)) @ s"

text \<open>
  \<open>denotes m s\<close>: the \<^verbatim>\<open>MQTTString\<close> \<open>m\<close> holds the string \<open>s\<close>, in exactly one of its two
  representations, and \<open>s\<close> fits the two-byte length prefix.
\<close>

definition denotes :: "MQTTString \<Rightarrow> byte list \<Rightarrow> bool" where
  "denotes m s \<longleftrightarrow> length s \<le> 65535 \<and>
     (cstring_of (cstring m) s \<and> len (lenstring m) \<le> 0 \<or>
      cstring m = Null \<and> len (lenstring m) = int (length s) \<and>
      bytes_at (data (lenstring m)) (length s) = Some s)"

text \<open>A whole packet: header byte, remaining length, body.\<close>

definition packet_bytes :: "byte \<Rightarrow> byte list \<Rightarrow> byte list" where
  "packet_bytes h body = h # remlen_bytes (length body) @ body"

text \<open>The bytes an \<^verbatim>\<open>MQTTString\<close> and a pointer with a length stand for.\<close>

fun content :: "cptr \<Rightarrow> nat \<Rightarrow> byte list" where
  "content (Ptr bs) n = take n bs"
| "content _ n = []"

fun ccontent :: "cptr \<Rightarrow> byte list" where
  "ccontent (Ptr bs) = takeWhile (\<lambda>b. b \<noteq> 0) bs"
| "ccontent _ = []"

definition mqtt_content :: "MQTTString \<Rightarrow> byte list" where
  "mqtt_content m =
     (if cstring m \<noteq> Null then ccontent (cstring m)
      else content (data (lenstring m)) (nat (len (lenstring m))))"

subsection \<open>Header byte\<close>

lemma uint_header_byte:
  "uint (header_byte t d q r) = 16 * (t mod 16) + 8 * (uint d mod 2) + 2 * (q mod 4) + uint r mod 2"
proof -
  have "0 \<le> t mod 16" "t mod 16 < 16" "0 \<le> uint d mod 2" "uint d mod 2 < 2"
    "0 \<le> q mod 4" "q mod 4 < 4" "0 \<le> uint r mod 2" "uint r mod 2 < 2"
    by simp_all
  then show ?thesis
    unfolding header_byte_def uint_word_of_int by (intro mod_pos_pos_trivial) simp_all
qed

lemma header_fields:
  assumes "uint b = 16 * t + 8 * d + 2 * q + r"
    and "0 \<le> d" "d < 2" "0 \<le> q" "q < 4" "0 \<le> r" "r < 2"
  shows "uint b div 16 = t" "uint b div 8 mod 2 = d" "uint b div 2 mod 4 = q" "uint b mod 2 = r"
proof -
  have t: "uint b = 16 * t + (8 * d + 2 * q + r)" and d: "uint b = 8 * (2 * t + d) + (2 * q + r)"
    and q: "uint b = 2 * (4 * (2 * t + d) + q) + r" by (simp_all add: assms(1))
  show "uint b div 16 = t" unfolding t using assms by (intro field_div) auto
  have "uint b div 8 = 2 * t + d" unfolding d using assms by (intro field_div) auto
  then show "uint b div 8 mod 2 = d" using assms by (simp add: field_mod)
  have "uint b div 2 = 4 * (2 * t + d) + q" unfolding q using assms by (intro field_div) auto
  then show "uint b div 2 mod 4 = q" using assms by (simp only: field_mod)
  show "uint b mod 2 = r" unfolding q using assms by (intro field_mod) auto
qed

lemma header_byte_fields [simp]:
  "header_type (header_byte t d q r) = t mod 16"
  "header_dup (header_byte t d q r) = word_of_int (uint d mod 2)"
  "header_qos (header_byte t d q r) = q mod 4"
  "header_retain (header_byte t d q r) = word_of_int (uint r mod 2)"
  using header_fields [OF uint_header_byte [of t d q r]]
  by (simp_all only: header_type_def header_dup_def header_qos_def header_retain_def)

lemma header_type_range: "0 \<le> header_type b" "header_type b < 16"
  using uint_byte_lt [of b] uint_ge_0 [of b] unfolding header_type_def by presburger+

subsection \<open>Encoding and decoding the remaining length\<close>

lemma length_remlen_bytes:
  "n < 268435456 \<Longrightarrow> length (remlen_bytes n) =
     (if n < 128 then 1 else if n < 16384 then 2 else if n < 2097152 then 3 else 4)"
  by (simp add: remlen_bytes.simps [of n] remlen_bytes.simps [of "n div 128"]
      remlen_bytes.simps [of "n div 16384"] remlen_bytes.simps [of "n div 2097152"]
      div_mult2_eq [symmetric] div_less_iff_less_mult)

lemma encode_loop_remlen:
  assumes "0 \<le> rc"
  shows "encode_loop buf p rc (int n) =
    (if p + nat rc + length (remlen_bytes n) \<le> length buf
     then Some (rc + int (length (remlen_bytes n)), overwrite buf (p + nat rc) (remlen_bytes n))
     else None)"
  using assms
proof (induction n arbitrary: buf rc rule: remlen_bytes.induct)
  case (1 n)
  have sdiv: "int n sdiv 128 = int (n div 128)" "int n smod 128 = int (n mod 128)"
    by (simp_all add: sdiv_nonneg smod_nonneg of_nat_div of_nat_mod)
  show ?case
  proof (cases "n < 128")
    case True
    then show ?thesis
      by (simp add: encode_loop.simps [of buf p rc] sdiv remlen_bytes.simps [of n] store_def
          list_update_overwrite)
  next
    case False
    then have pos: "0 < int (n div 128)" by simp
    have n1: "p + nat (rc + 1) = p + nat rc + 1" using "1.prems" by simp
    let ?b = "word_of_nat (n mod 128) OR 128 :: byte"
    have tl: "remlen_bytes n = ?b # remlen_bytes (n div 128)"
      using False by (simp add: remlen_bytes.simps [of n])
    show ?thesis
    proof (cases "p + nat rc < length buf")
      case True
      then have "encode_loop buf p rc (int n) =
          encode_loop (overwrite buf (p + nat rc) [?b]) p (rc + 1) (int (n div 128))"
        using pos by (simp add: encode_loop.simps [of buf p rc] sdiv list_update_overwrite)
      then show ?thesis
        using "1.IH" [OF False, of "rc + 1" "overwrite buf (p + nat rc) [?b]"] True "1.prems"
          overwrite_overwrite [of "p + nat rc" "[?b]" "remlen_bytes (n div 128)" buf]
        by (auto simp: n1 tl)
    next
      case F: False
      then show ?thesis
        by (simp add: encode_loop.simps [of buf p rc] sdiv store_def tl)
    qed
  qed
qed

lemma MQTTPacket_encode_emit:
  "MQTTPacket_encode (buf, p) (int n) =
     (if p + length (remlen_bytes n) \<le> length buf
      then Some (int (length (remlen_bytes n)), overwrite buf p (remlen_bytes n)) else None)"
  by (simp add: MQTTPacket_encode_def encode_loop_remlen)

lemma length_remlen_bytes_bounds:
  "n < 268435456 \<Longrightarrow> 1 \<le> length (remlen_bytes n)" "n < 268435456 \<Longrightarrow> length (remlen_bytes n) \<le> 4"
  by (simp_all add: length_remlen_bytes)

lemma remlen_bytes_small [simp]: "n < 128 \<Longrightarrow> remlen_bytes n = [word_of_nat n]"
  by (simp add: remlen_bytes.simps)

text \<open>
  The interface between the packet readers and a transport: asked for one byte, the source
  delivers the next pending byte.
\<close>

locale char_source =
  fixes getfn :: "'s getfn" and pending :: "'s \<Rightarrow> byte list"
  assumes get_char: "pending s = c # cs \<Longrightarrow> \<exists>s'. getfn 1 s = Some (1, [c], s') \<and> pending s' = cs"
begin

lemma decode_loop_remlen:
  assumes "pending s = remlen_bytes n @ rest" and "l + int (length (remlen_bytes n)) \<le> 4"
  shows "\<exists>s'. decode_loop getfn l m v s = Some (l + int (length (remlen_bytes n)), v + int n * m, s')
    \<and> pending s' = rest"
  using assms
proof (induction n arbitrary: l m v s rule: remlen_bytes.induct)
  case (1 n)
  show ?case
  proof (cases "n < 128")
    case True
    with "1.prems" get_char [of s] obtain s' where
      s': "getfn 1 s = Some (1, [word_of_nat n], s')" "pending s' = rest" by auto
    have "word_of_nat n AND 128 = (0 :: byte)" "uint (word_of_nat n AND 127 :: byte) = int n"
      using True by (simp_all add: and_128_eq_0_iff uint_and_127)
    with True s' "1.prems" show ?thesis by (simp add: decode_loop.simps [of getfn l])
  next
    case False
    let ?b = "word_of_nat (n mod 128) OR 128 :: byte"
    have nb: "remlen_bytes n = ?b # remlen_bytes (n div 128)"
      using False by (simp add: remlen_bytes.simps [of n])
    with "1.prems" get_char [of s] obtain s' where
      s': "getfn 1 s = Some (1, [?b], s')" "pending s' = remlen_bytes (n div 128) @ rest" by auto
    have ub: "uint ?b = int (n mod 128) + 128"
      by (subst uint_or_128) simp_all
    have b: "?b AND 128 \<noteq> 0" "uint (?b AND 127) = int (n mod 128)"
      by (simp_all add: and_128_eq_0_iff uint_and_127 ub)
    have ne: "remlen_bytes (n div 128) \<noteq> []" by (subst remlen_bytes.simps) simp
    then have l: "l + 1 + int (length (remlen_bytes (n div 128))) \<le> 4" "\<not> l + 1 > 4"
      using "1.prems"(2) nb by (cases "remlen_bytes (n div 128)"; simp)+
    obtain s'' where "decode_loop getfn (l + 1) (m * 128) (v + int (n mod 128) * m) s' =
        Some (l + 1 + int (length (remlen_bytes (n div 128))),
              v + int (n mod 128) * m + int (n div 128) * (m * 128), s'') \<and> pending s'' = rest"
      using "1.IH" [OF False s'(2) l(1)] by blast
    moreover have "int n = int (n mod 128) + int (n div 128) * 128"
      by (metis mult.commute of_nat_add of_nat_mult of_nat_numeral mod_mult_div_eq)
    then have "int (n mod 128) * m + int (n div 128) * (m * 128) = int n * m"
      by (simp add: algebra_simps)
    moreover have "decode_loop getfn l m v s = decode_loop getfn (l + 1) (m * 128) (v + int (n mod 128) * m) s'"
      using s' b l by (simp add: decode_loop.simps [of getfn l])
    ultimately show ?thesis using nb by (auto simp: algebra_simps)
  qed
qed

lemma decode_remlen:
  assumes "pending s = remlen_bytes n @ rest" and "n < 268435456"
  shows "\<exists>s'. MQTTPacket_decode getfn s = Some (int (length (remlen_bytes n)), int n, s') \<and> pending s' = rest"
  using decode_loop_remlen [OF assms(1), of 0 1 0] length_remlen_bytes_bounds(2) [OF assms(2)]
  by (simp add: MQTTPacket_decode_def)

end

lemma bufchar_one: "bufchar 1 (buf, p) = do { x \<leftarrow> fetch buf p; Some (1, [x], (buf, p + 1)) }"
  by (simp add: bufchar_def numeral_eq_Suc)

interpretation bufsrc: char_source bufchar "\<lambda>(buf, p). drop p buf"
proof unfold_locales
  fix s :: "byte list \<times> nat" and c cs
  assume *: "(case s of (buf, p) \<Rightarrow> drop p buf) = c # cs"
  obtain buf p where s: "s = (buf, p)" by fastforce
  with * have "drop p buf = c # cs" by simp
  then show "\<exists>s'. bufchar 1 s = Some (1, [c], s') \<and> (case s' of (buf, p) \<Rightarrow> drop p buf) = cs"
    by (simp add: s bufchar_one drop_eq_ConsD [of p buf c cs])
qed

lemma digit_step:
  fixes v m k :: int
  assumes "0 \<le> v" "v < m" "0 \<le> k" "k < 128"
  shows "0 \<le> v + k * m" "v + k * m < m * 128"
proof -
  have "k * m \<le> 127 * m" using assms by (intro mult_right_mono) auto
  then show "v + k * m < m * 128" using assms by linarith
  show "0 \<le> v + k * m" using assms by simp
qed

lemma uint_and_127_bounds: "0 \<le> uint (b AND 127 :: byte)" "uint (b AND 127 :: byte) < 128"
  by (simp_all add: uint_and_127)

lemma decode_loop_bounds:
  "decode_loop getfn l m v s = Some (rc, vl, s') \<Longrightarrow> 0 \<le> l \<Longrightarrow> l \<le> 4 \<Longrightarrow> m = 128 ^ nat l \<Longrightarrow>
     0 \<le> v \<Longrightarrow> v < m \<Longrightarrow> l < rc \<and> rc \<le> 5 \<and> 0 \<le> vl \<and> vl < 128 ^ 4"
proof (induction getfn l m v s rule: decode_loop.induct)
  case (1 getfn l m v s)
  show ?case
  proof (cases "l + 1 > 4")
    case True
    then have "l = 4" using "1.prems" by simp
    then show ?thesis using "1.prems" by (simp add: decode_loop.simps)
  next
    case False
    have m: "m * 128 = 128 ^ nat (l + 1)" using "1.prems" by (simp add: nat_add_distrib)
    have m4: "m * 128 \<le> 128 ^ 4" unfolding m using False by (intro power_increasing) auto
    moreover have "0 < m" using "1.prems" by simp
    ultimately have m4': "m \<le> 128 ^ 4" by simp
    from "1.prems"(1) False obtain n cs t where get: "getfn 1 s = Some (n, cs, t)"
      by (auto simp: decode_loop.simps [of getfn l] bind_eq_Some_conv)
    show ?thesis
    proof (cases "n = 1 \<and> cs \<noteq> []")
      case nF: False
      then show ?thesis using "1.prems" False get m4'
        by (auto simp: decode_loop.simps [of getfn l] fetch_def split: if_splits)
    next
      case True
      then obtain c where c: "fetch cs 0 = Some c" by (auto simp: fetch_def)
      let ?v = "v + uint (c AND 127) * m"
      have v: "0 \<le> ?v" "?v < m * 128"
        using digit_step [OF "1.prems"(5,6) uint_and_127_bounds [of c]] by auto
      show ?thesis
      proof (cases "c AND 128 \<noteq> 0")
        case True
        have "decode_loop getfn (l + 1) (m * 128) ?v t = Some (rc, vl, s')"
          using "1.prems"(1) False get c \<open>n = 1 \<and> _\<close> True by (simp add: decode_loop.simps [of getfn l])
        then have "l + 1 < rc \<and> rc \<le> 5 \<and> 0 \<le> vl \<and> vl < 128 ^ 4"
          using "1.IH" [OF False get refl refl _ c refl refl True] \<open>n = 1 \<and> _\<close> False "1.prems" v m by simp
        then show ?thesis by simp
      next
        case cF: False
        then have "rc = l + 1 \<and> vl = ?v"
          using "1.prems"(1) False get c \<open>n = 1 \<and> _\<close> by (simp add: decode_loop.simps [of getfn l])
        then show ?thesis using v m4 False by simp
      qed
    qed
  qed
qed

lemma decode_bounds:
  "MQTTPacket_decode getfn s = Some (rc, vl, s') \<Longrightarrow>
     1 \<le> rc \<and> rc \<le> 5 \<and> 0 \<le> vl \<and> vl < 268435456"
  using decode_loop_bounds [of getfn 0 1 0 s rc vl s'] by (simp add: MQTTPacket_decode_def)

lemma MQTTPacket_len_bounds:
  assumes "0 \<le> n" "n < 268435456"
  shows "1 + int (length (remlen_bytes (nat n))) + n \<le> MQTTPacket_len n"
    "MQTTPacket_len n \<le> 2 + int (length (remlen_bytes (nat n))) + n"
proof -
  have "nat n < k \<longleftrightarrow> n < int k" for k using assms by linarith
  then show "1 + int (length (remlen_bytes (nat n))) + n \<le> MQTTPacket_len n"
    "MQTTPacket_len n \<le> 2 + int (length (remlen_bytes (nat n))) + n"
    using assms by (auto simp: MQTTPacket_len_def length_remlen_bytes Let_def)
qed

lemma writeChar_emit [emit_simps]: "writeChar w c = emit [c] w"
  by (cases w) (simp add: writeChar_def emit_def store_def list_update_overwrite)

lemma writeInt_emit [emit_simps]: "0 \<le> n \<Longrightarrow> writeInt w n = emit (int_bytes n) w"
  by (simp add: writeInt_def int_bytes_def emit_simps sdiv_nonneg smod_nonneg)

lemma writeCString_emit [emit_simps]:
  "cstring_of p s \<Longrightarrow> length s \<le> 65535 \<Longrightarrow> writeCString w p = emit (utf_bytes s) w"
  by (simp add: writeCString_def utf_bytes_def emit_simps memcpy_bytes)

lemma writeMQTTString_emit [emit_simps]: "denotes m s \<Longrightarrow> writeMQTTString w m = emit (utf_bytes s) w"
  by (auto simp: denotes_def writeMQTTString_def utf_bytes_def emit_simps memcpy_bytes
      dest: cstring_of_not_null)

lemma MQTTstrlen_denotes [simp]: "denotes m s \<Longrightarrow> MQTTstrlen m = Some (int (length s))"
  by (auto simp: denotes_def MQTTstrlen_def dest: cstring_of_not_null)

lemma length_utf_bytes [simp]: "length (utf_bytes s) = length s + 2"
  by (simp add: utf_bytes_def int_bytes_def)

lemma length_int_bytes [simp]: "length (int_bytes n) = 2"
  by (simp add: int_bytes_def)

subsection \<open>Reading fields\<close>

lemma readChar_nth [simp]: "p < length buf \<Longrightarrow> readChar buf p = Some (buf ! p, p + 1)"
  by (simp add: readChar_def)

lemma readInt_nth [simp]:
  "p + 1 < length buf \<Longrightarrow> readInt buf p = Some (256 * uint (buf ! p) + uint (buf ! (p + 1)), p + 2)"
  by (simp add: readInt_def)

lemma uint_int_bytes:
  "0 \<le> n \<Longrightarrow> n < 65536 \<Longrightarrow> 256 * uint (word_of_int (n div 256) :: byte) + uint (word_of_int (n mod 256) :: byte) = n"
  by (simp add: uint_word_of_int)

lemma readChar_prefix: "drop p buf = c # rest \<Longrightarrow> readChar buf p = Some (c, p + 1)"
  by (simp add: drop_eq_ConsD)

lemma readInt_prefix:
  assumes "drop p buf = int_bytes n @ rest" "0 \<le> n" "n < 65536"
  shows "readInt buf p = Some (n, p + 2)"
proof -
  from assms(1) have "drop p buf = word_of_int (n div 256) # word_of_int (n mod 256) # rest"
    by (simp add: int_bytes_def)
  from drop_eq_ConsD [OF this] drop_eq_ConsD [OF drop_eq_ConsD(3) [OF this]]
  show ?thesis using uint_int_bytes [OF assms(2,3)] by simp
qed

lemma readInt_bounds: "readInt buf p = Some (n, p') \<Longrightarrow> 0 \<le> n \<and> n < 65536 \<and> p' = p + 2 \<and> p' \<le> length buf"
proof -
  assume "readInt buf p = Some (n, p')"
  then have "p + 1 < length buf" "n = 256 * uint (buf ! p) + uint (buf ! (p + 1))" "p' = p + 2"
    by (auto simp: readInt_def fetch_eq_Some_iff bind_eq_Some_conv)
  moreover have "uint (buf ! p) \<le> 255" "uint (buf ! (p + 1)) \<le> 255"
    using uint_byte_lt [of "buf ! p"] uint_byte_lt [of "buf ! (p + 1)"] by linarith+
  ultimately show ?thesis by auto
qed

lemma readMQTTLenString_utf:
  assumes "drop p buf = utf_bytes s @ rest" "length s \<le> 65535" "int (p + 2 + length s) \<le> enddata"
  shows "readMQTTLenString m buf p enddata =
    Some (1, m\<lparr>cstring := Null, lenstring := (lenstring m)\<lparr>len := int (length s), data := Ptr (s @ rest)\<rparr>\<rparr>,
          p + 2 + length s)"
proof -
  have "readInt buf p = Some (int (length s), p + 2)"
    using assms by (intro readInt_prefix [where rest = "s @ rest"]) (simp_all add: utf_bytes_def)
  moreover have "drop (p + 2) buf = s @ rest"
    using arg_cong [OF assms(1), of "drop 2"] by (simp add: utf_bytes_def add.commute)
  ultimately show ?thesis
    using assms(3) by (simp add: readMQTTLenString_def)
qed

lemma denotes_lenstring:
  "length s \<le> 65535 \<Longrightarrow>
     denotes (m\<lparr>cstring := Null, lenstring := (lenstring m)\<lparr>len := int (length s), data := Ptr (s @ rest)\<rparr>\<rparr>) s"
  by (simp add: denotes_def)

text \<open>\<open>wf_string m\<close>: \<open>m\<close> holds some string in one representation.\<close>

definition wf_string :: "MQTTString \<Rightarrow> bool" where
  "wf_string m \<longleftrightarrow> denotes m (mqtt_content m)"

lemma wf_string_length: "wf_string m \<Longrightarrow> length (mqtt_content m) \<le> 65535"
  by (simp add: wf_string_def denotes_def)

text \<open>What \<^verbatim>\<open>readMQTTLenString\<close> leaves in its argument when it reads \<open>s\<close> in front of \<open>rest\<close>.\<close>

definition string_read :: "MQTTString \<Rightarrow> byte list \<Rightarrow> byte list \<Rightarrow> MQTTString" where
  "string_read m s rest = m\<lparr>cstring := Null, lenstring := (lenstring m)\<lparr>len := int (length s), data := Ptr (s @ rest)\<rparr>\<rparr>"

lemma denotes_string_read [simp]: "length s \<le> 65535 \<Longrightarrow> denotes (string_read m s rest) s"
  by (simp add: string_read_def denotes_lenstring)

lemma read_utf:
  assumes "drop p buf = utf_bytes s @ rest" "length s \<le> 65535"
  shows "readMQTTLenString m buf p (int (length buf)) = Some (1, string_read m s rest, p + 2 + length s)"
    "drop (p + 2 + length s) buf = rest"
proof -
  have "p + 2 + length s \<le> length buf"
    using arg_cong [OF assms(1), of length] by simp
  then show "readMQTTLenString m buf p (int (length buf)) = Some (1, string_read m s rest, p + 2 + length s)"
    unfolding string_read_def using assms by (intro readMQTTLenString_utf) simp_all
  show "drop (p + 2 + length s) buf = rest"
    using drop_append_skip [OF assms(1)] by (simp add: add.assoc)
qed

lemma readMQTTLenString_safe:
  "enddata \<le> int (length buf) \<Longrightarrow> readMQTTLenString m buf p enddata \<noteq> None"
  by (auto simp: readMQTTLenString_def Let_def)

lemma readMQTTLenString_cases:
  assumes "readMQTTLenString m buf p enddata = Some (rc, m', p')"
  shows "rc = 0 \<and> (p' = p \<or> p' = p + 2 \<and> p' \<le> length buf \<and> int p' \<le> enddata) \<or>
    rc = 1 \<and> p + 2 \<le> length buf \<and> p + 2 \<le> p' \<and> int p' \<le> enddata \<and> p' - (p + 2) < 65536 \<and>
    m' = m\<lparr>cstring := Null, lenstring := (lenstring m)\<lparr>len := int (p' - (p + 2)), data := Ptr (drop (p + 2) buf)\<rparr>\<rparr>"
  using assms unfolding readMQTTLenString_def
  by (auto simp: bind_eq_Some_conv Let_def split: if_splits dest!: readInt_bounds)

lemma MQTTPacket_equals_denotes:
  assumes "denotes a s" "cstring_of b t" "length t \<le> 65535"
  shows "MQTTPacket_equals a b = Some (s = t)"
proof -
  define aptr where "aptr = (if cstring a \<noteq> Null then cstring a else data (lenstring a))"
  have "bytes_at aptr (length s) = Some s"
    "MQTTPacket_equals a b = (if length s = length t then strncmp_eq aptr b (length s) else Some False)"
    using assms
    by (auto simp: aptr_def denotes_def MQTTPacket_equals_def dest: cstring_of_not_null)
  moreover have "strncmp_eq aptr b (length t) = Some (s = t)" if "bytes_at aptr (length t) = Some s" for aptr
    using that assms(2) strncmp_bytes_append [of t]
    by (cases aptr) (auto simp: cstring_of_def split: if_splits)
  ultimately show ?thesis by auto
qed

locale byte_source =
  fixes getfn :: "'s getfn" and pending :: "'s \<Rightarrow> byte list"
  assumes get_bytes: "0 < n \<Longrightarrow> n \<le> length (pending s) \<Longrightarrow>
    \<exists>s'. getfn (int n) s = Some (int n, take n (pending s), s') \<and> pending s' = drop n (pending s)"

sublocale byte_source \<subseteq> char_source
proof unfold_locales
  fix s c cs
  assume "pending s = c # cs"
  then show "\<exists>s'. getfn 1 s = Some (1, [c], s') \<and> pending s' = cs"
    using get_bytes [of 1 s] by simp
qed

context byte_source
begin

lemma read_packet:
  assumes s: "pending s = packet_bytes h body @ rest" and body: "length body < 268435456"
    and fits: "int (length (packet_bytes h body)) \<le> buflen" "buflen \<le> int (length buf)"
  shows "\<exists>s'. MQTTPacket_read buf buflen getfn s =
      Some (header_type h, overwrite buf 0 (packet_bytes h body), s') \<and> pending s' = rest"
proof -
  let ?n = "length body" and ?r = "remlen_bytes (length body)"
  obtain s1 where s1: "getfn 1 s = Some (1, [h], s1)" "pending s1 = ?r @ body @ rest"
    using get_char [of s h] s by (auto simp: packet_bytes_def)
  obtain s2 where s2: "MQTTPacket_decode getfn s1 = Some (int (length ?r), int ?n, s2)" "pending s2 = body @ rest"
    using decode_remlen [OF s1(2) body] by blast
  have len: "1 + length ?r + ?n \<le> length buf" "int ?n + (1 + int (length ?r)) \<le> buflen"
    using fits by (auto simp: packet_bytes_def)
  have e1: "emit [h] (buf, 0) = Some (overwrite buf 0 [h], 1)" using len by (simp add: emit_def)
  have enc: "MQTTPacket_encode (overwrite buf 0 [h], 1) (int ?n) = Some (int (length ?r), overwrite buf 0 (h # ?r))"
    using len overwrite_overwrite [of 0 "[h]" ?r buf] by (simp add: MQTTPacket_encode_emit)
  have b0: "fetch (overwrite buf 0 (h # xs)) 0 = Some h" if "length xs < length buf" for xs
    using that by (simp add: fetch_def overwrite_def)
  show ?thesis
  proof (cases "body = []")
    case True
    then show ?thesis using s1 s2 len e1 enc b0
      by (auto simp: MQTTPacket_read_def packet_bytes_def)
  next
    case False
    then obtain s3 where s3: "getfn (int ?n) s2 = Some (int ?n, body, s3)" "pending s3 = rest"
      using get_bytes [of ?n s2] s2 by auto
    have e3: "emit body (overwrite buf 0 (h # ?r), Suc (length ?r)) =
        Some (overwrite buf 0 (h # ?r @ body), Suc (length ?r) + ?n)"
      using len overwrite_overwrite [of 0 "h # ?r" body buf] by (simp add: emit_def)
    show ?thesis using False s1 s2 s3 len e1 e3 enc b0 [of "?r @ body"]
      by (auto simp: MQTTPacket_read_def packet_bytes_def nat_add_distrib)
  qed
qed

end

lemma bytes_at_content: "bytes_at p n = Some bs \<Longrightarrow> content p n = bs"
  by (cases p) (auto split: if_splits)

lemma length_bytes_at: "bytes_at p n = Some bs \<Longrightarrow> length bs = n"
  by (cases p) (auto split: if_splits)

lemma denotes_mqtt_content: "denotes m s \<Longrightarrow> mqtt_content m = s"
  by (auto simp: denotes_def mqtt_content_def cstring_of_def bytes_at_content)

subsection \<open>The contract of the serializers and deserializers\<close>

lemma encode_at_emit [emit_simps]: "0 \<le> n \<Longrightarrow> encode_at w n = emit (remlen_bytes (nat n)) w"
  using MQTTPacket_encode_emit [of "fst w" "snd w" "nat n"]
  by (auto simp: encode_at_def emit_def)

lemma emit_start: "length bs \<le> length buf \<Longrightarrow> emit bs (buf, 0) = Some (overwrite buf 0 bs, length bs)"
  by (simp add: emit_def)

lemma decodeBuf_prefix:
  assumes "drop p buf = remlen_bytes n @ rest" "n < 268435456"
  shows "MQTTPacket_decodeBuf buf p = Some (int (length (remlen_bytes n)), int n)"
  using bufsrc.decode_remlen [of "(buf, p)" n rest] assms by (auto simp: MQTTPacket_decodeBuf_def)

lemma decodeBuf_bounds:
  "MQTTPacket_decodeBuf buf p = Some (rc, v) \<Longrightarrow> 1 \<le> rc \<and> rc \<le> 5 \<and> 0 \<le> v \<and> v < 268435456"
  by (auto simp: MQTTPacket_decodeBuf_def bind_eq_Some_conv dest!: decode_bounds)

lemma length_packet_bytes:
  "length (packet_bytes h body) = 1 + length (remlen_bytes (length body)) + length body"
  by (simp add: packet_bytes_def)

text \<open>The three steps every deserializer starts with, on a well-formed packet.\<close>

lemma read_header: "readChar (packet_bytes h body @ rest) 0 = Some (h, 1)"
  by (simp add: packet_bytes_def)

lemma read_remlen:
  "length body < 268435456 \<Longrightarrow> MQTTPacket_decodeBuf (packet_bytes h body @ rest) 1 =
     Some (int (length (remlen_bytes (length body))), int (length body))"
  by (rule decodeBuf_prefix [where rest = "body @ rest"]) (simp_all add: packet_bytes_def)

lemma drop_packet:
  "drop (1 + length (remlen_bytes (length body))) (packet_bytes h body @ rest) = body @ rest"
  by (simp add: packet_bytes_def)

text \<open>
  A serializer is given a buffer and its length. When the packet fits it stores exactly the
  packet's bytes at the front of the buffer and returns their number; a checked serializer
  returns \<^verbatim>\<open>MQTTPACKET_BUFFER_TOO_SHORT\<close> and leaves the buffer alone otherwise. \<open>wire\<close> is the
  packet of the MQTT standard, \<open>valid\<close> the arguments the function is meant for, \<open>need\<close> the
  buffer length it asks for.
\<close>

locale serializer =
  fixes wire :: "'a \<Rightarrow> byte list"
    and serialize :: "byte list \<Rightarrow> int \<Rightarrow> 'a \<Rightarrow> (int \<times> byte list) option"
    and valid :: "'a \<Rightarrow> bool" and need :: "'a \<Rightarrow> int"
  assumes need_wire: "valid a \<Longrightarrow> int (length (wire a)) \<le> need a"
    and fits: "valid a \<Longrightarrow> need a \<le> buflen \<Longrightarrow> buflen \<le> int (length buf) \<Longrightarrow>
      serialize buf buflen a = Some (int (length (wire a)), overwrite buf 0 (wire a))"
begin

lemma writes_packet:
  assumes "valid a" "need a \<le> buflen" "buflen \<le> int (length buf)"
  shows "\<exists>rc buf'. serialize buf buflen a = Some (rc, buf') \<and> 0 \<le> rc \<and> rc \<le> buflen \<and>
    length buf' = length buf \<and> take (nat rc) buf' = wire a \<and> drop (nat rc) buf' = drop (nat rc) buf"
proof -
  have "length (wire a) \<le> length buf" using assms need_wire [OF assms(1)] by linarith
  with assms fits [OF assms] need_wire [OF assms(1)] show ?thesis by simp
qed

end

locale checked_serializer = serializer +
  assumes short: "valid a \<Longrightarrow> buflen < need a \<Longrightarrow>
    serialize buf buflen a = Some (MQTTPACKET_BUFFER_TOO_SHORT, buf)"
begin

lemma never_faults:
  assumes "valid a" "buflen \<le> int (length buf)"
  shows "\<exists>rc buf'. serialize buf buflen a = Some (rc, buf') \<and> length buf' = length buf \<and>
    (rc = MQTTPACKET_BUFFER_TOO_SHORT \<and> buf' = buf \<or>
     rc = int (length (wire a)) \<and> rc \<le> buflen \<and> take (nat rc) buf' = wire a \<and>
     drop (nat rc) buf' = drop (nat rc) buf)"
proof (cases "need a \<le> buflen")
  case True
  have "length (wire a) \<le> length buf" using assms True need_wire [OF assms(1)] by linarith
  with fits [OF assms(1) True assms(2)] need_wire [OF assms(1)] True show ?thesis by simp
next
  case False
  with short [OF assms(1)] show ?thesis by simp
qed

end

text \<open>
  A codec pairs a serializer with the deserializer of the same packet: fed with the packet's
  bytes (whatever follows them in the buffer) the deserializer succeeds and its outputs match
  the arguments the packet was made from. \<open>room a out\<close> says that the output parameters can hold
  what the packet carries.
\<close>

locale packet_codec = serializer +
  fixes deserialize :: "'o \<Rightarrow> byte list \<Rightarrow> (int \<times> 'o) option"
    and matches room :: "'a \<Rightarrow> 'o \<Rightarrow> bool"
  assumes parse: "valid a \<Longrightarrow> room a out0 \<Longrightarrow>
    \<exists>out. deserialize out0 (wire a @ rest) = Some (1, out) \<and> matches a out"
begin

lemma roundtrip:
  assumes "valid a" "room a out0" "need a \<le> buflen" "buflen \<le> int (length buf)"
  shows "\<exists>rc buf' out. serialize buf buflen a = Some (rc, buf') \<and>
    deserialize out0 buf' = Some (1, out) \<and> matches a out"
proof -
  have "overwrite buf 0 (wire a) = wire a @ drop (length (wire a)) buf"
    by (simp add: overwrite_def)
  then show ?thesis
    using fits [OF assms(1,3,4)] parse [OF assms(1,2), of "drop (length (wire a)) buf"] by simp
qed

end

subsection \<open>Properties\<close>

text \<open>
  C14. Remaining length round trip. Every length the standard allows is encoded in one to four
  bytes, and \<^verbatim>\<open>MQTTPacket_decodeBuf\<close> reads exactly these bytes and returns the length.
\<close>

theorem remaining_length_roundtrip:
  assumes "0 \<le> n" "n < 268435456" "p + 4 \<le> length buf"
  shows "\<exists>k buf'. MQTTPacket_encode (buf, p) n = Some (k, buf') \<and> 1 \<le> k \<and> k \<le> 4 \<and>
    length buf' = length buf \<and> MQTTPacket_decodeBuf buf' p = Some (k, n)"
proof -
  let ?r = "remlen_bytes (nat n)"
  have len: "1 \<le> length ?r" "length ?r \<le> 4"
    using length_remlen_bytes_bounds [of "nat n"] assms by (simp_all add: Suc_leI)
  then have "MQTTPacket_encode (buf, p) n = Some (int (length ?r), overwrite buf p ?r)"
    using MQTTPacket_encode_emit [of buf p "nat n"] assms by simp
  moreover have "drop p (overwrite buf p ?r) = ?r @ drop (p + length ?r) buf"
    using len assms by (simp add: overwrite_def)
  then have "MQTTPacket_decodeBuf (overwrite buf p ?r) p = Some (int (length ?r), n)"
    using decodeBuf_prefix [of p "overwrite buf p ?r" "nat n"] assms by simp
  moreover have "length (overwrite buf p ?r) = length buf" using len assms by (simp add: overwrite_def)
  ultimately show ?thesis using len by simp
qed

theorem remaining_length_roundtrip_witness:
  "\<exists>k buf'. MQTTPacket_encode (replicate 8 0, 1) 321 = Some (k, buf') \<and> 1 \<le> k \<and> k \<le> 4 \<and>
    length buf' = 8 \<and> MQTTPacket_decodeBuf buf' 1 = Some (k, 321)"
  using remaining_length_roundtrip [of 321 1 "replicate 8 0"] by simp

text \<open>
  C15. \<^verbatim>\<open>MQTTPacket_len\<close>, the buffer size every serializer asks for, is never below the size of the
  packet and above it by at most one byte.
\<close>

theorem packet_len_covers_packet:
  assumes "length body < 268435456"
  shows "int (length (packet_bytes h body)) \<le> MQTTPacket_len (int (length body)) \<and>
    MQTTPacket_len (int (length body)) \<le> int (length (packet_bytes h body)) + 1"
  using MQTTPacket_len_bounds [of "int (length body)"] assms by (simp add: length_packet_bytes)

theorem packet_len_covers_packet_witness:
  "int (length (packet_bytes 48 (replicate 127 0))) \<le> MQTTPacket_len 127 \<and>
    MQTTPacket_len 127 \<le> int (length (packet_bytes 48 (replicate 127 0))) + 1"
  using packet_len_covers_packet [of "replicate 127 0" 48] by simp

text \<open>
  C16. \<^verbatim>\<open>readMQTTLenString\<close> is memory safe on any input: with \<^verbatim>\<open>enddata\<close> inside the buffer it always
  returns, and when it reports success the cursor has moved past a string that lies between the
  old cursor and \<^verbatim>\<open>enddata\<close> and that the \<^verbatim>\<open>MQTTString\<close> denotes.
\<close>

theorem readMQTTLenString_inside:
  assumes "enddata \<le> int (length buf)"
  shows "\<exists>rc m' p'. readMQTTLenString m buf p enddata = Some (rc, m', p') \<and>
    (rc = 0 \<or> rc = 1 \<and> p + 2 \<le> p' \<and> int p' \<le> enddata \<and>
       denotes m' (take (p' - (p + 2)) (drop (p + 2) buf)))"
proof -
  obtain rc m' p' where r: "readMQTTLenString m buf p enddata = Some (rc, m', p')"
    using readMQTTLenString_safe [OF assms] by (metis not_None_eq prod_cases3)
  show ?thesis
  proof (cases "rc = 0")
    case False
    with readMQTTLenString_cases [OF r] have "rc = 1" "p + 2 \<le> p'" "int p' \<le> enddata" "p' - (p + 2) < 65536"
      "m' = m\<lparr>cstring := Null, lenstring := (lenstring m)\<lparr>len := int (p' - (p + 2)), data := Ptr (drop (p + 2) buf)\<rparr>\<rparr>"
      by auto
    moreover from this assms have "p' - (p + 2) \<le> length buf - (p + 2)" by linarith
    ultimately have "denotes m' (take (p' - (p + 2)) (drop (p + 2) buf))"
      unfolding denotes_def by simp
    with \<open>rc = 1\<close> \<open>p + 2 \<le> p'\<close> \<open>int p' \<le> enddata\<close> r show ?thesis by blast
  qed (use r in blast)
qed

theorem readMQTTLenString_inside_witness:
  "\<exists>rc m' p'. readMQTTLenString MQTTString_initializer [0, 2, 65, 66, 9] 0 5 = Some (rc, m', p') \<and>
    (rc = 0 \<or> rc = 1 \<and> 0 + 2 \<le> p' \<and> int p' \<le> 5 \<and> denotes m' (take (p' - (0 + 2)) (drop (0 + 2) [0, 2, 65, 66, 9])))"
  using readMQTTLenString_inside [of 5 "[0, 2, 65, 66, 9]" MQTTString_initializer 0] by simp

end
