(* ===== verification/Packet_Publish.thy ===== *)
theory Packet_Publish
  imports Packet_Core
begin

section \<open>PUBLISH and its acknowledgements (MQTTSerializePublish.c, MQTTDeserializePublish.c)\<close>

text \<open>
  The arguments of \<^verbatim>\<open>MQTTSerialize_publish\<close> and the outputs of \<^verbatim>\<open>MQTTDeserialize_publish\<close> are the
  same seven values. Output parameters of the deserializers are passed in and returned: a
  parameter the function does not assign keeps what it had, possibly an indeterminate value.
\<close>

record publish =
  pub_dup :: byte
  pub_qos :: int
  pub_retained :: byte
  pub_packetid :: u16
  pub_topicName :: MQTTString
  pub_payload :: cptr
  pub_payloadlen :: int

definition MQTTSerialize_publishLength :: "int \<Rightarrow> MQTTString \<Rightarrow> int \<Rightarrow> int option" where
  "MQTTSerialize_publishLength qos topicName payloadlen = do {
     n \<leftarrow> MQTTstrlen topicName;
     let l = to_int (2 + n + payloadlen);
     Some (if qos > 0 then to_int (l + 2) else l)
   }"

definition MQTTSerialize_publish :: "byte list \<Rightarrow> int \<Rightarrow> publish \<Rightarrow> (int \<times> byte list) option" where
  "MQTTSerialize_publish buf buflen a = do {
     rem_len \<leftarrow> MQTTSerialize_publishLength (pub_qos a) (pub_topicName a) (pub_payloadlen a);
     if MQTTPacket_len rem_len > buflen then Some (MQTTPACKET_BUFFER_TOO_SHORT, buf)
     else do {
       w \<leftarrow> writeChar (buf, 0)
              (header_byte (msgType PUBLISH) (pub_dup a) (pub_qos a) (pub_retained a));
       w \<leftarrow> encode_at w rem_len;
       w \<leftarrow> writeMQTTString w (pub_topicName a);
       w \<leftarrow> (if pub_qos a > 0 then writeInt w (uint (pub_packetid a)) else Some w);
       w \<leftarrow> memcpy w (pub_payload a) (pub_payloadlen a);
       Some (int (snd w), fst w)
     }
   }"

definition MQTTSerialize_ack ::
  "byte list \<Rightarrow> int \<Rightarrow> byte \<times> byte \<times> u16 \<Rightarrow> (int \<times> byte list) option" where
  "MQTTSerialize_ack buf buflen = (\<lambda>(packettype, dup, packetid).
     if buflen < 4 then Some (MQTTPACKET_BUFFER_TOO_SHORT, buf)
     else do {
       w \<leftarrow> writeChar (buf, 0)
              (header_byte (uint packettype) dup (if uint packettype = msgType PUBREL then 1 else 0) 0);
       w \<leftarrow> encode_at w 2;
       w \<leftarrow> writeInt w (uint packetid);
       Some (int (snd w), fst w)
     })"

definition MQTTSerialize_puback :: "byte list \<Rightarrow> int \<Rightarrow> u16 \<Rightarrow> (int \<times> byte list) option" where
  "MQTTSerialize_puback buf buflen packetid =
     MQTTSerialize_ack buf buflen (word_of_int (msgType PUBACK), 0, packetid)"

definition MQTTSerialize_pubrel :: "byte list \<Rightarrow> int \<Rightarrow> byte \<Rightarrow> u16 \<Rightarrow> (int \<times> byte list) option" where
  "MQTTSerialize_pubrel buf buflen dup packetid =
     MQTTSerialize_ack buf buflen (word_of_int (msgType PUBREL), dup, packetid)"

definition MQTTSerialize_pubcomp :: "byte list \<Rightarrow> int \<Rightarrow> u16 \<Rightarrow> (int \<times> byte list) option" where
  "MQTTSerialize_pubcomp buf buflen packetid =
     MQTTSerialize_ack buf buflen (word_of_int (msgType PUBCOMP), 0, packetid)"

text \<open>
  Neither deserializer looks at its \<^verbatim>\<open>buflen\<close> argument: the end of the data is computed from the
  remaining length. On the early exits \<^verbatim>\<open>rc\<close> still holds the result of \<^verbatim>\<open>MQTTPacket_decodeBuf\<close>.
\<close>

definition MQTTDeserialize_publish :: "publish \<Rightarrow> byte list \<Rightarrow> (int \<times> publish) option" where
  "MQTTDeserialize_publish out buf = do {
     (header, curdata) \<leftarrow> readChar buf 0;
     if header_type header \<noteq> msgType PUBLISH then Some (0, out)
     else do {
       let out = out\<lparr>pub_dup := header_dup header, pub_qos := header_qos header,
                     pub_retained := header_retain header\<rparr>;
       (rc, mylen) \<leftarrow> MQTTPacket_decodeBuf buf curdata;
       let curdata = curdata + nat rc;
       let enddata = int curdata + mylen;
       (ok, topic, curdata) \<leftarrow> readMQTTLenString (pub_topicName out) buf curdata enddata;
       let out = out\<lparr>pub_topicName := topic\<rparr>;
       if ok = 0 \<or> enddata - int curdata < 0 then Some (rc, out)
       else do {
         (out, curdata) \<leftarrow>
           (if pub_qos out > 0 then do {
              (n, curdata) \<leftarrow> readInt buf curdata;
              Some (out\<lparr>pub_packetid := word_of_int n\<rparr>, curdata)
            } else Some (out, curdata));
         Some (1, out\<lparr>pub_payloadlen := to_int (enddata - int curdata),
                      pub_payload := Ptr (drop curdata buf)\<rparr>)
       }
     }
   }"

definition MQTTDeserialize_ack ::
  "byte \<times> byte \<times> u16 \<Rightarrow> byte list \<Rightarrow> (int \<times> byte \<times> byte \<times> u16) option" where
  "MQTTDeserialize_ack out buf = do {
     (header, curdata) \<leftarrow> readChar buf 0;
     let dup = header_dup header;
     let packettype = word_of_int (header_type header);
     (rc, mylen) \<leftarrow> MQTTPacket_decodeBuf buf curdata;
     let curdata = curdata + nat rc;
     if mylen < 2 then Some (rc, packettype, dup, snd (snd out))
     else do {
       (n, curdata) \<leftarrow> readInt buf curdata;
       Some (1, packettype, dup, word_of_int n)
     }
   }"

subsection \<open>Wire format\<close>

text \<open>The packets of the MQTT 3.1.1 standard, sections 3.3 to 3.7.\<close>

definition publish_body :: "publish \<Rightarrow> byte list" where
  "publish_body a = utf_bytes (mqtt_content (pub_topicName a)) @
     (if pub_qos a > 0 then int_bytes (uint (pub_packetid a)) else []) @
     content (pub_payload a) (nat (pub_payloadlen a))"

definition publish_wire :: "publish \<Rightarrow> byte list" where
  "publish_wire a =
     packet_bytes (header_byte (msgType PUBLISH) (pub_dup a) (pub_qos a) (pub_retained a)) (publish_body a)"

definition publish_valid :: "publish \<Rightarrow> bool" where
  "publish_valid a \<longleftrightarrow>
     denotes (pub_topicName a) (mqtt_content (pub_topicName a)) \<and>
     0 \<le> pub_qos a \<and> pub_qos a \<le> 2 \<and> 0 \<le> pub_payloadlen a \<and>
     bytes_at (pub_payload a) (nat (pub_payloadlen a)) \<noteq> None \<and>
     length (publish_body a) < 268435456"

definition publish_matches :: "publish \<Rightarrow> publish \<Rightarrow> bool" where
  "publish_matches a b \<longleftrightarrow>
     uint (pub_dup b) = uint (pub_dup a) mod 2 \<and> pub_qos b = pub_qos a \<and>
     uint (pub_retained b) = uint (pub_retained a) mod 2 \<and>
     (pub_qos a > 0 \<longrightarrow> pub_packetid b = pub_packetid a) \<and>
     denotes (pub_topicName b) (mqtt_content (pub_topicName a)) \<and>
     cstring (pub_topicName b) = Null \<and> data (lenstring (pub_topicName b)) \<noteq> Wild \<and>
     pub_payloadlen b = pub_payloadlen a \<and>
     bytes_at (pub_payload b) (nat (pub_payloadlen a)) =
       bytes_at (pub_payload a) (nat (pub_payloadlen a))"

definition ack_wire :: "byte \<times> byte \<times> u16 \<Rightarrow> byte list" where
  "ack_wire = (\<lambda>(packettype, dup, packetid).
     packet_bytes
       (header_byte (uint packettype) dup (if uint packettype = msgType PUBREL then 1 else 0) 0)
       (int_bytes (uint packetid)))"

definition ack_valid :: "byte \<times> byte \<times> u16 \<Rightarrow> bool" where
  "ack_valid a \<longleftrightarrow> uint (fst a) < 16"

definition ack_matches :: "byte \<times> byte \<times> u16 \<Rightarrow> byte \<times> byte \<times> u16 \<Rightarrow> bool" where
  "ack_matches = (\<lambda>(t, d, i) (t', d', i'). t' = t \<and> uint d' = uint d mod 2 \<and> i' = i)"

subsection \<open>The serializers store the standard packets\<close>

lemma publishLength_body:
  assumes "publish_valid a"
  shows "MQTTSerialize_publishLength (pub_qos a) (pub_topicName a) (pub_payloadlen a) =
    Some (int (length (publish_body a)))"
proof -
  let ?s = "mqtt_content (pub_topicName a)"
  from assms obtain bs where bs: "bytes_at (pub_payload a) (nat (pub_payloadlen a)) = Some bs"
    and d: "denotes (pub_topicName a) ?s" and pl: "0 \<le> pub_payloadlen a"
    by (auto simp: publish_valid_def)
  have len: "length (publish_body a) =
      length ?s + 2 + (if pub_qos a > 0 then 2 else 0) + nat (pub_payloadlen a)"
    using bs by (simp add: publish_body_def bytes_at_content length_bytes_at)
  moreover have "length (publish_body a) < 268435456" using assms by (simp add: publish_valid_def)
  ultimately show ?thesis using d pl by (auto simp: MQTTSerialize_publishLength_def)
qed

interpretation publish_ser: checked_serializer publish_wire MQTTSerialize_publish publish_valid
  "\<lambda>a. MQTTPacket_len (int (length (publish_body a)))"
proof unfold_locales
  fix a buflen and buf :: "byte list"
  assume v: "publish_valid a"
  then have small: "length (publish_body a) < 268435456" by (simp add: publish_valid_def)
  show need: "int (length (publish_wire a)) \<le> MQTTPacket_len (int (length (publish_body a)))"
    using MQTTPacket_len_bounds(1) [of "int (length (publish_body a))"] small
    by (simp add: publish_wire_def length_packet_bytes)
  show "buflen < MQTTPacket_len (int (length (publish_body a))) \<Longrightarrow>
      MQTTSerialize_publish buf buflen a = Some (MQTTPACKET_BUFFER_TOO_SHORT, buf)"
    by (simp add: MQTTSerialize_publish_def publishLength_body [OF v])
  assume fit: "MQTTPacket_len (int (length (publish_body a))) \<le> buflen" "buflen \<le> int (length buf)"
  from v obtain bs where bs: "bytes_at (pub_payload a) (nat (pub_payloadlen a)) = Some bs"
    and d: "denotes (pub_topicName a) (mqtt_content (pub_topicName a))" and pl: "0 \<le> pub_payloadlen a"
    by (auto simp: publish_valid_def)
  have le: "length (publish_wire a) \<le> length buf" using need fit by linarith
  have "MQTTSerialize_publish buf buflen a =
      emit (publish_wire a) (buf, 0) \<bind> (\<lambda>w. Some (int (snd w), fst w))"
    using fit
    by (cases "pub_qos a > 0")
      (simp_all add: MQTTSerialize_publish_def publishLength_body [OF v] emit_simps
        writeMQTTString_emit [OF d] memcpy_bytes [OF bs pl] publish_wire_def packet_bytes_def,
       simp_all add: publish_body_def bytes_at_content [OF bs])
  then show "MQTTSerialize_publish buf buflen a =
      Some (int (length (publish_wire a)), overwrite buf 0 (publish_wire a))"
    using le by (simp add: emit_start)
qed

lemma length_ack_wire [simp]: "length (ack_wire a) = 4"
  by (cases a) (simp add: ack_wire_def length_packet_bytes)

interpretation ack_ser: checked_serializer ack_wire MQTTSerialize_ack ack_valid "\<lambda>_. 4"
proof unfold_locales
  fix a :: "byte \<times> byte \<times> u16" and buflen and buf :: "byte list"
  obtain t d i where a: "a = (t, d, i)" by (cases a)
  show "int (length (ack_wire a)) \<le> 4" by simp
  show "buflen < 4 \<Longrightarrow> MQTTSerialize_ack buf buflen a = Some (MQTTPACKET_BUFFER_TOO_SHORT, buf)"
    by (simp add: MQTTSerialize_ack_def a)
  assume "4 \<le> buflen" "buflen \<le> int (length buf)"
  moreover from this have "MQTTSerialize_ack buf buflen a =
      emit (ack_wire a) (buf, 0) \<bind> (\<lambda>w. Some (int (snd w), fst w))"
    by (simp add: MQTTSerialize_ack_def a emit_simps ack_wire_def packet_bytes_def)
  ultimately show "MQTTSerialize_ack buf buflen a =
      Some (int (length (ack_wire a)), overwrite buf 0 (ack_wire a))"
    by (simp add: emit_start)
qed

text \<open>
  The deserializers, run on a buffer through the facts their reads establish one after another.
\<close>

interpretation ack_codec: packet_codec ack_wire MQTTSerialize_ack ack_valid "\<lambda>_. 4"
  MQTTDeserialize_ack ack_matches "\<lambda>_ _. True"
proof unfold_locales
  fix a out0 :: "byte \<times> byte \<times> u16" and rest
  assume v: "ack_valid a"
  obtain t d i where a: "a = (t, d, i)" by (cases a)
  define h where "h = header_byte (uint t) d (if uint t = msgType PUBREL then 1 else 0) 0"
  define buf where "buf = packet_bytes h (int_bytes (uint i)) @ rest"
  have h: "header_type h = uint t" "header_dup h = word_of_int (uint d mod 2)"
    using v by (simp_all add: h_def ack_valid_def a)
  have "readChar buf 0 = Some (h, 1)" "MQTTPacket_decodeBuf buf 1 = Some (1, 2)"
    using read_remlen [of "int_bytes (uint i)" h rest] by (simp_all add: buf_def read_header)
  moreover have "readInt buf 2 = Some (uint i, 4)"
    using drop_packet [of "int_bytes (uint i)" h rest]
      readInt_prefix [of 2 buf "uint i" rest] by (simp add: buf_def u16_bounds numeral_2_eq_2)
  ultimately have "MQTTDeserialize_ack out0 buf = Some (1, t, word_of_int (uint d mod 2), i)"
    by (simp add: MQTTDeserialize_ack_def h numeral_2_eq_2)
  then show "\<exists>out. MQTTDeserialize_ack out0 (ack_wire a @ rest) = Some (1, out) \<and> ack_matches a out"
    by (simp add: a ack_wire_def ack_matches_def buf_def h_def)
qed

lemma publish_parse:
  assumes v: "publish_valid a"
  shows "\<exists>out. MQTTDeserialize_publish out0 (publish_wire a @ rest) = Some (1, out) \<and>
    publish_matches a out"
proof -
  define h where "h = header_byte (msgType PUBLISH) (pub_dup a) (pub_qos a) (pub_retained a)"
  define s where "s = mqtt_content (pub_topicName a)"
  define i where "i = (if pub_qos a > 0 then int_bytes (uint (pub_packetid a)) else [])"
  define r where "r = length (remlen_bytes (length (publish_body a)))"
  define p where "p = 1 + r"
  define buf where "buf = publish_wire a @ rest"
  from v obtain bs where bs: "bytes_at (pub_payload a) (nat (pub_payloadlen a)) = Some bs"
    and d: "denotes (pub_topicName a) s" and pl: "0 \<le> pub_payloadlen a"
    and small: "length (publish_body a) < 268435456" and q: "0 \<le> pub_qos a" "pub_qos a \<le> 2"
    by (auto simp: publish_valid_def s_def)
  have h: "header_type h = 3" "header_qos h = pub_qos a"
    "header_dup h = word_of_int (uint (pub_dup a) mod 2)"
    "header_retain h = word_of_int (uint (pub_retained a) mod 2)"
    using q by (simp_all add: h_def)
  have body: "publish_body a = utf_bytes s @ i @ bs"
    by (simp add: publish_body_def bytes_at_content [OF bs] s_def i_def)
  have lbs: "int (length bs) = pub_payloadlen a" using length_bytes_at [OF bs] pl by simp
  have hd: "readChar buf 0 = Some (h, 1)"
    and rl: "MQTTPacket_decodeBuf buf 1 = Some (int r, int (length (publish_body a)))"
    using read_remlen [OF small, of h rest]
    by (simp_all add: buf_def publish_wire_def read_header h_def r_def)
  have at_topic: "drop p buf = utf_bytes s @ i @ bs @ rest"
    using drop_packet [of "publish_body a" h rest] by (simp add: buf_def publish_wire_def h_def p_def r_def body)
  have at_id: "drop (p + 2 + length s) buf = i @ bs @ rest"
    using drop_append_skip [OF at_topic] by (simp add: add.assoc)
  have at_payload: "drop (p + 2 + length s + length i) buf = bs @ rest"
    using drop_append_skip [OF at_id] by simp
  define topic where "topic m = m\<lparr>cstring := Null, lenstring :=
    (lenstring m)\<lparr>len := int (length s), data := Ptr (s @ i @ bs @ rest)\<rparr>\<rparr>" for m :: MQTTString
  have topic: "readMQTTLenString m buf p (int p + int (length (publish_body a))) =
      Some (1, topic m, p + 2 + length s)" for m
    unfolding topic_def using d
    by (intro readMQTTLenString_utf [OF at_topic]) (simp_all add: denotes_def body)
  have dt: "denotes (topic m) s" "cstring (topic m) = Null" "data (lenstring (topic m)) \<noteq> Wild" for m
    using d by (auto simp: topic_def denotes_def)
  have p: "1 + nat (int r) = p" "1 + r = p" "1 + int r = int p" by (simp_all add: p_def)
  have e: "int p + int (length (publish_body a)) - int (p + 2 + length s + length i) = pub_payloadlen a"
    "0 \<le> int p + int (length (publish_body a)) - int (p + 2 + length s)"
    by (simp_all add: body flip: lbs)
  have small': "pub_payloadlen a < 268435456" using small lbs by (simp add: body)
  define out where "out = out0\<lparr>pub_dup := word_of_int (uint (pub_dup a) mod 2), pub_qos := pub_qos a,
    pub_retained := word_of_int (uint (pub_retained a) mod 2), pub_topicName := topic (pub_topicName out0),
    pub_packetid := (if pub_qos a > 0 then pub_packetid a else pub_packetid out0),
    pub_payloadlen := pub_payloadlen a, pub_payload := Ptr (bs @ rest)\<rparr>"
  have rd: "pub_qos a > 0 \<Longrightarrow> readInt buf (p + 2 + length s) = Some (uint (pub_packetid a), p + 2 + length s + length i)"
    using readInt_prefix [of "p + 2 + length s" buf "uint (pub_packetid a)" "bs @ rest"] at_id
    by (simp add: i_def u16_bounds)
  have i0: "\<not> pub_qos a > 0 \<Longrightarrow> length i = 0" by (simp add: i_def)
  have "MQTTDeserialize_publish out0 buf = Some (1, out)"
    unfolding MQTTDeserialize_publish_def 
    using e rd small' pl i0 at_payload
    by (auto simp: hd rl h Let_def p topic out_def simp del: One_nat_def)
  moreover have "publish_matches a out"
    using d dt bs pl length_bytes_at [OF bs] by (simp add: publish_matches_def out_def s_def)
  ultimately show ?thesis by (auto simp: buf_def)
qed

interpretation publish_codec: packet_codec publish_wire MQTTSerialize_publish publish_valid
  "\<lambda>a. MQTTPacket_len (int (length (publish_body a)))" MQTTDeserialize_publish publish_matches "\<lambda>_ _. True"
  by unfold_locales (rule publish_parse)

subsection \<open>Packets the serializers do not produce\<close>

text \<open>The first steps of \<^verbatim>\<open>MQTTDeserialize_publish\<close> on a complete packet with an arbitrary body.\<close>

definition publish_start :: "publish \<Rightarrow> byte \<Rightarrow> publish" where
  "publish_start out h = out\<lparr>pub_dup := header_dup h, pub_qos := header_qos h, pub_retained := header_retain h\<rparr>"

lemma deserialize_publish_start:
  fixes body rest :: "byte list"
  assumes "length body < 268435456" "header_type h = msgType PUBLISH"
  defines "r \<equiv> length (remlen_bytes (length body))"
  defines "buf \<equiv> packet_bytes h body @ rest"
  shows "MQTTDeserialize_publish out buf = do {
      (ok, topic, cur) \<leftarrow> readMQTTLenString (pub_topicName out) buf (1 + r) (int (1 + r + length body));
      let out = (publish_start out h)\<lparr>pub_topicName := topic\<rparr>;
      if ok = 0 then Some (int r, out)
      else if header_qos h > 0 then do {
        (n, cur) \<leftarrow> readInt buf cur;
        Some (1, out\<lparr>pub_packetid := word_of_int n,
          pub_payloadlen := to_int (int (1 + r + length body) - int cur), pub_payload := Ptr (drop cur buf)\<rparr>)
      }
      else Some (1, out\<lparr>pub_payloadlen := to_int (int (1 + r + length body) - int cur),
          pub_payload := Ptr (drop cur buf)\<rparr>)
    }"
proof -
  let ?read = "readMQTTLenString (pub_topicName out) buf (1 + r) (int (1 + r + length body))"
  have start: "readChar buf 0 = Some (h, 1)" "MQTTPacket_decodeBuf buf 1 = Some (int r, int (length body))"
    using read_remlen [OF assms(1), of h rest] by (simp_all add: buf_def r_def read_header)
  show ?thesis
  proof (cases ?read)
    case None
    with start assms(2) show ?thesis
      by (simp add: MQTTDeserialize_publish_def Let_def add.assoc del: One_nat_def)
  next
    case (Some res)
    obtain ok topic cur where res: "res = (ok, topic, cur)" by (cases res)
    with Some have "ok = 0 \<or> 0 \<le> int (1 + r + length body) - int cur"
      using readMQTTLenString_cases [of _ buf _ _ ok topic cur] by fastforce
    with start assms(2) Some res show ?thesis
      by (auto simp: MQTTDeserialize_publish_def publish_start_def Let_def add.assoc
          simp del: One_nat_def split: bind_split)
  qed
qed

lemma publish_topic_fails:
  assumes "length body < 2 \<or> int (length body) < 2 + 256 * uint (body ! 0) + uint (body ! 1)"
  shows "\<exists>topic cur. readMQTTLenString m (packet_bytes h body @ rest)
      (1 + length (remlen_bytes (length body))) (int (1 + length (remlen_bytes (length body)) + length body)) =
     Some (0, topic, cur)"
proof -
  let ?p = "1 + length (remlen_bytes (length body))" and ?buf = "packet_bytes h body @ rest"
  have at: "drop ?p ?buf = body @ rest" by (rule drop_packet)
  have nth: "?buf ! (?p + k) = body ! k" if "k < length body" for k
    using that arg_cong [OF at, of "\<lambda>xs. xs ! k"] by (simp add: length_packet_bytes nth_append)
  show ?thesis
  proof (cases "length body < 2")
    case True
    then show ?thesis by (simp add: readMQTTLenString_def)
  next
    case False
    then have "body \<noteq> []" by auto
    with False have "readInt ?buf ?p = Some (256 * uint (body ! 0) + uint (body ! 1), ?p + 2)"
      using nth [of 0] nth [of 1] by (subst readInt_nth) (auto simp: length_packet_bytes)
    with False assms show ?thesis by (simp add: readMQTTLenString_def Let_def)
  qed
qed

lemma publish_truncated_id:
  assumes "header_type h = msgType PUBLISH" "header_qos h > 0" "length s \<le> 65535" "2 \<le> length rest"
  shows "\<exists>out'. MQTTDeserialize_publish out (packet_bytes h (utf_bytes s) @ rest) = Some (1, out') \<and>
    pub_payloadlen out' = - 2 \<and> pub_payload out' = Ptr (drop 2 rest) \<and> denotes (pub_topicName out') s \<and>
    cstring (pub_topicName out') = Null \<and> data (lenstring (pub_topicName out')) \<noteq> Wild"
proof -
  let ?body = "utf_bytes s" let ?p = "1 + length (remlen_bytes (length ?body))"
  let ?buf = "packet_bytes h ?body @ rest"
  define topic where "topic = (pub_topicName out)\<lparr>cstring := Null, lenstring :=
    (lenstring (pub_topicName out))\<lparr>len := int (length s), data := Ptr (s @ rest)\<rparr>\<rparr>"
  have body: "drop ?p ?buf = utf_bytes s @ rest"
    using drop_packet [of ?body h rest] by simp
  then have "readMQTTLenString (pub_topicName out) ?buf ?p (int (?p + length ?body)) =
      Some (1, topic, ?p + 2 + length s)"
    unfolding topic_def using assms(3) by (intro readMQTTLenString_utf) simp_all
  moreover have "readInt ?buf (?p + 2 + length s) =
      Some (256 * uint (?buf ! (?p + 2 + length s)) + uint (?buf ! (?p + 2 + length s + 1)), ?p + 2 + length s + 2)"
    using assms(4) by (intro readInt_nth) (simp add: length_packet_bytes)
  moreover have "drop (?p + 2 + length s + 2) ?buf = drop 2 rest"
    by (simp add: length_packet_bytes eval_nat_numeral)
  moreover have "denotes topic s" "cstring topic = Null" "data (lenstring topic) \<noteq> Wild"
    using assms(3) by (simp_all add: topic_def denotes_def)
  ultimately show ?thesis
    using deserialize_publish_start [of ?body h out rest] assms by simp
qed

lemma publish_deserialize_safe:
  assumes "length body < 268435456" "header_qos h = 0 \<or> 2 \<le> length rest"
  shows "MQTTDeserialize_publish out (packet_bytes h body @ rest) \<noteq> None"
proof (cases "header_type h = msgType PUBLISH")
  case True
  let ?buf = "packet_bytes h body @ rest"
  let ?p = "1 + length (remlen_bytes (length body))"
  have "int (?p + length body) \<le> int (length ?buf)" by (simp add: length_packet_bytes)
  then obtain ok topic cur where
    t: "readMQTTLenString (pub_topicName out) ?buf ?p (int (?p + length body)) = Some (ok, topic, cur)"
    using readMQTTLenString_safe by (metis not_None_eq prod_cases3)
  have "readInt ?buf cur \<noteq> None" if "ok \<noteq> 0" "header_qos h \<noteq> 0"
    using readMQTTLenString_cases [OF t] that assms(2)
    by (subst readInt_nth) (auto simp: length_packet_bytes)
  moreover have "\<not> header_qos h > 0 \<Longrightarrow> header_qos h = 0"
    by (simp add: header_qos_def)
  ultimately show ?thesis
    using t deserialize_publish_start [OF assms(1) True, of out rest]
    by (auto simp: Let_def split: prod.splits)
next
  case False
  then show ?thesis by (simp add: MQTTDeserialize_publish_def read_header)
qed

subsection \<open>Arbitrary bodies\<close>

text \<open>
  The topic of a body as the standard reads it: two bytes give its length. \<open>topic_fits\<close> says that
  the body is long enough for it.
\<close>

definition topic_len :: "byte list \<Rightarrow> nat" where
  "topic_len body = 256 * unat (body ! 0) + unat (body ! 1)"

definition topic_fits :: "byte list \<Rightarrow> bool" where
  "topic_fits body \<longleftrightarrow> 2 \<le> length body \<and> 2 + topic_len body \<le> length body"

definition topic_bytes :: "byte list \<Rightarrow> byte list" where
  "topic_bytes body = take (topic_len body) (drop 2 body)"

text \<open>The bytes of a packet identifier, which only packets with QoS 1 and 2 have.\<close>

definition id_len :: "byte \<Rightarrow> nat" where
  "id_len h = (if header_qos h > 0 then 2 else 0)"

lemma int_bytes_pair: "int_bytes (256 * uint a + uint b) = [a, b]"
  using uint_byte_lt [of b] by (simp add: int_bytes_def)

lemma two_bytes:
  assumes "2 \<le> length (bs :: byte list)"
  obtains n where "bs = int_bytes n @ drop 2 bs" "n = 256 * uint (bs ! 0) + uint (bs ! 1)" "0 \<le> n" "n < 65536"
proof -
  have "bs = bs ! 0 # bs ! 1 # drop 2 bs"
    using assms by (metis Cons_nth_drop_Suc One_nat_def Suc_1 drop0 less_2_cases_iff order.strict_trans2)
  then show thesis
    using uint_byte_lt [of "bs ! 0"] uint_byte_lt [of "bs ! 1"]
    by (intro that [of "256 * uint (bs ! 0) + uint (bs ! 1)"]) (simp_all only: int_bytes_pair append.simps, simp_all)
qed

lemma body_topic:
  assumes "topic_fits body"
  shows "body = utf_bytes (topic_bytes body) @ drop (2 + topic_len body) body" "length (topic_bytes body) = topic_len body"
    "topic_len body \<le> 65535"
proof -
  have "2 \<le> length body"
    using assms by (simp add: topic_fits_def)
  then obtain n where n: "body = int_bytes n @ drop 2 body" "n = 256 * uint (body ! 0) + uint (body ! 1)" "n < 65536"
    by (rule two_bytes)
  then have len: "n = int (topic_len body)"
    by (simp add: topic_len_def)
  show l: "length (topic_bytes body) = topic_len body"
    using assms by (simp add: topic_bytes_def topic_fits_def min_def; linarith)
  have "drop 2 body = topic_bytes body @ drop (2 + topic_len body) body"
    using append_take_drop_id [of "topic_len body" "drop 2 body"] by (simp add: topic_bytes_def add.commute)
  then have "utf_bytes (topic_bytes body) @ drop (2 + topic_len body) body = int_bytes n @ drop 2 body"
    by (simp add: utf_bytes_def l len)
  with n(1) show "body = utf_bytes (topic_bytes body) @ drop (2 + topic_len body) body"
    by (rule trans [OF _ sym])
  show "topic_len body \<le> 65535"
    using n(3) len by simp
qed

lemma publish_topic_read:
  assumes "length body < 268435456" "header_type h = msgType PUBLISH" "topic_fits body"
    and "2 + topic_len body + id_len h \<le> length body"
  shows "\<exists>out'. MQTTDeserialize_publish out (packet_bytes h body @ rest) = Some (1, out') \<and>
    denotes (pub_topicName out') (topic_bytes body) \<and>
    (header_qos h > 0 \<longrightarrow> int_bytes (uint (pub_packetid out')) = take 2 (drop (2 + topic_len body) body)) \<and>
    pub_payload out' = Ptr (drop (2 + topic_len body + id_len h) body @ rest) \<and>
    pub_payloadlen out' = int (length body) - int (2 + topic_len body + id_len h)"
proof -
  let ?s = "topic_bytes body" let ?t = "drop (2 + topic_len body) body"
  define p where "p = 1 + length (remlen_bytes (length body))"
  define buf where "buf = packet_bytes h body @ rest"
  define k where "k = p + 2 + length ?s"
  define topic where "topic = (pub_topicName out)\<lparr>cstring := Null, lenstring :=
    (lenstring (pub_topicName out))\<lparr>len := int (length ?s), data := Ptr (?s @ ?t @ rest)\<rparr>\<rparr>"
  note b = body_topic [OF assms(3)]
  have "drop p buf = (utf_bytes ?s @ ?t) @ rest"
    using drop_packet [of body h rest] unfolding b(1) [symmetric] p_def buf_def .
  then have at: "drop p buf = utf_bytes ?s @ ?t @ rest"
    by simp
  have read: "readMQTTLenString (pub_topicName out) buf p (int (p + length body)) = Some (1, topic, k)"
    unfolding topic_def k_def using b(2,3) assms(4) by (intro readMQTTLenString_utf [OF at]) simp_all
  have at_id: "drop k buf = ?t @ rest"
    using drop_append_skip [OF at] by (simp add: k_def add.assoc)
  have dt: "denotes topic ?s"
    using b(2,3) by (simp add: topic_def denotes_def)
  have len: "to_int (int (p + length body) - int (k + id_len h)) = int (length body) - int (2 + topic_len body + id_len h)"
    using assms(1,4) by (simp add: k_def b(2))
  note start = deserialize_publish_start [OF assms(1,2), of out rest, folded buf_def p_def, unfolded read]
  show ?thesis
  proof (cases "header_qos h > 0")
    case False
    then show ?thesis
      using dt at_id len unfolding buf_def [symmetric] start by (simp add: id_len_def)
  next
    case True
    with assms(4) have l: "2 \<le> length ?t"
      by (simp add: id_len_def)
    then obtain n where n: "?t = int_bytes n @ drop 2 ?t" "0 \<le> n" "n < 65536"
      by (rule two_bytes)
    have at_n: "drop k buf = int_bytes n @ drop 2 ?t @ rest"
      using trans [OF at_id arg_cong [OF n(1), of "\<lambda>t. t @ rest"]] by simp
    then have "readInt buf k = Some (n, k + 2)"
      using n(2,3) by (rule readInt_prefix)
    moreover have "drop (k + 2) buf = drop (2 + topic_len body + 2) body @ rest"
      using drop_append_skip [OF at_n] by (simp add: int_bytes_def add.commute)
    moreover have "take 2 ?t = int_bytes n"
      using arg_cong [OF n(1), of "take 2"] by (simp add: int_bytes_def)
    moreover have "uint (word_of_int n :: u16) = n"
      using n(2,3) by (simp add: uint_word_of_int)
    ultimately show ?thesis
      using True dt len unfolding buf_def [symmetric] start by (simp add: id_len_def)
  qed
qed

lemma publish_topic_unread:
  assumes "length body < 268435456" "header_type h = msgType PUBLISH" "\<not> topic_fits body"
  shows "\<exists>topic. MQTTDeserialize_publish out (packet_bytes h body @ rest) =
    Some (int (length (remlen_bytes (length body))), (publish_start out h)\<lparr>pub_topicName := topic\<rparr>)"
proof -
  have "int (topic_len body) = 256 * uint (body ! 0) + uint (body ! 1)"
    by (simp add: topic_len_def)
  then have "length body < 2 \<or> int (length body) < 2 + 256 * uint (body ! 0) + uint (body ! 1)"
    using assms(3) unfolding topic_fits_def by linarith
  from publish_topic_fails [OF this, of "pub_topicName out" h rest]
  show ?thesis
    unfolding deserialize_publish_start [OF assms(1,2), of out rest] by (auto simp del: One_nat_def)
qed

subsection \<open>Properties\<close>

text \<open>
  C17. PUBLISH round trip. For a well formed topic and a readable payload
  \<^verbatim>\<open>MQTTSerialize_publish\<close> writes a packet that \<^verbatim>\<open>MQTTDeserialize_publish\<close> reads back with the same
  flags, quality of service, packet identifier, topic and payload, whatever the output
  parameters held before.
\<close>

theorem publish_roundtrip:
  assumes "publish_valid a" "MQTTPacket_len (int (length (publish_body a))) \<le> buflen" "buflen \<le> int (length buf)"
  shows "\<exists>rc buf' out. MQTTSerialize_publish buf buflen a = Some (rc, buf') \<and>
    MQTTDeserialize_publish out0 buf' = Some (1, out) \<and> publish_matches a out"
  using assms(1) TrueI assms(2,3) by (rule publish_codec.roundtrip)

text \<open>The message \<open>example_publish\<close> has quality of service 1, topic \<open>AB\<close> and a payload of three bytes.\<close>

definition example_publish :: publish where
  "example_publish = \<lparr>pub_dup = 0, pub_qos = 1, pub_retained = 0, pub_packetid = 7,
     pub_topicName = \<lparr>cstring = Ptr [65, 66, 0], lenstring = \<lparr>len = 0, data = Null\<rparr>\<rparr>,
     pub_payload = Ptr [1, 2, 3], pub_payloadlen = 3\<rparr>"

lemma example_publish_valid: "publish_valid example_publish" "length (publish_body example_publish) = 9"
  by (simp_all add: publish_valid_def example_publish_def publish_body_def mqtt_content_def denotes_def
      cstring_of_def)

theorem publish_roundtrip_witness:
  "\<exists>rc buf' out. MQTTSerialize_publish (replicate 16 0) 16 example_publish = Some (rc, buf') \<and>
    MQTTDeserialize_publish example_publish buf' = Some (1, out) \<and> publish_matches example_publish out"
  by (rule publish_roundtrip) (simp_all add: example_publish_valid MQTTPacket_len_def)

text \<open>
  C18. \<^verbatim>\<open>MQTTSerialize_publish\<close> never writes outside its buffer: it either reports
  \<^verbatim>\<open>MQTTPACKET_BUFFER_TOO_SHORT\<close> and leaves the buffer as it was, or stores exactly the packet of
  the standard at its front, returns the packet's length and changes no byte behind it.
\<close>

theorem publish_serialize_safe:
  assumes "publish_valid a" "buflen \<le> int (length buf)"
  shows "\<exists>rc buf'. MQTTSerialize_publish buf buflen a = Some (rc, buf') \<and> length buf' = length buf \<and>
    (rc = MQTTPACKET_BUFFER_TOO_SHORT \<and> buf' = buf \<or>
     rc = int (length (publish_wire a)) \<and> rc \<le> buflen \<and> take (nat rc) buf' = publish_wire a \<and>
     drop (nat rc) buf' = drop (nat rc) buf)"
  using assms by (rule publish_ser.never_faults)

theorem publish_serialize_safe_witness:
  "\<exists>rc buf'. MQTTSerialize_publish (replicate 16 0) 16 example_publish = Some (rc, buf') \<and>
    length buf' = length (replicate 16 (0 :: byte)) \<and>
    (rc = MQTTPACKET_BUFFER_TOO_SHORT \<and> buf' = replicate 16 0 \<or>
     rc = int (length (publish_wire example_publish)) \<and> rc \<le> 16 \<and>
     take (nat rc) buf' = publish_wire example_publish \<and> drop (nat rc) buf' = drop (nat rc) (replicate 16 0))"
  by (rule publish_serialize_safe) (simp_all add: example_publish_valid)

text \<open>
  C19. A PUBLISH packet with an arbitrary body. If the body has room for its topic and, with QoS above
  0, for the packet identifier, the parser returns 1 with the topic, the identifier and as payload
  the rest of the body, up to the last byte of the packet. If the topic is longer than the body the
  payload and its length are left unset, and the result is the number of bytes of the remaining
  length: a body shorter than 128 bytes is thus reported as success.
\<close>

theorem publish_payload_in_packet:
  assumes "length body < 268435456" "header_type h = msgType PUBLISH"
  shows "(topic_fits body \<and> 2 + topic_len body + id_len h \<le> length body \<longrightarrow>
      (\<exists>out'. MQTTDeserialize_publish out (packet_bytes h body @ rest) = Some (1, out') \<and>
        denotes (pub_topicName out') (topic_bytes body) \<and>
        (header_qos h > 0 \<longrightarrow> int_bytes (uint (pub_packetid out')) = take 2 (drop (2 + topic_len body) body)) \<and>
        pub_payload out' = Ptr (drop (2 + topic_len body + id_len h) body @ rest) \<and>
        pub_payloadlen out' = int (length body) - int (2 + topic_len body + id_len h))) \<and>
    (\<not> topic_fits body \<longrightarrow>
      (\<exists>out'. MQTTDeserialize_publish out (packet_bytes h body @ rest) =
          Some (int (length (remlen_bytes (length body))), out') \<and>
        pub_payload out' = pub_payload out \<and> pub_payloadlen out' = pub_payloadlen out))"
proof (intro conjI impI)
  assume "\<not> topic_fits body"
  from publish_topic_unread [OF assms this, of out rest]
  show "\<exists>out'. MQTTDeserialize_publish out (packet_bytes h body @ rest) =
      Some (int (length (remlen_bytes (length body))), out') \<and>
    pub_payload out' = pub_payload out \<and> pub_payloadlen out' = pub_payloadlen out"
    by (auto simp: publish_start_def)
next
  assume a: "topic_fits body \<and> 2 + topic_len body + id_len h \<le> length body"
  show "\<exists>out'. MQTTDeserialize_publish out (packet_bytes h body @ rest) = Some (1, out') \<and>
        denotes (pub_topicName out') (topic_bytes body) \<and>
        (header_qos h > 0 \<longrightarrow> int_bytes (uint (pub_packetid out')) = take 2 (drop (2 + topic_len body) body)) \<and>
        pub_payload out' = Ptr (drop (2 + topic_len body + id_len h) body @ rest) \<and>
        pub_payloadlen out' = int (length body) - int (2 + topic_len body + id_len h)"
    using a by (intro publish_topic_read [OF assms]) simp_all
qed

text \<open>A packet whose topic is cut off, and one with topic \<open>A\<close> and payload \<open>9\<close>.\<close>

theorem publish_payload_in_packet_witness:
  "(\<exists>out'. MQTTDeserialize_publish example_publish (packet_bytes 48 [0, 1, 65, 9] @ [0]) = Some (1, out') \<and>
     denotes (pub_topicName out') [65] \<and> pub_payload out' = Ptr [9, 0] \<and> pub_payloadlen out' = 1) \<and>
   (\<exists>out'. MQTTDeserialize_publish example_publish (packet_bytes 48 [0, 9, 65] @ [0]) = Some (1, out') \<and>
     pub_payload out' = pub_payload example_publish \<and> pub_payloadlen out' = pub_payloadlen example_publish)"
  using publish_payload_in_packet [of "[0, 1, 65, 9]" 48 example_publish "[0]"]
    publish_payload_in_packet [of "[0, 9, 65]" 48 example_publish "[0]"]
  by (simp add: header_type_def header_qos_def id_len_def topic_fits_def topic_len_def topic_bytes_def remlen_bytes.simps)

text \<open>
  C20. A PUBLISH packet with QoS above 0 whose body ends after the topic, so that the packet
  identifier is missing, is accepted: the identifier is read from behind the packet and the
  payload length becomes \<open>-2\<close>.
\<close>

theorem publish_missing_id_accepted:
  assumes "header_type h = msgType PUBLISH" "header_qos h > 0" "length s \<le> 65535" "2 \<le> length rest"
  shows "\<exists>out'. MQTTDeserialize_publish out (packet_bytes h (utf_bytes s) @ rest) = Some (1, out') \<and>
    pub_payloadlen out' = - 2"
  using publish_truncated_id [OF assms] by blast

theorem publish_missing_id_accepted_witness:
  "\<exists>out'. MQTTDeserialize_publish example_publish (packet_bytes 50 (utf_bytes [65]) @ [0, 0]) = Some (1, out') \<and>
    pub_payloadlen out' = - 2"
  by (rule publish_missing_id_accepted) (simp_all add: header_type_def header_qos_def)

text \<open>
  C21. Acknowledgement round trip: PUBACK, PUBREC, PUBREL, PUBCOMP and every other packet of that
  form that \<^verbatim>\<open>MQTTSerialize_ack\<close> writes is read back by \<^verbatim>\<open>MQTTDeserialize_ack\<close> with its type, dup
  flag and packet identifier.
\<close>

theorem ack_roundtrip:
  assumes "ack_valid a" "4 \<le> buflen" "buflen \<le> int (length buf)"
  shows "\<exists>rc buf' out. MQTTSerialize_ack buf buflen a = Some (rc, buf') \<and>
    MQTTDeserialize_ack out0 buf' = Some (1, out) \<and> ack_matches a out"
  using assms(1) TrueI assms(2,3) by (rule ack_codec.roundtrip)

theorem ack_roundtrip_witness:
  "\<exists>rc buf' out. MQTTSerialize_ack (replicate 4 0) 4 (6, 0, 513) = Some (rc, buf') \<and>
    MQTTDeserialize_ack (0, 0, 0) buf' = Some (1, out) \<and> ack_matches (6, 0, 513) out"
  by (rule ack_roundtrip) (simp_all add: ack_valid_def)

end
