(* ===== verification/Packet_Connect.thy ===== *)
theory Packet_Connect
  imports Packet_Core
begin

section \<open>CONNECT, CONNACK and the empty packets (MQTTConnect.h, MQTTConnectClient.c, MQTTConnectServer.c)\<close>

text \<open>
  The connect options, the flag byte as a union of bit fields, the client's serializers for
  CONNECT, DISCONNECT and PINGREQ and its CONNACK deserializer, and the server's counterparts.
\<close>

datatype connack_return_codes =
    MQTT_CONNECTION_ACCEPTED | MQTT_UNNACCEPTABLE_PROTOCOL | MQTT_CLIENTID_REJECTED
  | MQTT_SERVER_UNAVAILABLE | MQTT_BAD_USERNAME_OR_PASSWORD | MQTT_NOT_AUTHORIZED

fun connack_code :: "connack_return_codes \<Rightarrow> byte" where
  "connack_code MQTT_CONNECTION_ACCEPTED = 0"
| "connack_code MQTT_UNNACCEPTABLE_PROTOCOL = 1"
| "connack_code MQTT_CLIENTID_REJECTED = 2"
| "connack_code MQTT_SERVER_UNAVAILABLE = 3"
| "connack_code MQTT_BAD_USERNAME_OR_PASSWORD = 4"
| "connack_code MQTT_NOT_AUTHORIZED = 5"

record MQTTPacket_willOptions =
  will_struct_id :: "byte list"
  will_struct_version :: int
  will_topicName :: MQTTString
  will_message :: MQTTString
  will_retained :: byte
  will_qos :: byte

definition MQTTPacket_willOptions_initializer :: MQTTPacket_willOptions where
  "MQTTPacket_willOptions_initializer =
     \<lparr>will_struct_id = map of_char ''MQTW'', will_struct_version = 0,
      will_topicName = MQTTString_initializer, will_message = MQTTString_initializer,
      will_retained = 0, will_qos = 0\<rparr>"

record MQTTPacket_connectData =
  cd_struct_id :: "byte list"
  cd_struct_version :: int
  cd_MQTTVersion :: byte
  cd_clientID :: MQTTString
  cd_keepAliveInterval :: u16
  cd_cleansession :: byte
  cd_willFlag :: byte
  cd_will :: MQTTPacket_willOptions
  cd_username :: MQTTString
  cd_password :: MQTTString

definition MQTTPacket_connectData_initializer :: MQTTPacket_connectData where
  "MQTTPacket_connectData_initializer =
     \<lparr>cd_struct_id = map of_char ''MQTC'', cd_struct_version = 0, cd_MQTTVersion = 4,
      cd_clientID = MQTTString_initializer, cd_keepAliveInterval = 60, cd_cleansession = 1,
      cd_willFlag = 0, cd_will = MQTTPacket_willOptions_initializer,
      cd_username = MQTTString_initializer, cd_password = MQTTString_initializer\<rparr>"

text \<open>
  The unions \<^verbatim>\<open>MQTTConnectFlags\<close> and \<^verbatim>\<open>MQTTConnackFlags\<close> on a little-endian target. Bit 0 of the
  connect flags is unused; then \<^verbatim>\<open>cleansession\<close>, \<^verbatim>\<open>will\<close>, two bits of \<^verbatim>\<open>willQoS\<close>, \<^verbatim>\<open>willRetain\<close>,
  \<^verbatim>\<open>password\<close>, \<^verbatim>\<open>username\<close>.
\<close>

record MQTTConnectFlags =
  fl_cleansession :: int
  fl_will :: int
  fl_willQoS :: int
  fl_willRetain :: int
  fl_password :: int
  fl_username :: int

definition connect_flags_all :: "MQTTConnectFlags \<Rightarrow> byte" where
  "connect_flags_all f =
     word_of_int (2 * (fl_cleansession f mod 2) + 4 * (fl_will f mod 2) + 8 * (fl_willQoS f mod 4) +
       32 * (fl_willRetain f mod 2) + 64 * (fl_password f mod 2) + 128 * (fl_username f mod 2))"

definition connect_flags_bits :: "byte \<Rightarrow> MQTTConnectFlags" where
  "connect_flags_bits b =
     \<lparr>fl_cleansession = uint b div 2 mod 2, fl_will = uint b div 4 mod 2,
      fl_willQoS = uint b div 8 mod 4, fl_willRetain = uint b div 32 mod 2,
      fl_password = uint b div 64 mod 2, fl_username = uint b div 128 mod 2\<rparr>"

definition connack_flags_all :: "byte \<Rightarrow> byte" where
  "connack_flags_all sessionpresent = word_of_int (uint sessionpresent mod 2)"

definition connack_sessionpresent :: "byte \<Rightarrow> byte" where
  "connack_sessionpresent b = word_of_int (uint b mod 2)"

subsection \<open>Client side\<close>

text \<open>\<open>has_string m\<close> is the test \<^verbatim>\<open>m.cstring || m.lenstring.data\<close>.\<close>

definition has_string :: "MQTTString \<Rightarrow> bool" where
  "has_string m \<longleftrightarrow> cstring m \<noteq> Null \<or> data (lenstring m) \<noteq> Null"

definition MQTTSerialize_connectLength :: "MQTTPacket_connectData \<Rightarrow> int option" where
  "MQTTSerialize_connectLength options = do {
     let l = (if cd_MQTTVersion options = 3 then 12 else if cd_MQTTVersion options = 4 then 10 else 0);
     n \<leftarrow> MQTTstrlen (cd_clientID options);
     let l = to_int (l + n + 2);
     l \<leftarrow> (if cd_willFlag options \<noteq> 0 then do {
             t \<leftarrow> MQTTstrlen (will_topicName (cd_will options));
             m \<leftarrow> MQTTstrlen (will_message (cd_will options));
             Some (to_int (l + t + 2 + m + 2))
           } else Some l);
     l \<leftarrow> (if has_string (cd_username options) then do {
             n \<leftarrow> MQTTstrlen (cd_username options); Some (to_int (l + n + 2))
           } else Some l);
     if has_string (cd_password options) then do {
       n \<leftarrow> MQTTstrlen (cd_password options); Some (to_int (l + n + 2))
     } else Some l
   }"

definition MQTTSerialize_connect ::
  "byte list \<Rightarrow> int \<Rightarrow> MQTTPacket_connectData \<Rightarrow> (int \<times> byte list) option" where
  "MQTTSerialize_connect buf buflen options = do {
     l \<leftarrow> MQTTSerialize_connectLength options;
     if MQTTPacket_len l > buflen then Some (MQTTPACKET_BUFFER_TOO_SHORT, buf)
     else do {
       w \<leftarrow> writeChar (buf, 0) (header_byte (msgType CONNECT) 0 0 0);
       w \<leftarrow> encode_at w l;
       w \<leftarrow> (if cd_MQTTVersion options = 4 then do {
               w \<leftarrow> writeCString w (cstr ''MQTT''); writeChar w 4
             } else do {
               w \<leftarrow> writeCString w (cstr ''MQIsdp''); writeChar w 3
             });
       let will = cd_willFlag options \<noteq> 0;
       let flags = \<lparr>fl_cleansession = uint (cd_cleansession options),
             fl_will = (if will then 1 else 0),
             fl_willQoS = (if will then uint (will_qos (cd_will options)) else 0),
             fl_willRetain = (if will then uint (will_retained (cd_will options)) else 0),
             fl_password = (if has_string (cd_password options) then 1 else 0),
             fl_username = (if has_string (cd_username options) then 1 else 0)\<rparr>;
       w \<leftarrow> writeChar w (connect_flags_all flags);
       w \<leftarrow> writeInt w (uint (cd_keepAliveInterval options));
       w \<leftarrow> writeMQTTString w (cd_clientID options);
       w \<leftarrow> (if cd_willFlag options \<noteq> 0 then do {
               w \<leftarrow> writeMQTTString w (will_topicName (cd_will options));
               writeMQTTString w (will_message (cd_will options))
             } else Some w);
       w \<leftarrow> (if fl_username flags \<noteq> 0 then writeMQTTString w (cd_username options) else Some w);
       w \<leftarrow> (if fl_password flags \<noteq> 0 then writeMQTTString w (cd_password options) else Some w);
       Some (int (snd w), fst w)
     }
   }"

text \<open>The outputs are \<^verbatim>\<open>*sessionPresent\<close> and \<^verbatim>\<open>*connack_rc\<close>.\<close>

definition MQTTDeserialize_connack ::
  "byte \<times> byte \<Rightarrow> byte list \<Rightarrow> (int \<times> byte \<times> byte) option" where
  "MQTTDeserialize_connack out buf = do {
     (header, curdata) \<leftarrow> readChar buf 0;
     if header_type header \<noteq> msgType CONNACK then Some (0, out)
     else do {
       (rc, mylen) \<leftarrow> MQTTPacket_decodeBuf buf curdata;
       let curdata = curdata + nat rc;
       if mylen < 2 then Some (rc, out)
       else do {
         (flags, curdata) \<leftarrow> readChar buf curdata;
         (connack_rc, curdata) \<leftarrow> readChar buf curdata;
         Some (1, connack_sessionpresent flags, connack_rc)
       }
     }
   }"

definition MQTTSerialize_zero :: "byte list \<Rightarrow> int \<Rightarrow> byte \<Rightarrow> (int \<times> byte list) option" where
  "MQTTSerialize_zero buf buflen packettype =
     (if buflen < 2 then Some (MQTTPACKET_BUFFER_TOO_SHORT, buf)
      else do {
        w \<leftarrow> writeChar (buf, 0) (header_byte (uint packettype) 0 0 0);
        w \<leftarrow> encode_at w 0;
        Some (int (snd w), fst w)
      })"

definition MQTTSerialize_disconnect :: "byte list \<Rightarrow> int \<Rightarrow> (int \<times> byte list) option" where
  "MQTTSerialize_disconnect buf buflen =
     MQTTSerialize_zero buf buflen (word_of_int (msgType DISCONNECT))"

definition MQTTSerialize_pingreq :: "byte list \<Rightarrow> int \<Rightarrow> (int \<times> byte list) option" where
  "MQTTSerialize_pingreq buf buflen =
     MQTTSerialize_zero buf buflen (word_of_int (msgType PINGREQ))"

subsection \<open>Server side\<close>

definition MQTTPacket_checkVersion :: "MQTTString \<Rightarrow> int \<Rightarrow> bool option" where
  "MQTTPacket_checkVersion protocol version = do {
     v3 \<leftarrow> (if version = 3 then
              memcmp_eq (data (lenstring protocol)) (cstr ''MQIsdp'') (to_size (min 6 (len (lenstring protocol))))
            else Some False);
     if v3 then Some True
     else if version = 4 then
       memcmp_eq (data (lenstring protocol)) (cstr ''MQTT'') (to_size (min 4 (len (lenstring protocol))))
     else Some False
   }"

text \<open>
  \<open>deserialize_will\<close> (lines 84 to 92) and \<open>deserialize_credentials\<close> (lines 93 to 103) are the
  two option blocks of \<^verbatim>\<open>MQTTDeserialize_connect\<close>; a \<^verbatim>\<open>goto exit\<close> inside them is the result code 0.
  The version byte is a \<^verbatim>\<open>char\<close>, signed on this target.
\<close>

definition deserialize_will ::
  "MQTTConnectFlags \<Rightarrow> MQTTPacket_connectData \<Rightarrow> byte list \<Rightarrow> nat \<Rightarrow> int \<Rightarrow>
     (int \<times> MQTTPacket_connectData \<times> nat) option" where
  "deserialize_will flags dat buf curdata enddata = do {
     let dat = dat\<lparr>cd_willFlag := word_of_int (fl_will flags)\<rparr>;
     if fl_will flags \<noteq> 0 then do {
       let will = (cd_will dat)\<lparr>will_qos := word_of_int (fl_willQoS flags),
                                will_retained := word_of_int (fl_willRetain flags)\<rparr>;
       (ok, m, curdata) \<leftarrow> readMQTTLenString (will_topicName will) buf curdata enddata;
       let will = will\<lparr>will_topicName := m\<rparr>;
       if ok = 0 then Some (0, dat\<lparr>cd_will := will\<rparr>, curdata)
       else do {
         (ok, m, curdata) \<leftarrow> readMQTTLenString (will_message will) buf curdata enddata;
         Some (ok, dat\<lparr>cd_will := will\<lparr>will_message := m\<rparr>\<rparr>, curdata)
       }
     }
     else Some (1, dat, curdata)
   }"

definition deserialize_credentials ::
  "MQTTConnectFlags \<Rightarrow> MQTTPacket_connectData \<Rightarrow> byte list \<Rightarrow> nat \<Rightarrow> int \<Rightarrow>
     (int \<times> MQTTPacket_connectData) option" where
  "deserialize_credentials flags dat buf curdata enddata =
     (if fl_username flags \<noteq> 0 then
        (if enddata - int curdata < 3 then Some (0, dat)
         else do {
           (ok, m, curdata) \<leftarrow> readMQTTLenString (cd_username dat) buf curdata enddata;
           let dat = dat\<lparr>cd_username := m\<rparr>;
           if ok = 0 then Some (0, dat)
           else if fl_password flags \<noteq> 0 then
             (if enddata - int curdata < 3 then Some (0, dat)
              else do {
                (ok, m, curdata) \<leftarrow> readMQTTLenString (cd_password dat) buf curdata enddata;
                Some (if ok = 0 then 0 else 1, dat\<lparr>cd_password := m\<rparr>)
              })
           else Some (1, dat)
         })
      else if fl_password flags \<noteq> 0 then Some (0, dat)
      else Some (1, dat))"

definition MQTTDeserialize_connect ::
  "MQTTPacket_connectData \<Rightarrow> MQTTString \<Rightarrow> byte list \<Rightarrow> int \<Rightarrow> (int \<times> MQTTPacket_connectData) option" where
  "MQTTDeserialize_connect dat Protocol buf enddata = do {
     (header, curdata) \<leftarrow> readChar buf 0;
     if header_type header \<noteq> msgType CONNECT then Some (0, dat)
     else do {
       (k, mylen) \<leftarrow> MQTTPacket_decodeBuf buf curdata;
       let curdata = curdata + nat k;
       (ok, Protocol, curdata) \<leftarrow> readMQTTLenString Protocol buf curdata enddata;
       if ok = 0 \<or> enddata - int curdata < 0 then Some (0, dat)
       else do {
         (version, curdata) \<leftarrow> readChar buf curdata;
         known \<leftarrow> MQTTPacket_checkVersion Protocol (sint version);
         if \<not> known then Some (0, dat)
         else do {
           (b, curdata) \<leftarrow> readChar buf curdata;
           let flags = connect_flags_bits b;
           (keepalive, curdata) \<leftarrow> readInt buf curdata;
           let dat = dat\<lparr>cd_cleansession := word_of_int (fl_cleansession flags),
                         cd_keepAliveInterval := word_of_int keepalive\<rparr>;
           (ok, m, curdata) \<leftarrow> readMQTTLenString (cd_clientID dat) buf curdata enddata;
           let dat = dat\<lparr>cd_clientID := m\<rparr>;
           if ok = 0 then Some (0, dat)
           else do {
             (ok, dat, curdata) \<leftarrow> deserialize_will flags dat buf curdata enddata;
             if ok = 0 then Some (0, dat)
             else deserialize_credentials flags dat buf curdata enddata
           }
         }
       }
     }
   }"

definition MQTTSerialize_connack ::
  "byte list \<Rightarrow> int \<Rightarrow> byte \<times> byte \<Rightarrow> (int \<times> byte list) option" where
  "MQTTSerialize_connack buf buflen = (\<lambda>(sessionPresent, connack_rc).
     if buflen < 2 then Some (MQTTPACKET_BUFFER_TOO_SHORT, buf)
     else do {
       w \<leftarrow> writeChar (buf, 0) (header_byte (msgType CONNACK) 0 0 0);
       w \<leftarrow> encode_at w 2;
       w \<leftarrow> writeChar w (connack_flags_all sessionPresent);
       w \<leftarrow> writeChar w connack_rc;
       Some (int (snd w), fst w)
     })"

subsection \<open>Wire format\<close>

text \<open>The packets of the MQTT standard, sections 3.1, 3.2, 3.12 and 3.14.\<close>

definition protocol_bytes :: "MQTTPacket_connectData \<Rightarrow> byte list" where
  "protocol_bytes c =
     (if cd_MQTTVersion c = 4 then utf_bytes (map of_char ''MQTT'') @ [4]
      else utf_bytes (map of_char ''MQIsdp'') @ [3])"

definition flags_of :: "MQTTPacket_connectData \<Rightarrow> MQTTConnectFlags" where
  "flags_of c = (let will = cd_willFlag c \<noteq> 0 in
     \<lparr>fl_cleansession = uint (cd_cleansession c), fl_will = (if will then 1 else 0),
      fl_willQoS = (if will then uint (will_qos (cd_will c)) else 0),
      fl_willRetain = (if will then uint (will_retained (cd_will c)) else 0),
      fl_password = (if has_string (cd_password c) then 1 else 0),
      fl_username = (if has_string (cd_username c) then 1 else 0)\<rparr>)"

definition will_bytes :: "MQTTPacket_connectData \<Rightarrow> byte list" where
  "will_bytes c =
     (if cd_willFlag c \<noteq> 0
      then utf_bytes (mqtt_content (will_topicName (cd_will c))) @
           utf_bytes (mqtt_content (will_message (cd_will c))) else [])"

definition credential_bytes :: "MQTTPacket_connectData \<Rightarrow> byte list" where
  "credential_bytes c =
     (if has_string (cd_username c) then utf_bytes (mqtt_content (cd_username c)) else []) @
     (if has_string (cd_password c) then utf_bytes (mqtt_content (cd_password c)) else [])"

definition connect_body :: "MQTTPacket_connectData \<Rightarrow> byte list" where
  "connect_body c = protocol_bytes c @ [connect_flags_all (flags_of c)] @
     int_bytes (uint (cd_keepAliveInterval c)) @ utf_bytes (mqtt_content (cd_clientID c)) @
     will_bytes c @ credential_bytes c"

definition connect_wire :: "MQTTPacket_connectData \<Rightarrow> byte list" where
  "connect_wire c = packet_bytes (header_byte (msgType CONNECT) 0 0 0) (connect_body c)"

definition connect_valid :: "MQTTPacket_connectData \<Rightarrow> bool" where
  "connect_valid c \<longleftrightarrow> (cd_MQTTVersion c = 3 \<or> cd_MQTTVersion c = 4) \<and>
     wf_string (cd_clientID c) \<and>
     (cd_willFlag c \<noteq> 0 \<longrightarrow> wf_string (will_topicName (cd_will c)) \<and> wf_string (will_message (cd_will c))) \<and>
     (has_string (cd_username c) \<longrightarrow> wf_string (cd_username c)) \<and>
     (has_string (cd_password c) \<longrightarrow> wf_string (cd_password c)) \<and>
     length (connect_body c) < 268435456"

definition connack_wire :: "byte \<times> byte \<Rightarrow> byte list" where
  "connack_wire = (\<lambda>(sessionPresent, connack_rc).
     packet_bytes (header_byte (msgType CONNACK) 0 0 0) [connack_flags_all sessionPresent, connack_rc])"

definition zero_wire :: "byte \<Rightarrow> byte list" where
  "zero_wire packettype = packet_bytes (header_byte (uint packettype) 0 0 0) []"

subsection \<open>The serializers store the standard packets\<close>

lemma cstring_of_cstr: "0 \<notin> set (map of_char s :: byte list) \<Longrightarrow> cstring_of (cstr s) (map of_char s)"
  by (auto simp: cstring_of_def cstr_def)

lemma length_protocol_bytes: "length (protocol_bytes c) = (if cd_MQTTVersion c = 4 then 7 else 9)"
  by (simp add: protocol_bytes_def)

lemma connectLength_body:
  assumes "connect_valid c"
  shows "MQTTSerialize_connectLength c = Some (int (length (connect_body c)))"
proof -
  have d: "denotes (cd_clientID c) (mqtt_content (cd_clientID c))"
    "cd_willFlag c \<noteq> 0 \<Longrightarrow> denotes (will_topicName (cd_will c)) (mqtt_content (will_topicName (cd_will c)))"
    "cd_willFlag c \<noteq> 0 \<Longrightarrow> denotes (will_message (cd_will c)) (mqtt_content (will_message (cd_will c)))"
    "has_string (cd_username c) \<Longrightarrow> denotes (cd_username c) (mqtt_content (cd_username c))"
    "has_string (cd_password c) \<Longrightarrow> denotes (cd_password c) (mqtt_content (cd_password c))"
    using assms by (simp_all add: connect_valid_def wf_string_def)
  have v: "cd_MQTTVersion c = 3 \<or> cd_MQTTVersion c = 4" and small: "int (length (connect_body c)) < 268435456"
    using assms by (auto simp: connect_valid_def)
  define i t m u p b where "i = length (mqtt_content (cd_clientID c))"
    and "t = length (mqtt_content (will_topicName (cd_will c)))" and "m = length (mqtt_content (will_message (cd_will c)))"
    and "u = length (mqtt_content (cd_username c))" and "p = length (mqtt_content (cd_password c))"
    and "b = (if cd_MQTTVersion c = 3 then 12 else if cd_MQTTVersion c = 4 then 10 else 0 :: int)"
  note len = d [THEN MQTTstrlen_denotes, folded i_def t_def m_def u_def p_def]
  have b: "0 \<le> b" "b < 13" by (simp_all add: b_def)
  let ?w = "if cd_willFlag c \<noteq> 0 then int t + 2 + int m + 2 else 0"
    and ?u = "if has_string (cd_username c) then int u + 2 else 0"
    and ?p = "if has_string (cd_password c) then int p + 2 else 0"
  have body: "int (length (connect_body c)) = b + int i + 2 + ?w + ?u + ?p"
    using v by (auto simp: b_def connect_body_def will_bytes_def credential_bytes_def length_protocol_bytes i_def t_def m_def u_def p_def)
  have fit: "to_int (int (length (connect_body c))) = int (length (connect_body c))"
    using small by (intro to_int_id) simp_all
  have "MQTTSerialize_connectLength c = Some (to_int (int (length (connect_body c))))"
    unfolding MQTTSerialize_connectLength_def b_def [symmetric] body
    by (cases "cd_willFlag c = 0"; cases "has_string (cd_username c)"; cases "has_string (cd_password c)";
        simp only: len Let_def bind.bind_lunit if_True if_False simp_thms to_int_add add.assoc
          add_0_right)
  then show ?thesis by (simp only: fit)
qed

interpretation connect_ser: checked_serializer connect_wire MQTTSerialize_connect connect_valid
  "\<lambda>c. MQTTPacket_len (int (length (connect_body c)))"
proof unfold_locales
  fix c buflen and buf :: "byte list"
  assume v: "connect_valid c"
  then have small: "length (connect_body c) < 268435456" by (simp add: connect_valid_def)
  show need: "int (length (connect_wire c)) \<le> MQTTPacket_len (int (length (connect_body c)))"
    using MQTTPacket_len_bounds(1) [of "int (length (connect_body c))"] small
    by (simp add: connect_wire_def length_packet_bytes)
  show "buflen < MQTTPacket_len (int (length (connect_body c))) \<Longrightarrow>
      MQTTSerialize_connect buf buflen c = Some (MQTTPACKET_BUFFER_TOO_SHORT, buf)"
    by (simp add: MQTTSerialize_connect_def connectLength_body [OF v])
  assume fit: "MQTTPacket_len (int (length (connect_body c))) \<le> buflen" "buflen \<le> int (length buf)"
  have le: "length (connect_wire c) \<le> length buf" using need fit by linarith
  have proto: "(if cd_MQTTVersion c = 4 then do { w \<leftarrow> writeCString w (cstr ''MQTT''); writeChar w 4 }
      else do { w \<leftarrow> writeCString w (cstr ''MQIsdp''); writeChar w 3 }) = emit (protocol_bytes c) w" for w
    by (simp add: protocol_bytes_def emit_simps writeCString_emit [OF cstring_of_cstr])
  have str: "wf_string m \<Longrightarrow> writeMQTTString w m = emit (utf_bytes (mqtt_content m)) w" for w m
    by (simp add: wf_string_def writeMQTTString_emit)
  have "MQTTSerialize_connect buf buflen c =
      emit (connect_wire c) (buf, 0) \<bind> (\<lambda>w. Some (int (snd w), fst w))"
    using fit v
    by (cases "cd_willFlag c = 0"; cases "has_string (cd_username c)"; cases "has_string (cd_password c)")
      (simp_all add: MQTTSerialize_connect_def connectLength_body [OF v] proto connect_wire_def
        packet_bytes_def connect_valid_def emit_simps str,
       simp_all add: connect_body_def will_bytes_def credential_bytes_def flags_of_def)
  then show "MQTTSerialize_connect buf buflen c =
      Some (int (length (connect_wire c)), overwrite buf 0 (connect_wire c))"
    using le by (simp add: emit_start)
qed

lemma length_zero_wire [simp]: "length (zero_wire t) = 2"
  by (simp add: zero_wire_def length_packet_bytes)

interpretation zero_ser: checked_serializer zero_wire MQTTSerialize_zero "\<lambda>_. True" "\<lambda>_. 2"
proof unfold_locales
  fix t :: byte and buflen and buf :: "byte list"
  show "int (length (zero_wire t)) \<le> 2" by simp
  show "buflen < 2 \<Longrightarrow> MQTTSerialize_zero buf buflen t = Some (MQTTPACKET_BUFFER_TOO_SHORT, buf)"
    by (simp add: MQTTSerialize_zero_def)
  assume "2 \<le> buflen" "buflen \<le> int (length buf)"
  moreover from this have "MQTTSerialize_zero buf buflen t =
      emit (zero_wire t) (buf, 0) \<bind> (\<lambda>w. Some (int (snd w), fst w))"
    by (simp add: MQTTSerialize_zero_def zero_wire_def packet_bytes_def emit_simps)
  ultimately show "MQTTSerialize_zero buf buflen t =
      Some (int (length (zero_wire t)), overwrite buf 0 (zero_wire t))"
    by (simp add: emit_start length_zero_wire)
qed

lemma length_connack_wire [simp]: "length (connack_wire a) = 4"
  by (cases a) (simp add: connack_wire_def length_packet_bytes)

lemma serialize_connack_emit:
  "2 \<le> buflen \<Longrightarrow> MQTTSerialize_connack buf buflen a =
     emit (connack_wire a) (buf, 0) \<bind> (\<lambda>w. Some (int (snd w), fst w))"
  by (cases a) (simp add: MQTTSerialize_connack_def connack_wire_def packet_bytes_def emit_simps)

definition connack_matches :: "byte \<times> byte \<Rightarrow> byte \<times> byte \<Rightarrow> bool" where
  "connack_matches a b \<longleftrightarrow> uint (fst b) = uint (fst a) mod 2 \<and> snd b = snd a"

interpretation connack_codec: packet_codec connack_wire MQTTSerialize_connack "\<lambda>_. True" "\<lambda>_. 4"
  MQTTDeserialize_connack connack_matches "\<lambda>_ _. True"
proof unfold_locales
  fix a out0 :: "byte \<times> byte" and buflen and buf rest :: "byte list"
  show "int (length (connack_wire a)) \<le> 4" by simp
  show "4 \<le> buflen \<Longrightarrow> buflen \<le> int (length buf) \<Longrightarrow>
      MQTTSerialize_connack buf buflen a = Some (int (length (connack_wire a)), overwrite buf 0 (connack_wire a))"
    by (simp add: serialize_connack_emit emit_start)
  obtain sp rc where a: "a = (sp, rc)" by (cases a)
  define h where "h = header_byte (msgType CONNACK) 0 0 0"
  define buf where "buf = packet_bytes h [connack_flags_all sp, rc] @ rest"
  have "readChar buf 0 = Some (h, 1)" "MQTTPacket_decodeBuf buf 1 = Some (1, 2)"
    using read_remlen [of "[connack_flags_all sp, rc]" h rest] by (simp_all add: buf_def read_header)
  moreover have d: "drop 2 buf = connack_flags_all sp # rc # rest"
    using drop_packet [of "[connack_flags_all sp, rc]" h rest] by (simp add: buf_def numeral_2_eq_2)
  then have "readChar buf 2 = Some (connack_flags_all sp, 3)" "readChar buf 3 = Some (rc, 4)"
    using readChar_prefix [OF d] readChar_prefix [of 3 buf rc rest] drop_eq_ConsD(3) [OF d] by simp_all
  ultimately have "MQTTDeserialize_connack out0 buf = Some (1, connack_sessionpresent (connack_flags_all sp), rc)"
    by (simp add: MQTTDeserialize_connack_def h_def numeral_2_eq_2 numeral_3_eq_3)
  then show "\<exists>out. MQTTDeserialize_connack out0 (connack_wire a @ rest) = Some (1, out) \<and> connack_matches a out"
    by (simp add: a buf_def connack_wire_def h_def connack_matches_def connack_sessionpresent_def connack_flags_all_def)
qed

subsection \<open>Packets and buffers outside the contract\<close>

lemma serialize_connack_overruns:
  "2 \<le> buflen \<Longrightarrow> length buf < 4 \<Longrightarrow> MQTTSerialize_connack buf buflen a = None"
  by (simp add: serialize_connack_emit emit_def)

lemma connack_short_body:
  assumes "header_type h = msgType CONNACK" "length body < 2"
  shows "MQTTDeserialize_connack out (packet_bytes h body @ rest) = Some (1, out)"
  using assms read_remlen [of body h rest]
  by (simp add: MQTTDeserialize_connack_def read_header)

lemma connack_result:
  assumes "header_type h = msgType CONNACK" "2 \<le> length body" "length body < 268435456"
  shows "MQTTDeserialize_connack out (packet_bytes h body @ rest) =
    Some (1, connack_sessionpresent (body ! 0), body ! 1)"
proof -
  define buf where "buf = packet_bytes h body @ rest"
  define r where "r = length (remlen_bytes (length body))"
  obtain x y zs where body: "body = x # y # zs"
    using assms(2) by (metis Suc_le_length_iff numeral_2_eq_2)
  have d: "drop (1 + r) buf = x # y # (zs @ rest)"
    using drop_packet [of body h rest] by (simp add: buf_def r_def body)
  have "readChar buf 0 = Some (h, 1)" "MQTTPacket_decodeBuf buf 1 = Some (int r, int (length body))"
    using read_remlen [OF assms(3), of h rest] by (simp_all add: buf_def r_def read_header)
  moreover have "readChar buf (1 + r) = Some (x, 2 + r)" "readChar buf (2 + r) = Some (y, 3 + r)"
    using readChar_prefix [OF d] readChar_prefix [of "2 + r" buf y "zs @ rest"] drop_eq_ConsD(3) [OF d]
    by simp_all
  ultimately have "MQTTDeserialize_connack out buf = Some (1, connack_sessionpresent x, y)"
    using assms by (simp add: MQTTDeserialize_connack_def body)
  then show ?thesis by (simp add: buf_def body)
qed

lemma connack_safe:
  assumes "length body < 268435456"
  shows "MQTTDeserialize_connack out (packet_bytes h body @ rest) \<noteq> None"
proof (cases "header_type h = msgType CONNACK")
  case True
  then show ?thesis
    using connack_short_body [OF True, of body out rest] connack_result [OF True _ assms, of out rest]
    by (cases "length body < 2") auto
next
  case False
  then show ?thesis by (simp add: MQTTDeserialize_connack_def read_header)
qed

subsection \<open>The server reads back what the client writes\<close>

lemma flag_digits:
  fixes c w q r p u :: int
  assumes b: "0 \<le> c" "c < 2" "0 \<le> w" "w < 2" "0 \<le> q" "q < 4" "0 \<le> r" "r < 2" "0 \<le> p" "p < 2" "0 \<le> u" "u < 2"
  defines "n \<equiv> uint (word_of_int (2 * c + 4 * w + 8 * q + 32 * r + 64 * p + 128 * u) :: byte)"
  shows "n div 2 mod 2 = c \<and> n div 4 mod 2 = w \<and> n div 8 mod 4 = q \<and> n div 32 mod 2 = r \<and>
    n div 64 mod 2 = p \<and> n div 128 mod 2 = u"
proof -
  from b have n: "n = 2 * c + 4 * w + 8 * q + 32 * r + 64 * p + 128 * u"
    unfolding n_def by (subst uint_word_of_int) (rule mod_pos_pos_trivial, simp_all)
  have "n div 2 mod 2 = c" by (rule bit_field [of _ _ _ "w + 2 * q + 8 * r + 16 * p + 32 * u" _ 0]) (use b in \<open>simp_all add: n\<close>)
  moreover have "n div 4 mod 2 = w" by (rule bit_field [of _ _ _ "q + 4 * r + 8 * p + 16 * u" _ "2 * c"]) (use b in \<open>simp_all add: n\<close>)
  moreover have "n div 8 mod 4 = q" by (rule bit_field [of _ _ _ "r + 2 * p + 4 * u" _ "2 * c + 4 * w"]) (use b in \<open>simp_all add: n\<close>)
  moreover have "n div 32 mod 2 = r" by (rule bit_field [of _ _ _ "p + 2 * u" _ "2 * c + 4 * w + 8 * q"]) (use b in \<open>simp_all add: n\<close>)
  moreover have "n div 64 mod 2 = p" by (rule bit_field [of _ _ _ u _ "2 * c + 4 * w + 8 * q + 32 * r"]) (use b in \<open>simp_all add: n\<close>)
  moreover have "n div 128 mod 2 = u" by (rule bit_field [of _ _ _ 0 _ "2 * c + 4 * w + 8 * q + 32 * r + 64 * p"]) (use b in \<open>simp_all add: n\<close>)
  ultimately show ?thesis by (intro conjI)
qed

lemma connect_flags_roundtrip [simp]:
  "connect_flags_bits (connect_flags_all f) =
     \<lparr>fl_cleansession = fl_cleansession f mod 2, fl_will = fl_will f mod 2, fl_willQoS = fl_willQoS f mod 4,
      fl_willRetain = fl_willRetain f mod 2, fl_password = fl_password f mod 2, fl_username = fl_username f mod 2\<rparr>"
proof -
  have two: "0 \<le> x mod 2" "x mod 2 < 2" and four: "0 \<le> x mod 4" "x mod 4 < 4" for x :: int by simp_all
  note d = flag_digits [OF two [of "fl_cleansession f"] two [of "fl_will f"] four [of "fl_willQoS f"]
      two [of "fl_willRetain f"] two [of "fl_password f"] two [of "fl_username f"]]
  show ?thesis
    unfolding connect_flags_all_def connect_flags_bits_def by (simp only: d)
qed

definition connect_valid_for_server :: "MQTTPacket_connectData \<Rightarrow> bool" where
  "connect_valid_for_server c \<longleftrightarrow> connect_valid c \<and>
     (has_string (cd_username c) \<longrightarrow> mqtt_content (cd_username c) \<noteq> []) \<and>
     (has_string (cd_password c) \<longrightarrow> has_string (cd_username c) \<and> mqtt_content (cd_password c) \<noteq> [])"

definition connect_matches :: "MQTTPacket_connectData \<Rightarrow> MQTTPacket_connectData \<Rightarrow> bool" where
  "connect_matches c d \<longleftrightarrow>
     uint (cd_cleansession d) = uint (cd_cleansession c) mod 2 \<and>
     cd_keepAliveInterval d = cd_keepAliveInterval c \<and>
     denotes (cd_clientID d) (mqtt_content (cd_clientID c)) \<and>
     (cd_willFlag d \<noteq> 0 \<longleftrightarrow> cd_willFlag c \<noteq> 0) \<and>
     (cd_willFlag c \<noteq> 0 \<longrightarrow>
        uint (will_qos (cd_will d)) = uint (will_qos (cd_will c)) mod 4 \<and>
        uint (will_retained (cd_will d)) = uint (will_retained (cd_will c)) mod 2 \<and>
        denotes (will_topicName (cd_will d)) (mqtt_content (will_topicName (cd_will c))) \<and>
        denotes (will_message (cd_will d)) (mqtt_content (will_message (cd_will c)))) \<and>
     (has_string (cd_username c) \<longrightarrow> denotes (cd_username d) (mqtt_content (cd_username c))) \<and>
     (has_string (cd_password c) \<longrightarrow> denotes (cd_password d) (mqtt_content (cd_password c)))"

lemma will_roundtrip:
  assumes "drop p buf = will_bytes c @ rest" "connect_valid c"
  defines "f \<equiv> connect_flags_bits (connect_flags_all (flags_of c))"
  shows "\<exists>dat'. deserialize_will f dat buf p (int (length buf)) = Some (1, dat', p + length (will_bytes c)) \<and>
    drop (p + length (will_bytes c)) buf = rest \<and>
    (cd_willFlag dat' \<noteq> 0 \<longleftrightarrow> cd_willFlag c \<noteq> 0) \<and>
     (cd_willFlag c \<noteq> 0 \<longrightarrow>
        uint (will_qos (cd_will dat')) = uint (will_qos (cd_will c)) mod 4 \<and>
        uint (will_retained (cd_will dat')) = uint (will_retained (cd_will c)) mod 2 \<and>
        denotes (will_topicName (cd_will dat')) (mqtt_content (will_topicName (cd_will c))) \<and>
        denotes (will_message (cd_will dat')) (mqtt_content (will_message (cd_will c)))) \<and>
     cd_cleansession dat' = cd_cleansession dat \<and> cd_keepAliveInterval dat' = cd_keepAliveInterval dat \<and>
     cd_clientID dat' = cd_clientID dat"
proof (cases "cd_willFlag c = 0")
  case True
  then show ?thesis
    using assms(1) by (simp add: deserialize_will_def f_def flags_of_def will_bytes_def)
next
  case False
  let ?t = "mqtt_content (will_topicName (cd_will c))" and ?m = "mqtt_content (will_message (cd_will c))"
  have wf: "length ?t \<le> 65535" "length ?m \<le> 65535"
    using assms(2) False by (auto simp: connect_valid_def wf_string_length)
  have "drop p buf = utf_bytes ?t @ utf_bytes ?m @ rest"
    using assms(1) False by (simp add: will_bytes_def)
  note t = read_utf [OF this wf(1)]
  note m = read_utf [OF t(2) wf(2)]
  have q: "uint (word_of_int (x mod 4) :: byte) = x mod 4" for x
  proof -
    have "x mod 4 = 0 \<or> x mod 4 = 1 \<or> x mod 4 = 2 \<or> x mod 4 = 3" by presburger
    then show ?thesis by auto
  qed
  show ?thesis
    using False wf m(2)
    by (simp add: deserialize_will_def f_def flags_of_def will_bytes_def Let_def t(1) m(1) q
        del: add_2_eq_Suc' add_2_eq_Suc) (simp add: add_ac)
qed

lemma credentials_roundtrip:
  assumes "drop p buf = credential_bytes c @ rest" "connect_valid_for_server c"
  defines "f \<equiv> connect_flags_bits (connect_flags_all (flags_of c))"
  shows "\<exists>dat'. deserialize_credentials f dat buf p (int (length buf)) = Some (1, dat') \<and>
     (has_string (cd_username c) \<longrightarrow> denotes (cd_username dat') (mqtt_content (cd_username c))) \<and>
     (has_string (cd_password c) \<longrightarrow> denotes (cd_password dat') (mqtt_content (cd_password c))) \<and>
     cd_cleansession dat' = cd_cleansession dat \<and> cd_keepAliveInterval dat' = cd_keepAliveInterval dat \<and>
     cd_clientID dat' = cd_clientID dat \<and> cd_willFlag dat' = cd_willFlag dat \<and> cd_will dat' = cd_will dat"
proof -
  have flags: "fl_username f = (if has_string (cd_username c) then 1 else 0)"
    "fl_password f = (if has_string (cd_password c) then 1 else 0)"
    by (simp_all add: f_def flags_of_def Let_def)
  show ?thesis
  proof (cases "has_string (cd_username c)")
  case False
  then have "\<not> has_string (cd_password c)" using assms(2) by (auto simp: connect_valid_for_server_def)
  with False show ?thesis by (simp add: deserialize_credentials_def flags)
next
  case user: True
  let ?u = "mqtt_content (cd_username c)" and ?p = "mqtt_content (cd_password c)"
  have wf: "length ?u \<le> 65535" "?u \<noteq> []"
    using assms(2) user by (auto simp: connect_valid_for_server_def connect_valid_def wf_string_length)
  define tail where "tail = (if has_string (cd_password c) then utf_bytes ?p else []) @ rest"
  have at: "drop p buf = utf_bytes ?u @ tail"
    using assms(1) user by (simp add: credential_bytes_def tail_def)
  define q where "q = p + 2 + length ?u"
  note u = read_utf [OF at wf(1), folded q_def]
  have room: "\<not> int (length buf) - int p < 3"
    using arg_cong [OF at, of length] wf(2) by (cases ?u) auto
  show ?thesis
  proof (cases "has_string (cd_password c)")
    case False
    with user room wf u(1) show ?thesis
      by (simp add: deserialize_credentials_def flags Let_def)
  next
    case True
    then have wf': "length ?p \<le> 65535" "?p \<noteq> []"
      using assms(2) by (auto simp: connect_valid_for_server_def connect_valid_def wf_string_length)
    have at': "drop q buf = utf_bytes ?p @ rest" using u(2) True by (simp add: tail_def)
    note pw = read_utf [OF at' wf'(1)]
    have room': "\<not> int (length buf) - int q < 3"
      using arg_cong [OF at', of length] wf'(2) by (cases ?p) auto
    show ?thesis
      unfolding deserialize_credentials_def using room room' wf wf' user True
      by (simp add: flags Let_def u(1) pw(1))
  qed
qed
qed

lemma protocol_read:
  assumes "drop p buf = protocol_bytes c @ rest" "cd_MQTTVersion c = 3 \<or> cd_MQTTVersion c = 4"
  shows "\<exists>m' q v. readMQTTLenString m buf p (int (length buf)) = Some (1, m', q) \<and>
    \<not> int (length buf) - int q < 0 \<and> readChar buf q = Some (v, q + 1) \<and>
    MQTTPacket_checkVersion m' (sint v) = Some True \<and> drop (q + 1) buf = rest"
proof -
  define name :: "byte list" where
    "name = map of_char (if cd_MQTTVersion c = 4 then ''MQTT'' else ''MQIsdp'')"
  define v :: byte where "v = (if cd_MQTTVersion c = 4 then 4 else 3)"
  have at: "drop p buf = utf_bytes name @ v # rest"
    using assms by (auto simp: protocol_bytes_def name_def v_def)
  have "length name \<le> 65535" by (simp add: name_def)
  note r = read_utf [OF at this]
  note d = drop_eq_ConsD [OF r(2)]
  have "MQTTPacket_checkVersion (string_read m name (v # rest)) (sint v) = Some True"
    using assms(2)
    by (auto simp: MQTTPacket_checkVersion_def string_read_def name_def v_def memcmp_eq_def
        cstr_def to_size_def)
  with r(1) d readChar_prefix [OF r(2)] show ?thesis
    by (intro exI conjI) auto
qed

lemma connect_parse:
  assumes v: "connect_valid_for_server c"
  shows "\<exists>d. MQTTDeserialize_connect dat m (connect_wire c @ rest) (int (length (connect_wire c @ rest))) = Some (1, d) \<and>
    connect_matches c d"
proof -
  define h where "h = header_byte (msgType CONNECT) 0 0 0"
  define r where "r = length (remlen_bytes (length (connect_body c)))"
  define p where "p = 1 + r"
  define buf where "buf = connect_wire c @ rest"
  define f where "f = connect_flags_bits (connect_flags_all (flags_of c))"
  let ?id = "mqtt_content (cd_clientID c)"
  have c: "connect_valid c" "cd_MQTTVersion c = 3 \<or> cd_MQTTVersion c = 4" "length ?id \<le> 65535"
    "length (connect_body c) < 268435456"
    using v by (auto simp: connect_valid_for_server_def connect_valid_def wf_string_length)
  have hd: "readChar buf 0 = Some (h, 1)" "header_type h = msgType CONNECT"
    and rl: "MQTTPacket_decodeBuf buf 1 = Some (int r, int (length (connect_body c)))"
    using read_remlen [OF c(4), of h rest]
    by (simp_all add: buf_def connect_wire_def read_header r_def h_def)
  have "drop p buf = protocol_bytes c @ connect_flags_all (flags_of c) #
      int_bytes (uint (cd_keepAliveInterval c)) @ utf_bytes ?id @ will_bytes c @ credential_bytes c @ rest"
    using drop_packet [of "connect_body c" h rest]
    by (simp add: buf_def connect_wire_def h_def p_def r_def connect_body_def)
  from protocol_read [OF this c(2), of m] obtain m' q ver where
    q: "readMQTTLenString m buf p (int (length buf)) = Some (1, m', q)" "\<not> int (length buf) - int q < 0"
      "readChar buf q = Some (ver, q + 1)" "MQTTPacket_checkVersion m' (sint ver) = Some True"
    and at_flags: "drop (q + 1) buf = connect_flags_all (flags_of c) #
      int_bytes (uint (cd_keepAliveInterval c)) @ utf_bytes ?id @ will_bytes c @ credential_bytes c @ rest"
    by blast
  note b = readChar_prefix [OF at_flags]
  have at_keep: "drop (q + 1 + 1) buf = int_bytes (uint (cd_keepAliveInterval c)) @ utf_bytes ?id @
      will_bytes c @ credential_bytes c @ rest"
    using drop_eq_ConsD(3) [OF at_flags] by simp
  have k: "readInt buf (q + 1 + 1) = Some (uint (cd_keepAliveInterval c), q + 1 + 1 + 2)"
    by (rule readInt_prefix [OF at_keep]) (simp_all add: u16_bounds)
  have "drop (q + 1 + 1 + 2) buf = utf_bytes ?id @ will_bytes c @ credential_bytes c @ rest"
    using drop_append_skip [OF at_keep] by simp
  note i = read_utf [OF this c(3)]
  define d1 where "d1 = dat\<lparr>cd_cleansession := word_of_int (fl_cleansession f),
    cd_keepAliveInterval := word_of_int (uint (cd_keepAliveInterval c)),
    cd_clientID := string_read (cd_clientID dat) ?id (will_bytes c @ credential_bytes c @ rest)\<rparr>"
  define w where "w = q + 1 + 1 + 2 + 2 + length ?id"
  from will_roundtrip [OF i(2) c(1), of d1] obtain d2 where
    will: "deserialize_will f d1 buf w (int (length buf)) = Some (1, d2, w + length (will_bytes c))"
      "drop (w + length (will_bytes c)) buf = credential_bytes c @ rest"
      "cd_willFlag d2 \<noteq> 0 \<longleftrightarrow> cd_willFlag c \<noteq> 0"
      "cd_willFlag c \<noteq> 0 \<longrightarrow>
        uint (will_qos (cd_will d2)) = uint (will_qos (cd_will c)) mod 4 \<and>
        uint (will_retained (cd_will d2)) = uint (will_retained (cd_will c)) mod 2 \<and>
        denotes (will_topicName (cd_will d2)) (mqtt_content (will_topicName (cd_will c))) \<and>
        denotes (will_message (cd_will d2)) (mqtt_content (will_message (cd_will c)))"
      "cd_cleansession d2 = cd_cleansession d1" "cd_keepAliveInterval d2 = cd_keepAliveInterval d1"
      "cd_clientID d2 = cd_clientID d1"
    unfolding f_def w_def by blast
  from credentials_roundtrip [OF will(2) v, of d2] obtain d3 where
    cred: "deserialize_credentials f d2 buf (w + length (will_bytes c)) (int (length buf)) = Some (1, d3)"
      "has_string (cd_username c) \<longrightarrow> denotes (cd_username d3) (mqtt_content (cd_username c))"
      "has_string (cd_password c) \<longrightarrow> denotes (cd_password d3) (mqtt_content (cd_password c))"
      "cd_cleansession d3 = cd_cleansession d2" "cd_keepAliveInterval d3 = cd_keepAliveInterval d2"
      "cd_clientID d3 = cd_clientID d2" "cd_willFlag d3 = cd_willFlag d2" "cd_will d3 = cd_will d2"
    unfolding f_def by blast
  have p: "1 + r = p" by (simp add: p_def)
  have "MQTTDeserialize_connect dat m buf (int (length buf)) = Some (1, d3)"
    unfolding MQTTDeserialize_connect_def
    using will(1) cred(1) q b k i(1) hd rl
    by (simp add: Let_def p f_def [symmetric] d1_def w_def
        del: connect_flags_roundtrip One_nat_def add_2_eq_Suc' add_2_eq_Suc)
  moreover have "connect_matches c d3"
    using will cred c(3) by (simp add: connect_matches_def d1_def f_def flags_of_def uint_mod_2_byte Let_def)
  ultimately show ?thesis by (auto simp: buf_def)
qed

interpretation connect_codec: packet_codec connect_wire MQTTSerialize_connect connect_valid_for_server
  "\<lambda>c. MQTTPacket_len (int (length (connect_body c)))"
  "\<lambda>dat buf. MQTTDeserialize_connect dat m buf (int (length buf))" connect_matches "\<lambda>_ _. True" for m
  using connect_ser.need_wire connect_ser.fits connect_parse
  by unfold_locales (auto simp: connect_valid_for_server_def)

subsection \<open>Properties\<close>

text \<open>
  C22. CONNECT round trip. The packet \<^verbatim>\<open>MQTTSerialize_connect\<close> writes for MQTT 3.1 or 3.1.1, with or
  without a will, a user name and a password, is accepted by \<^verbatim>\<open>MQTTDeserialize_connect\<close>, which
  returns the same session flag, keep alive interval, client identifier, will and credentials. The
  user name and password have to be non-empty if present, and a password needs a user name.
\<close>

theorem connect_roundtrip:
  assumes "connect_valid_for_server c" "MQTTPacket_len (int (length (connect_body c))) \<le> buflen"
    "buflen \<le> int (length buf)"
  shows "\<exists>rc buf' d. MQTTSerialize_connect buf buflen c = Some (rc, buf') \<and>
    MQTTDeserialize_connect d0 protocol buf' (int (length buf')) = Some (1, d) \<and> connect_matches c d"
  using assms(1) TrueI assms(2,3) by (rule connect_codec.roundtrip)

text \<open>The connect data of \<open>example_connect\<close> has a will and credentials.\<close>

definition example_connect :: MQTTPacket_connectData where
  "example_connect = (let str = (\<lambda>bs. \<lparr>cstring = Ptr (bs @ [0]), lenstring = \<lparr>len = 0, data = Null\<rparr>\<rparr>) in
     MQTTPacket_connectData_initializer\<lparr>cd_clientID := str [81, 82], cd_willFlag := 1,
       cd_will := MQTTPacket_willOptions_initializer\<lparr>will_topicName := str [84], will_message := str [77]\<rparr>,
       cd_username := str [85], cd_password := str [80]\<rparr>)"

lemma example_connect_valid:
  "connect_valid_for_server example_connect" "connect_valid example_connect"
  "length (connect_body example_connect) = 26"
  by (simp_all add: connect_valid_for_server_def connect_valid_def example_connect_def wf_string_def
      connect_body_def protocol_bytes_def will_bytes_def credential_bytes_def has_string_def mqtt_content_def
      denotes_def cstring_of_def MQTTPacket_connectData_initializer_def MQTTPacket_willOptions_initializer_def)

theorem connect_roundtrip_witness:
  "\<exists>rc buf' d. MQTTSerialize_connect (replicate 40 0) 40 example_connect = Some (rc, buf') \<and>
    MQTTDeserialize_connect MQTTPacket_connectData_initializer MQTTString_initializer buf' (int (length buf')) =
      Some (1, d) \<and> connect_matches example_connect d"
  by (rule connect_roundtrip) (simp_all add: example_connect_valid MQTTPacket_len_def)

text \<open>
  C23. \<^verbatim>\<open>MQTTSerialize_connect\<close> never writes outside its buffer, and stores the CONNECT packet of the
  standard and returns its length, or leaves the buffer as it was and returns
  \<^verbatim>\<open>MQTTPACKET_BUFFER_TOO_SHORT\<close>, which is -2. The comment of the function announces 0 for an error.
\<close>

theorem connect_serialize_safe:
  assumes "connect_valid c" "buflen \<le> int (length buf)"
  shows "\<exists>rc buf'. MQTTSerialize_connect buf buflen c = Some (rc, buf') \<and> length buf' = length buf \<and>
    (rc = MQTTPACKET_BUFFER_TOO_SHORT \<and> buf' = buf \<or>
     rc = int (length (connect_wire c)) \<and> rc \<le> buflen \<and> take (nat rc) buf' = connect_wire c \<and>
     drop (nat rc) buf' = drop (nat rc) buf)"
  using assms by (rule connect_ser.never_faults)

theorem connect_serialize_safe_witness:
  "\<exists>rc buf'. MQTTSerialize_connect (replicate 40 0) 40 example_connect = Some (rc, buf') \<and>
    length buf' = length (replicate 40 (0 :: byte)) \<and>
    (rc = MQTTPACKET_BUFFER_TOO_SHORT \<and> buf' = replicate 40 0 \<or>
     rc = int (length (connect_wire example_connect)) \<and> rc \<le> 40 \<and>
     take (nat rc) buf' = connect_wire example_connect \<and> drop (nat rc) buf' = drop (nat rc) (replicate 40 0))"
  by (rule connect_serialize_safe) (simp_all add: example_connect_valid)

text \<open>
  On every complete packet \<^verbatim>\<open>MQTTDeserialize_connack\<close> returns without a fault, and its result
  depends on the packet in three ways: another packet type gives 0, a body of two bytes or more
  gives 1 with the session present flag and the return code of the packet, and a CONNACK body
  shorter than that gives 1 as well, with the output parameters left unassigned.
\<close>

lemma connack_deserialize_cases:
  assumes "length body < 268435456"
  shows "MQTTDeserialize_connack out (packet_bytes h body @ rest) =
    Some (if header_type h \<noteq> msgType CONNACK then (0, out)
          else if length body < 2 then (1, out)
          else (1, connack_sessionpresent (body ! 0), body ! 1))"
proof (cases "header_type h = msgType CONNACK")
  case True
  then show ?thesis
    using connack_short_body [OF True, of body out rest] connack_result [OF True _ assms, of out rest] by simp
qed (simp add: MQTTDeserialize_connack_def read_header)

text \<open>
  C24. \<^verbatim>\<open>MQTTSerialize_connack\<close> writes four bytes as soon as \<^verbatim>\<open>buflen\<close> is at least two: with a buffer
  of two or three bytes it writes behind the buffer.
\<close>

theorem connack_serialize_overrun:
  assumes "2 \<le> length buf"
  shows "MQTTSerialize_connack buf (int (length buf)) a = None \<longleftrightarrow> length buf < 4"
  using assms by (simp add: serialize_connack_emit emit_def)

theorem connack_serialize_overrun_witness:
  "MQTTSerialize_connack [0, 0, 0] (int (length [0, 0, 0 :: byte])) (1, 0) = None \<longleftrightarrow> length [0, 0, 0 :: byte] < 4"
  by (rule connack_serialize_overrun) simp

end
