(* ===== verification/Packet_Subscribe.thy ===== *)
theory Packet_Subscribe
  imports Packet_Publish Packet_Connect
begin

text \<open>
  SUBSCRIBE, SUBACK, UNSUBSCRIBE and UNSUBACK: \<^verbatim>\<open>MQTTSubscribeClient.c\<close>, \<^verbatim>\<open>MQTTSubscribeServer.c\<close>,
  \<^verbatim>\<open>MQTTUnsubscribeClient.c\<close>, \<^verbatim>\<open>MQTTUnsubscribeServer.c\<close>. The arrays of topic filters and of
  qualities of service are lists of the length of the caller's array, so an access beyond the
  array is a fault. The first part translates the functions, the second gives the wire format
  and proves that the serializers write it and the deserializers read it back, the last part is
  about packets the peer can send and the serializers do not produce.
\<close>

subsection \<open>Client side\<close>

record subscribe =
  sub_dup :: byte
  sub_packetid :: u16
  sub_count :: int
  sub_topicFilters :: "MQTTString list"
  sub_requestedQoSs :: "int list"

text \<open>The loops run over the first \<open>n\<close> elements of the arrays; \<open>n\<close> counts the iterations left.\<close>

fun subscribeLength_loop :: "nat \<Rightarrow> MQTTString list \<Rightarrow> int \<Rightarrow> int option" where
  "subscribeLength_loop 0 topicFilters l = Some l"
| "subscribeLength_loop (Suc n) [] l = None"
| "subscribeLength_loop (Suc n) (t # topicFilters) l = do {
     k \<leftarrow> MQTTstrlen t;
     subscribeLength_loop n topicFilters (to_int (l + (2 + k + 1)))
   }"

definition MQTTSerialize_subscribeLength :: "int \<Rightarrow> MQTTString list \<Rightarrow> int option" where
  "MQTTSerialize_subscribeLength count topicFilters = subscribeLength_loop (nat count) topicFilters 2"

fun subscribe_write_loop :: "nat \<Rightarrow> MQTTString list \<Rightarrow> int list \<Rightarrow> wptr \<Rightarrow> wptr option" where
  "subscribe_write_loop 0 topicFilters requestedQoSs w = Some w"
| "subscribe_write_loop (Suc n) (t # topicFilters) (q # requestedQoSs) w = do {
     w \<leftarrow> writeMQTTString w t;
     w \<leftarrow> writeChar w (word_of_int q);
     subscribe_write_loop n topicFilters requestedQoSs w
   }"
| "subscribe_write_loop (Suc n) _ _ w = None"

definition MQTTSerialize_subscribe :: "byte list \<Rightarrow> int \<Rightarrow> subscribe \<Rightarrow> (int \<times> byte list) option" where
  "MQTTSerialize_subscribe buf buflen a = do {
     rem_len \<leftarrow> MQTTSerialize_subscribeLength (sub_count a) (sub_topicFilters a);
     if MQTTPacket_len rem_len > buflen then Some (MQTTPACKET_BUFFER_TOO_SHORT, buf)
     else do {
       w \<leftarrow> writeChar (buf, 0) (header_byte (msgType SUBSCRIBE) (sub_dup a) 1 0);
       w \<leftarrow> encode_at w rem_len;
       w \<leftarrow> writeInt w (uint (sub_packetid a));
       w \<leftarrow> subscribe_write_loop (nat (sub_count a)) (sub_topicFilters a) (sub_requestedQoSs a) w;
       Some (int (snd w), fst w)
     }
   }"

text \<open>
  \<^verbatim>\<open>readChar\<close> returns a \<^verbatim>\<open>char\<close>, which is signed here, so a granted quality of service is the
  signed value of its byte. \<open>n\<close> is \<^verbatim>\<open>enddata - curdata\<close>.
\<close>

record suback =
  suback_packetid :: u16
  suback_count :: int
  suback_grantedQoSs :: "int list"

fun suback_loop :: "nat \<Rightarrow> int \<Rightarrow> suback \<Rightarrow> byte list \<Rightarrow> nat \<Rightarrow> (int \<times> suback) option" where
  "suback_loop 0 maxcount out buf curdata = Some (1, out)"
| "suback_loop (Suc n) maxcount out buf curdata =
     (if suback_count out > maxcount then Some (- 1, out)
      else do {
        (c, curdata) \<leftarrow> readChar buf curdata;
        qs \<leftarrow> store (suback_grantedQoSs out) (nat (suback_count out)) (sint c);
        suback_loop n maxcount
          (out\<lparr>suback_grantedQoSs := qs, suback_count := to_int (suback_count out + 1)\<rparr>) buf curdata
      })"

definition MQTTDeserialize_suback :: "int \<Rightarrow> suback \<Rightarrow> byte list \<Rightarrow> (int \<times> suback) option" where
  "MQTTDeserialize_suback maxcount out buf = do {
     (header, curdata) \<leftarrow> readChar buf 0;
     if header_type header \<noteq> msgType SUBACK then Some (0, out)
     else do {
       (rc, mylen) \<leftarrow> MQTTPacket_decodeBuf buf curdata;
       let curdata = curdata + nat rc;
       if mylen < 2 then Some (rc, out)
       else do {
         (packetid, curdata) \<leftarrow> readInt buf curdata;
         suback_loop (nat (mylen - 2)) maxcount
           (out\<lparr>suback_packetid := word_of_int packetid, suback_count := 0\<rparr>) buf curdata
       }
     }
   }"

record unsubscribe =
  unsub_dup :: byte
  unsub_packetid :: u16
  unsub_count :: int
  unsub_topicFilters :: "MQTTString list"

fun unsubscribeLength_loop :: "nat \<Rightarrow> MQTTString list \<Rightarrow> int \<Rightarrow> int option" where
  "unsubscribeLength_loop 0 topicFilters l = Some l"
| "unsubscribeLength_loop (Suc n) [] l = None"
| "unsubscribeLength_loop (Suc n) (t # topicFilters) l = do {
     k \<leftarrow> MQTTstrlen t;
     unsubscribeLength_loop n topicFilters (to_int (l + (2 + k)))
   }"

definition MQTTSerialize_unsubscribeLength :: "int \<Rightarrow> MQTTString list \<Rightarrow> int option" where
  "MQTTSerialize_unsubscribeLength count topicFilters = unsubscribeLength_loop (nat count) topicFilters 2"

fun unsubscribe_write_loop :: "nat \<Rightarrow> MQTTString list \<Rightarrow> wptr \<Rightarrow> wptr option" where
  "unsubscribe_write_loop 0 topicFilters w = Some w"
| "unsubscribe_write_loop (Suc n) [] w = None"
| "unsubscribe_write_loop (Suc n) (t # topicFilters) w = do {
     w \<leftarrow> writeMQTTString w t;
     unsubscribe_write_loop n topicFilters w
   }"

definition MQTTSerialize_unsubscribe :: "byte list \<Rightarrow> int \<Rightarrow> unsubscribe \<Rightarrow> (int \<times> byte list) option" where
  "MQTTSerialize_unsubscribe buf buflen a = do {
     rem_len \<leftarrow> MQTTSerialize_unsubscribeLength (unsub_count a) (unsub_topicFilters a);
     if MQTTPacket_len rem_len > buflen then Some (MQTTPACKET_BUFFER_TOO_SHORT, buf)
     else do {
       w \<leftarrow> writeChar (buf, 0) (header_byte (msgType UNSUBSCRIBE) (unsub_dup a) 1 0);
       w \<leftarrow> encode_at w rem_len;
       w \<leftarrow> writeInt w (uint (unsub_packetid a));
       w \<leftarrow> unsubscribe_write_loop (nat (unsub_count a)) (unsub_topicFilters a) w;
       Some (int (snd w), fst w)
     }
   }"

definition MQTTDeserialize_unsuback :: "u16 \<Rightarrow> byte list \<Rightarrow> (int \<times> u16) option" where
  "MQTTDeserialize_unsuback packetid buf = do {
     (rc, type, dup, packetid) \<leftarrow> MQTTDeserialize_ack (0, 0, packetid) buf;
     Some (if uint type = msgType UNSUBACK then 1 else rc, packetid)
   }"

subsection \<open>Server side\<close>

text \<open>
  The loops of the server's deserializers do not look at \<^verbatim>\<open>maxcount\<close>. Every completed iteration
  consumes at least the two bytes of a string length.
\<close>

lemma readMQTTLenString_advances:
  "readMQTTLenString m buf p enddata = Some (rc, m', p') \<Longrightarrow> rc \<noteq> 0 \<Longrightarrow> p < p' \<and> int p' \<le> enddata"
  using readMQTTLenString_cases by fastforce

function subscribe_read_loop ::
  "subscribe \<Rightarrow> int \<Rightarrow> byte list \<Rightarrow> nat \<Rightarrow> int \<Rightarrow> (int \<times> subscribe) option" where
  "subscribe_read_loop out rc buf curdata enddata =
     (if int curdata < enddata then do {
        t \<leftarrow> fetch (sub_topicFilters out) (nat (sub_count out));
        (ok, t, curdata') \<leftarrow> readMQTTLenString t buf curdata enddata;
        ts \<leftarrow> store (sub_topicFilters out) (nat (sub_count out)) t;
        let out = out\<lparr>sub_topicFilters := ts\<rparr>;
        if ok = 0 then Some (rc, out)
        else if int curdata' \<ge> enddata then Some (rc, out)
        else do {
          (c, curdata') \<leftarrow> readChar buf curdata';
          qs \<leftarrow> store (sub_requestedQoSs out) (nat (sub_count out)) (sint c);
          subscribe_read_loop (out\<lparr>sub_requestedQoSs := qs, sub_count := to_int (sub_count out + 1)\<rparr>)
            rc buf curdata' enddata
        }
      }
      else Some (1, out))"
  by auto

termination
  by (relation "measure (\<lambda>(out, rc, buf, curdata, enddata). nat (enddata - int curdata))")
    (auto simp: readChar_def bind_eq_Some_conv fetch_eq_Some_iff dest!: readMQTTLenString_advances)

declare subscribe_read_loop.simps [simp del]

definition MQTTDeserialize_subscribe :: "subscribe \<Rightarrow> byte list \<Rightarrow> (int \<times> subscribe) option" where
  "MQTTDeserialize_subscribe out buf = do {
     (header, curdata) \<leftarrow> readChar buf 0;
     if header_type header \<noteq> msgType SUBSCRIBE then Some (- 1, out)
     else do {
       let out = out\<lparr>sub_dup := header_dup header\<rparr>;
       (rc, mylen) \<leftarrow> MQTTPacket_decodeBuf buf curdata;
       let curdata = curdata + nat rc;
       let enddata = int curdata + mylen;
       (packetid, curdata) \<leftarrow> readInt buf curdata;
       subscribe_read_loop (out\<lparr>sub_packetid := word_of_int packetid, sub_count := 0\<rparr>) rc buf curdata enddata
     }
   }"

fun suback_write_loop :: "nat \<Rightarrow> int list \<Rightarrow> wptr \<Rightarrow> wptr option" where
  "suback_write_loop 0 grantedQoSs w = Some w"
| "suback_write_loop (Suc n) [] w = None"
| "suback_write_loop (Suc n) (q # grantedQoSs) w = do {
     w \<leftarrow> writeChar w (word_of_int q);
     suback_write_loop n grantedQoSs w
   }"

definition MQTTSerialize_suback :: "byte list \<Rightarrow> int \<Rightarrow> suback \<Rightarrow> (int \<times> byte list) option" where
  "MQTTSerialize_suback buf buflen a =
     (if buflen < to_int (2 + suback_count a) then Some (MQTTPACKET_BUFFER_TOO_SHORT, buf)
      else do {
        w \<leftarrow> writeChar (buf, 0) (header_byte (msgType SUBACK) 0 0 0);
        w \<leftarrow> encode_at w (to_int (2 + suback_count a));
        w \<leftarrow> writeInt w (uint (suback_packetid a));
        w \<leftarrow> suback_write_loop (nat (suback_count a)) (suback_grantedQoSs a) w;
        Some (int (snd w), fst w)
      })"

function unsubscribe_read_loop ::
  "unsubscribe \<Rightarrow> int \<Rightarrow> byte list \<Rightarrow> nat \<Rightarrow> int \<Rightarrow> (int \<times> unsubscribe) option" where
  "unsubscribe_read_loop out rc buf curdata enddata =
     (if int curdata < enddata then do {
        t \<leftarrow> fetch (unsub_topicFilters out) (nat (unsub_count out));
        (ok, t, curdata') \<leftarrow> readMQTTLenString t buf curdata enddata;
        ts \<leftarrow> store (unsub_topicFilters out) (nat (unsub_count out)) t;
        let out = out\<lparr>unsub_topicFilters := ts\<rparr>;
        if ok = 0 then Some (rc, out)
        else unsubscribe_read_loop (out\<lparr>unsub_count := to_int (unsub_count out + 1)\<rparr>) rc buf curdata' enddata
      }
      else Some (1, out))"
  by auto

termination
  by (relation "measure (\<lambda>(out, rc, buf, curdata, enddata). nat (enddata - int curdata))")
    (auto simp: bind_eq_Some_conv dest!: readMQTTLenString_advances)

declare unsubscribe_read_loop.simps [simp del]

definition MQTTDeserialize_unsubscribe :: "unsubscribe \<Rightarrow> byte list \<Rightarrow> (int \<times> unsubscribe) option" where
  "MQTTDeserialize_unsubscribe out buf = do {
     (header, curdata) \<leftarrow> readChar buf 0;
     if header_type header \<noteq> msgType UNSUBSCRIBE then Some (0, out)
     else do {
       let out = out\<lparr>unsub_dup := header_dup header\<rparr>;
       (rc, mylen) \<leftarrow> MQTTPacket_decodeBuf buf curdata;
       let curdata = curdata + nat rc;
       let enddata = int curdata + mylen;
       (packetid, curdata) \<leftarrow> readInt buf curdata;
       unsubscribe_read_loop (out\<lparr>unsub_packetid := word_of_int packetid, unsub_count := 0\<rparr>)
         rc buf curdata enddata
     }
   }"

definition MQTTSerialize_unsuback :: "byte list \<Rightarrow> int \<Rightarrow> u16 \<Rightarrow> (int \<times> byte list) option" where
  "MQTTSerialize_unsuback buf buflen packetid =
     (if buflen < 2 then Some (MQTTPACKET_BUFFER_TOO_SHORT, buf)
      else do {
        w \<leftarrow> writeChar (buf, 0) (header_byte (msgType UNSUBACK) 0 0 0);
        w \<leftarrow> encode_at w 2;
        w \<leftarrow> writeInt w (uint packetid);
        Some (int (snd w), fst w)
      })"

subsection \<open>Wire format\<close>

text \<open>
  The packets of the MQTT standard, sections 3.8 to 3.11. \<open>subscription_bytes\<close> is one entry of
  the payload of a SUBSCRIBE packet.
\<close>

definition subscription_bytes :: "MQTTString \<times> int \<Rightarrow> byte list" where
  "subscription_bytes = (\<lambda>(t, q). utf_bytes (mqtt_content t) @ [word_of_int q])"

definition subscriptions :: "subscribe \<Rightarrow> (MQTTString \<times> int) list" where
  "subscriptions a = zip (take (nat (sub_count a)) (sub_topicFilters a)) (take (nat (sub_count a)) (sub_requestedQoSs a))"

definition subscribe_body :: "subscribe \<Rightarrow> byte list" where
  "subscribe_body a = int_bytes (uint (sub_packetid a)) @ concat (map subscription_bytes (subscriptions a))"

definition subscribe_wire :: "subscribe \<Rightarrow> byte list" where
  "subscribe_wire a = packet_bytes (header_byte (msgType SUBSCRIBE) (sub_dup a) 1 0) (subscribe_body a)"

definition subscribe_valid :: "subscribe \<Rightarrow> bool" where
  "subscribe_valid a \<longleftrightarrow> 0 \<le> sub_count a \<and> nat (sub_count a) \<le> length (sub_topicFilters a) \<and>
     nat (sub_count a) \<le> length (sub_requestedQoSs a) \<and>
     (\<forall>(t, q) \<in> set (subscriptions a). wf_string t) \<and> length (subscribe_body a) < 268435456"

definition unsubscribe_body :: "unsubscribe \<Rightarrow> byte list" where
  "unsubscribe_body a = int_bytes (uint (unsub_packetid a)) @
     concat (map (utf_bytes \<circ> mqtt_content) (take (nat (unsub_count a)) (unsub_topicFilters a)))"

definition unsubscribe_wire :: "unsubscribe \<Rightarrow> byte list" where
  "unsubscribe_wire a = packet_bytes (header_byte (msgType UNSUBSCRIBE) (unsub_dup a) 1 0) (unsubscribe_body a)"

definition unsubscribe_valid :: "unsubscribe \<Rightarrow> bool" where
  "unsubscribe_valid a \<longleftrightarrow> 0 \<le> unsub_count a \<and> nat (unsub_count a) \<le> length (unsub_topicFilters a) \<and>
     (\<forall>t \<in> set (take (nat (unsub_count a)) (unsub_topicFilters a)). wf_string t) \<and>
     length (unsubscribe_body a) < 268435456"

definition suback_body :: "suback \<Rightarrow> byte list" where
  "suback_body a = int_bytes (uint (suback_packetid a)) @
     map word_of_int (take (nat (suback_count a)) (suback_grantedQoSs a))"

definition suback_wire :: "suback \<Rightarrow> byte list" where
  "suback_wire a = packet_bytes (header_byte (msgType SUBACK) 0 0 0) (suback_body a)"

definition suback_valid :: "suback \<Rightarrow> bool" where
  "suback_valid a \<longleftrightarrow> 0 \<le> suback_count a \<and> nat (suback_count a) \<le> length (suback_grantedQoSs a) \<and>
     suback_count a < 268435454"

definition unsuback_wire :: "u16 \<Rightarrow> byte list" where
  "unsuback_wire packetid = packet_bytes (header_byte (msgType UNSUBACK) 0 0 0) (int_bytes (uint packetid))"

subsection \<open>The serializers store the standard packets\<close>

lemma subscribeLength_loop_sum:
  assumes "\<forall>(t, q) \<in> set (zip (take n ts) (take n qs)). wf_string t" "n \<le> length ts" "n \<le> length qs" "0 \<le> l"
    "l + int (length (concat (map subscription_bytes (zip (take n ts) (take n qs))))) < 268435456"
  shows "subscribeLength_loop n ts l =
    Some (l + int (length (concat (map subscription_bytes (zip (take n ts) (take n qs))))))"
  using assms
proof (induction n ts l arbitrary: qs rule: subscribeLength_loop.induct)
  case (3 n t ts l)
  then obtain q qs' where qs: "qs = q # qs'" by (cases qs) auto
  with "3.prems" have d: "MQTTstrlen t = Some (int (length (mqtt_content t)))"
    by (simp add: wf_string_def MQTTstrlen_denotes)
  show ?case
    using "3.prems" "3.IH" [of "int (length (mqtt_content t))" qs'] d
    by (simp add: qs subscription_bytes_def algebra_simps)
qed (auto simp: subscription_bytes_def)

lemma subscribe_write_loop_emit:
  assumes "\<forall>(t, q) \<in> set (zip (take n ts) (take n qs)). wf_string t" "n \<le> length ts" "n \<le> length qs"
  shows "emit bs w \<bind> subscribe_write_loop n ts qs =
    emit (bs @ concat (map subscription_bytes (zip (take n ts) (take n qs)))) w"
  using assms
proof (induction n arbitrary: ts qs bs)
  case (Suc n)
  then obtain t ts' q qs' where ts: "ts = t # ts'" and qs: "qs = q # qs'" by (cases ts; cases qs) auto
  with Suc.prems have d: "denotes t (mqtt_content t)" by (simp add: wf_string_def)
  show ?case
    using Suc.prems Suc.IH [of ts' qs' "bs @ subscription_bytes (t, q)"]
    by (simp add: ts qs emit_simps writeMQTTString_emit [OF d] subscription_bytes_def)
qed (auto split: Option.bind_split)

lemma unsubscribeLength_loop_sum:
  assumes "\<forall>t \<in> set (take n ts). wf_string t" "n \<le> length ts" "0 \<le> l"
    "l + int (length (concat (map (utf_bytes \<circ> mqtt_content) (take n ts)))) < 268435456"
  shows "unsubscribeLength_loop n ts l =
    Some (l + int (length (concat (map (utf_bytes \<circ> mqtt_content) (take n ts)))))"
  using assms
proof (induction n ts l rule: unsubscribeLength_loop.induct)
  case (3 n t ts l)
  then have d: "MQTTstrlen t = Some (int (length (mqtt_content t)))"
    by (simp add: wf_string_def MQTTstrlen_denotes)
  show ?case
    using "3.prems" "3.IH" [of "int (length (mqtt_content t))"] d by (simp add: algebra_simps)
qed auto

lemma unsubscribe_write_loop_emit:
  assumes "\<forall>t \<in> set (take n ts). wf_string t" "n \<le> length ts"
  shows "emit bs w \<bind> unsubscribe_write_loop n ts =
    emit (bs @ concat (map (utf_bytes \<circ> mqtt_content) (take n ts))) w"
  using assms
proof (induction n arbitrary: ts bs)
  case (Suc n)
  then obtain t ts' where ts: "ts = t # ts'" by (cases ts) auto
  with Suc.prems have d: "denotes t (mqtt_content t)" by (simp add: wf_string_def)
  show ?case
    using Suc.prems Suc.IH [of ts' "bs @ utf_bytes (mqtt_content t)"]
    by (simp add: ts emit_simps writeMQTTString_emit [OF d])
qed (auto split: Option.bind_split)

lemma suback_write_loop_emit:
  "n \<le> length qs \<Longrightarrow> emit bs w \<bind> suback_write_loop n qs = emit (bs @ map word_of_int (take n qs)) w"
proof (induction n arbitrary: qs bs)
  case (Suc n)
  then obtain q qs' where qs: "qs = q # qs'" by (cases qs) auto
  show ?case
    using Suc.prems Suc.IH [of qs' "bs @ [word_of_int q]"] by (simp add: qs emit_simps)
qed (auto split: Option.bind_split)

lemma subscribeLength_body:
  "subscribe_valid a \<Longrightarrow>
     MQTTSerialize_subscribeLength (sub_count a) (sub_topicFilters a) = Some (int (length (subscribe_body a)))"
  using subscribeLength_loop_sum [of "nat (sub_count a)" "sub_topicFilters a" "sub_requestedQoSs a" 2]
  by (auto simp: MQTTSerialize_subscribeLength_def subscribe_valid_def subscribe_body_def subscriptions_def)

lemma unsubscribeLength_body:
  "unsubscribe_valid a \<Longrightarrow>
     MQTTSerialize_unsubscribeLength (unsub_count a) (unsub_topicFilters a) = Some (int (length (unsubscribe_body a)))"
  using unsubscribeLength_loop_sum [of "nat (unsub_count a)" "unsub_topicFilters a" 2]
  by (auto simp: MQTTSerialize_unsubscribeLength_def unsubscribe_valid_def unsubscribe_body_def)

interpretation subscribe_ser: checked_serializer subscribe_wire MQTTSerialize_subscribe subscribe_valid
  "\<lambda>a. MQTTPacket_len (int (length (subscribe_body a)))"
proof unfold_locales
  fix a buflen and buf :: "byte list"
  assume v: "subscribe_valid a"
  then have small: "length (subscribe_body a) < 268435456" by (simp add: subscribe_valid_def)
  show need: "int (length (subscribe_wire a)) \<le> MQTTPacket_len (int (length (subscribe_body a)))"
    using MQTTPacket_len_bounds(1) [of "int (length (subscribe_body a))"] small
    by (simp add: subscribe_wire_def length_packet_bytes)
  show "buflen < MQTTPacket_len (int (length (subscribe_body a))) \<Longrightarrow>
      MQTTSerialize_subscribe buf buflen a = Some (MQTTPACKET_BUFFER_TOO_SHORT, buf)"
    by (simp add: MQTTSerialize_subscribe_def subscribeLength_body [OF v])
  assume fit: "MQTTPacket_len (int (length (subscribe_body a))) \<le> buflen" "buflen \<le> int (length buf)"
  define loop where "loop = subscribe_write_loop (nat (sub_count a)) (sub_topicFilters a) (sub_requestedQoSs a)"
  have loop: "emit bs w \<bind> (\<lambda>w. loop w \<bind> k) = emit (bs @ concat (map subscription_bytes (subscriptions a))) w \<bind> k"
    for bs w and k :: "wptr \<Rightarrow> (int \<times> byte list) option"
    using subscribe_write_loop_emit [of "nat (sub_count a)" "sub_topicFilters a" "sub_requestedQoSs a" bs w] v
    by (simp add: subscribe_valid_def subscriptions_def loop_def flip: bind_assoc)
  have "MQTTSerialize_subscribe buf buflen a =
      emit (subscribe_wire a) (buf, 0) \<bind> (\<lambda>w. Some (int (snd w), fst w))"
    using fit
    by (simp add: MQTTSerialize_subscribe_def subscribeLength_body [OF v] emit_simps loop subscribe_wire_def
        packet_bytes_def flip: loop_def) (simp add: subscribe_body_def)
  then show "MQTTSerialize_subscribe buf buflen a =
      Some (int (length (subscribe_wire a)), overwrite buf 0 (subscribe_wire a))"
    using need fit by (simp add: emit_start)
qed

interpretation unsubscribe_ser: checked_serializer unsubscribe_wire MQTTSerialize_unsubscribe unsubscribe_valid
  "\<lambda>a. MQTTPacket_len (int (length (unsubscribe_body a)))"
proof unfold_locales
  fix a buflen and buf :: "byte list"
  assume v: "unsubscribe_valid a"
  then have small: "length (unsubscribe_body a) < 268435456" by (simp add: unsubscribe_valid_def)
  show need: "int (length (unsubscribe_wire a)) \<le> MQTTPacket_len (int (length (unsubscribe_body a)))"
    using MQTTPacket_len_bounds(1) [of "int (length (unsubscribe_body a))"] small
    by (simp add: unsubscribe_wire_def length_packet_bytes)
  show "buflen < MQTTPacket_len (int (length (unsubscribe_body a))) \<Longrightarrow>
      MQTTSerialize_unsubscribe buf buflen a = Some (MQTTPACKET_BUFFER_TOO_SHORT, buf)"
    by (simp add: MQTTSerialize_unsubscribe_def unsubscribeLength_body [OF v])
  assume fit: "MQTTPacket_len (int (length (unsubscribe_body a))) \<le> buflen" "buflen \<le> int (length buf)"
  define loop where "loop = unsubscribe_write_loop (nat (unsub_count a)) (unsub_topicFilters a)"
  have loop: "emit bs w \<bind> (\<lambda>w. loop w \<bind> k) =
      emit (bs @ concat (map (utf_bytes \<circ> mqtt_content) (take (nat (unsub_count a)) (unsub_topicFilters a)))) w \<bind> k"
    for bs w and k :: "wptr \<Rightarrow> (int \<times> byte list) option"
    using unsubscribe_write_loop_emit [of "nat (unsub_count a)" "unsub_topicFilters a" bs w] v
    by (simp add: unsubscribe_valid_def loop_def flip: bind_assoc)
  have "MQTTSerialize_unsubscribe buf buflen a =
      emit (unsubscribe_wire a) (buf, 0) \<bind> (\<lambda>w. Some (int (snd w), fst w))"
    using fit
    by (simp add: MQTTSerialize_unsubscribe_def unsubscribeLength_body [OF v] emit_simps loop unsubscribe_wire_def
        packet_bytes_def flip: loop_def) (simp add: unsubscribe_body_def)
  then show "MQTTSerialize_unsubscribe buf buflen a =
      Some (int (length (unsubscribe_wire a)), overwrite buf 0 (unsubscribe_wire a))"
    using need fit by (simp add: emit_start)
qed

lemma length_suback_body: "suback_valid a \<Longrightarrow> int (length (suback_body a)) = 2 + suback_count a"
  by (simp add: suback_valid_def suback_body_def)

text \<open>The guard of \<^verbatim>\<open>MQTTSerialize_suback\<close> forgets the fixed header.\<close>

lemma serialize_suback_emit:
  assumes v: "suback_valid a" and "2 + suback_count a \<le> buflen"
  shows "MQTTSerialize_suback buf buflen a = emit (suback_wire a) (buf, 0) \<bind> (\<lambda>w. Some (int (snd w), fst w))"
proof -
  define loop where "loop = suback_write_loop (nat (suback_count a)) (suback_grantedQoSs a)"
  have loop: "emit bs w \<bind> (\<lambda>w. loop w \<bind> k) =
      emit (bs @ map word_of_int (take (nat (suback_count a)) (suback_grantedQoSs a))) w \<bind> k"
    for bs w and k :: "wptr \<Rightarrow> (int \<times> byte list) option"
    using suback_write_loop_emit [of "nat (suback_count a)" "suback_grantedQoSs a" bs w] v
    by (simp add: suback_valid_def loop_def flip: bind_assoc)
  have len: "to_int (2 + suback_count a) = int (length (suback_body a))"
    using v by (simp add: length_suback_body suback_valid_def)
  have "length (suback_body a) < 268435456" "\<not> buflen < int (length (suback_body a))"
    using assms length_suback_body [OF v] by (auto simp: suback_valid_def)
  then show ?thesis
    by (simp add: MQTTSerialize_suback_def len emit_simps loop suback_wire_def packet_bytes_def flip: loop_def)
      (simp add: suback_body_def)
qed

interpretation suback_ser: serializer suback_wire MQTTSerialize_suback suback_valid "\<lambda>a. int (length (suback_wire a))"
proof unfold_locales
  fix a buflen and buf :: "byte list"
  assume v: "suback_valid a" and fit: "int (length (suback_wire a)) \<le> buflen" "buflen \<le> int (length buf)"
  have "2 + suback_count a \<le> buflen"
    using length_suback_body [OF v] fit by (simp add: suback_wire_def length_packet_bytes)
  from serialize_suback_emit [OF v this] fit
  show "MQTTSerialize_suback buf buflen a = Some (int (length (suback_wire a)), overwrite buf 0 (suback_wire a))"
    by (simp add: emit_start)
qed simp

subsection \<open>The deserializers read the standard packets back\<close>

text \<open>A byte written from an \<^verbatim>\<open>int\<close> and read back through a \<^verbatim>\<open>char\<close>.\<close>

definition through_char :: "int \<Rightarrow> int" where
  "through_char q = sint (word_of_int q :: byte)"

lemma through_char_id: "- 128 \<le> q \<Longrightarrow> q < 128 \<Longrightarrow> through_char q = q"
  by (simp add: through_char_def sint_sbintrunc' signed_take_bit_int_eq_self)

lemma suback_loop_reads:
  assumes "drop p buf = cs @ rest" "suback_count out = int k" "k + length cs \<le> length (suback_grantedQoSs out)"
    "int (k + length cs) \<le> maxcount + 1" "k + length cs < 2147483648"
  shows "suback_loop (length cs) maxcount out buf p =
    Some (1, out\<lparr>suback_grantedQoSs := take k (suback_grantedQoSs out) @ map sint cs @ drop (k + length cs) (suback_grantedQoSs out),
                 suback_count := int (k + length cs)\<rparr>)"
  using assms
proof (induction cs arbitrary: p out k)
  case Nil
  then show ?case by simp
next
  case (Cons c cs)
  let ?g = "suback_grantedQoSs out"
  let ?out = "out\<lparr>suback_grantedQoSs := ?g[k := sint c], suback_count := int (Suc k)\<rparr>"
  have c: "drop p buf = c # cs @ rest" using Cons.prems by simp
  have k: "k < length ?g" using Cons.prems by simp
  have t: "take (Suc k) (?g[k := sint c]) = take k ?g @ [sint c]"
    using k by (simp add: take_Suc_conv_app_nth)
  have "suback_loop (length cs) maxcount ?out buf (p + 1) =
    Some (1, ?out\<lparr>suback_grantedQoSs := take (Suc k) (suback_grantedQoSs ?out) @ map sint cs @ drop (Suc k + length cs) (suback_grantedQoSs ?out),
                 suback_count := int (Suc k + length cs)\<rparr>)"
    by (rule Cons.IH) (use Cons.prems drop_eq_ConsD(3) [OF c] in simp_all)
  then show ?case
    using Cons.prems k t readChar_prefix [OF c] by (simp add: add.commute)
qed

definition suback_matches :: "suback \<Rightarrow> suback \<Rightarrow> bool" where
  "suback_matches a out \<longleftrightarrow> suback_packetid out = suback_packetid a \<and> suback_count out = suback_count a \<and>
     take (nat (suback_count a)) (suback_grantedQoSs out) =
       map through_char (take (nat (suback_count a)) (suback_grantedQoSs a))"

definition suback_room :: "int \<Rightarrow> suback \<Rightarrow> suback \<Rightarrow> bool" where
  "suback_room maxcount a out \<longleftrightarrow> suback_count a \<le> maxcount \<and> maxcount \<le> int (length (suback_grantedQoSs out))"

lemma deserialize_suback_start:
  assumes "length body < 268435456" "header_type h = msgType SUBACK"
    and "body = int_bytes (uint i) @ cs" "buf = packet_bytes h body @ rest"
  shows "MQTTDeserialize_suback maxcount out buf =
    suback_loop (length cs) maxcount (out\<lparr>suback_packetid := i, suback_count := 0\<rparr>) buf
      (3 + length (remlen_bytes (length body)))"
    and "drop (3 + length (remlen_bytes (length body))) buf = cs @ rest"
proof -
  define r where "r = length (remlen_bytes (length body))"
  define p where "p = 1 + r"
  have start: "readChar buf 0 = Some (h, 1)" "MQTTPacket_decodeBuf buf 1 = Some (int r, int (length body))"
    using read_remlen [OF assms(1), of h rest] by (simp_all add: assms(4) r_def read_header)
  have at: "drop p buf = int_bytes (uint i) @ cs @ rest"
    using drop_packet [of body h rest] by (simp add: assms(3,4) p_def r_def)
  have i: "readInt buf p = Some (uint i, p + 2)"
    by (rule readInt_prefix [OF at]) (simp_all add: u16_bounds)
  have l: "length body = 2 + length cs" by (simp add: assms(3))
  have p: "3 + length (remlen_bytes (length body)) = p + 2" by (simp add: p_def r_def)
  show "drop (3 + length (remlen_bytes (length body))) buf = cs @ rest"
    unfolding p using drop_append_skip [OF at] by simp
  show "MQTTDeserialize_suback maxcount out buf =
    suback_loop (length cs) maxcount (out\<lparr>suback_packetid := i, suback_count := 0\<rparr>) buf
      (3 + length (remlen_bytes (length body)))"
    unfolding p unfolding MQTTDeserialize_suback_def
    using start assms(2) i l by (simp add: p_def del: One_nat_def)
qed

interpretation suback_codec: packet_codec suback_wire MQTTSerialize_suback suback_valid
  "\<lambda>a. int (length (suback_wire a))" "MQTTDeserialize_suback maxcount" suback_matches "suback_room maxcount"
  for maxcount
proof unfold_locales
  fix a out0 :: suback and rest
  assume v: "suback_valid a" and room: "suback_room maxcount a out0"
  let ?cs = "map word_of_int (take (nat (suback_count a)) (suback_grantedQoSs a)) :: byte list"
  have small: "length (suback_body a) < 268435456" using v length_suback_body [OF v] by (simp add: suback_valid_def)
  have lcs: "length ?cs = nat (suback_count a)" using v by (simp add: suback_valid_def)
  have s: "MQTTDeserialize_suback maxcount out0 (suback_wire a @ rest) =
      suback_loop (length ?cs) maxcount (out0\<lparr>suback_packetid := suback_packetid a, suback_count := 0\<rparr>)
        (suback_wire a @ rest) (3 + length (remlen_bytes (length (suback_body a))))"
    "drop (3 + length (remlen_bytes (length (suback_body a)))) (suback_wire a @ rest) = ?cs @ rest"
    by (rule deserialize_suback_start [OF small _ suback_body_def, where h = "header_byte (msgType SUBACK) 0 0 0"];
        simp add: suback_wire_def)+
  let ?out = "out0\<lparr>suback_packetid := suback_packetid a, suback_count := 0\<rparr>"
  have "suback_loop (length ?cs) maxcount ?out (suback_wire a @ rest) (3 + length (remlen_bytes (length (suback_body a)))) =
    Some (1, ?out\<lparr>suback_grantedQoSs := take 0 (suback_grantedQoSs ?out) @ map sint ?cs @ drop (0 + length ?cs) (suback_grantedQoSs ?out),
                 suback_count := int (0 + length ?cs)\<rparr>)"
    using v room s(2) lcs by (intro suback_loop_reads) (auto simp: suback_valid_def suback_room_def)
  with s(1) v lcs show "\<exists>out. MQTTDeserialize_suback maxcount out0 (suback_wire a @ rest) = Some (1, out) \<and> suback_matches a out"
    by (simp add: suback_matches_def suback_valid_def through_char_def [abs_def] comp_def)
qed

lemma unsubscribe_read_loop_reads:
  assumes "drop p buf = concat (map utf_bytes ss) @ rest" "int p + int (length (concat (map utf_bytes ss))) = enddata"
    "enddata \<le> int (length buf)" "\<forall>s \<in> set ss. length s \<le> 65535" "unsub_count out = int k"
    "k + length ss \<le> length (unsub_topicFilters out)" "k + length ss < 2147483648"
  shows "\<exists>ts. unsubscribe_read_loop out rc buf p enddata =
      Some (1, out\<lparr>unsub_topicFilters := take k (unsub_topicFilters out) @ ts @ drop (k + length ss) (unsub_topicFilters out),
                   unsub_count := int (k + length ss)\<rparr>) \<and> list_all2 denotes ts ss"
  using assms
proof (induction ss arbitrary: p out k)
  case Nil
  then show ?case by (simp add: unsubscribe_read_loop.simps)
next
  case (Cons s ss)
  let ?g = "unsub_topicFilters out"
  have k: "k < length ?g" using Cons.prems by simp
  let ?more = "concat (map utf_bytes ss) @ rest"
  have at: "drop p buf = utf_bytes s @ ?more" using Cons.prems by simp
  define t where "t = string_read (?g ! k) s ?more"
  have r: "readMQTTLenString (?g ! k) buf p enddata = Some (1, t, p + 2 + length s)"
    unfolding t_def string_read_def using Cons.prems
    by (intro readMQTTLenString_utf [OF at]) simp_all
  let ?out = "out\<lparr>unsub_topicFilters := ?g[k := t], unsub_count := int (Suc k)\<rparr>"
  have "drop (p + 2 + length s) buf = ?more" using drop_append_skip [OF at] by (simp add: add.assoc)
  then have "\<exists>ts. unsubscribe_read_loop ?out rc buf (p + 2 + length s) enddata =
      Some (1, ?out\<lparr>unsub_topicFilters := take (Suc k) (unsub_topicFilters ?out) @ ts @
            drop (Suc k + length ss) (unsub_topicFilters ?out), unsub_count := int (Suc k + length ss)\<rparr>) \<and>
      list_all2 denotes ts ss"
    using Cons.prems by (intro Cons.IH) simp_all
  then obtain ts where ts: "unsubscribe_read_loop ?out rc buf (p + 2 + length s) enddata =
      Some (1, ?out\<lparr>unsub_topicFilters := take (Suc k) (unsub_topicFilters ?out) @ ts @
            drop (Suc k + length ss) (unsub_topicFilters ?out), unsub_count := int (Suc k + length ss)\<rparr>)"
    "list_all2 denotes ts ss" by blast
  have "take (Suc k) (?g[k := t]) = take k ?g @ [t]" using k by (simp add: take_Suc_conv_app_nth)
  moreover have "int p < enddata" "int k + 1 < 2147483648" using Cons.prems by auto
  ultimately have "unsubscribe_read_loop out rc buf p enddata =
      Some (1, out\<lparr>unsub_topicFilters := take k ?g @ (t # ts) @ drop (k + length (s # ss)) ?g,
                   unsub_count := int (k + length (s # ss))\<rparr>)"
    using ts(1) k r Cons.prems(5)
    by (subst unsubscribe_read_loop.simps) (simp add: add_ac)
  moreover have "denotes t s" using Cons.prems by (simp add: t_def)
  ultimately show ?case using ts(2) by blast
qed

definition unsubscribe_matches :: "unsubscribe \<Rightarrow> unsubscribe \<Rightarrow> bool" where
  "unsubscribe_matches a out \<longleftrightarrow> uint (unsub_dup out) = uint (unsub_dup a) mod 2 \<and>
     unsub_packetid out = unsub_packetid a \<and> unsub_count out = unsub_count a \<and>
     list_all2 denotes (take (nat (unsub_count a)) (unsub_topicFilters out))
       (map mqtt_content (take (nat (unsub_count a)) (unsub_topicFilters a)))"

definition unsubscribe_room :: "unsubscribe \<Rightarrow> unsubscribe \<Rightarrow> bool" where
  "unsubscribe_room a out \<longleftrightarrow> unsub_count a \<le> int (length (unsub_topicFilters out))"

lemma length_concat_utf: "2 * length ss \<le> length (concat (map utf_bytes ss))"
  by (induction ss) auto

lemma unsubscribe_parse:
  assumes v: "unsubscribe_valid a" and room: "unsubscribe_room a out0"
  shows "\<exists>out. MQTTDeserialize_unsubscribe out0 (unsubscribe_wire a @ rest) = Some (1, out) \<and> unsubscribe_matches a out"
proof -
  define h where "h = header_byte (msgType UNSUBSCRIBE) (unsub_dup a) 1 0"
  define ss where "ss = map mqtt_content (take (nat (unsub_count a)) (unsub_topicFilters a))"
  define r where "r = length (remlen_bytes (length (unsubscribe_body a)))"
  define p where "p = 1 + r"
  define buf where "buf = unsubscribe_wire a @ rest"
  have small: "length (unsubscribe_body a) < 268435456" using v by (simp add: unsubscribe_valid_def)
  have body: "unsubscribe_body a = int_bytes (uint (unsub_packetid a)) @ concat (map utf_bytes ss)"
    by (simp add: unsubscribe_body_def ss_def comp_def)
  have hd: "readChar buf 0 = Some (h, 1)" "header_type h = msgType UNSUBSCRIBE"
    "header_dup h = word_of_int (uint (unsub_dup a) mod 2)"
    and rl: "MQTTPacket_decodeBuf buf 1 = Some (int r, int (length (unsubscribe_body a)))"
    using read_remlen [OF small, of h rest]
    by (simp_all add: buf_def unsubscribe_wire_def read_header r_def h_def)
  have at: "drop p buf = int_bytes (uint (unsub_packetid a)) @ concat (map utf_bytes ss) @ rest"
    using drop_packet [of "unsubscribe_body a" h rest]
    by (simp add: buf_def unsubscribe_wire_def h_def p_def r_def body)
  have i: "readInt buf p = Some (uint (unsub_packetid a), p + 2)"
    by (rule readInt_prefix [OF at]) (simp_all add: u16_bounds)
  have at': "drop (p + 2) buf = concat (map utf_bytes ss) @ rest"
    using drop_append_skip [OF at] by simp
  define out1 where "out1 = out0\<lparr>unsub_dup := header_dup h, unsub_packetid := unsub_packetid a, unsub_count := 0\<rparr>"
  have lss: "length ss = nat (unsub_count a)" using v by (simp add: ss_def unsubscribe_valid_def)
  have "\<exists>ts. unsubscribe_read_loop out1 (int r) buf (p + 2) (int p + int (length (unsubscribe_body a))) =
      Some (1, out1\<lparr>unsub_topicFilters := take 0 (unsub_topicFilters out1) @ ts @ drop (0 + length ss) (unsub_topicFilters out1),
                   unsub_count := int (0 + length ss)\<rparr>) \<and> list_all2 denotes ts ss"
  proof (rule unsubscribe_read_loop_reads [OF at'])
    show "int (p + 2) + int (length (concat (map utf_bytes ss))) = int p + int (length (unsubscribe_body a))"
      by (simp add: body)
    show "int p + int (length (unsubscribe_body a)) \<le> int (length buf)"
      using arg_cong [OF at, of length] by (simp add: body p_def r_def buf_def unsubscribe_wire_def length_packet_bytes)
    show "\<forall>s\<in>set ss. length s \<le> 65535"
      using v by (auto simp: ss_def unsubscribe_valid_def wf_string_length)
    show "0 + length ss < 2147483648" using length_concat_utf [of ss] small by (simp add: body)
  qed (use room lss v in \<open>auto simp: out1_def unsubscribe_room_def unsubscribe_valid_def\<close>)
  then obtain ts where ts: "unsubscribe_read_loop out1 (int r) buf (p + 2) (int p + int (length (unsubscribe_body a))) =
      Some (1, out1\<lparr>unsub_topicFilters := ts @ drop (length ss) (unsub_topicFilters out1), unsub_count := int (length ss)\<rparr>)"
    "list_all2 denotes ts ss" by auto
  have p: "1 + r = p" "1 + int r = int p" by (simp_all add: p_def)
  have "MQTTDeserialize_unsubscribe out0 buf =
      Some (1, out1\<lparr>unsub_topicFilters := ts @ drop (length ss) (unsub_topicFilters out1), unsub_count := int (length ss)\<rparr>)"
    unfolding MQTTDeserialize_unsubscribe_def
    using ts(1) hd rl i by (simp add: Let_def p out1_def del: One_nat_def)
  moreover have "length ts = nat (unsub_count a)" using ts(2) lss list_all2_lengthD by fastforce
  moreover have "0 \<le> unsub_count a" using v by (simp add: unsubscribe_valid_def)
  ultimately show ?thesis
    using ts(2) lss by (simp add: buf_def unsubscribe_matches_def out1_def hd uint_mod_2_byte ss_def)
qed

interpretation unsubscribe_codec: packet_codec unsubscribe_wire MQTTSerialize_unsubscribe unsubscribe_valid
  "\<lambda>a. MQTTPacket_len (int (length (unsubscribe_body a)))" MQTTDeserialize_unsubscribe unsubscribe_matches
  unsubscribe_room
  by unfold_locales (rule unsubscribe_parse)

lemma subscribe_read_loop_reads:
  fixes xs :: "(byte list \<times> byte) list"
  defines "bytes \<equiv> \<lambda>(s, c). utf_bytes s @ [c]"
  assumes "drop p buf = concat (map bytes xs) @ rest" "int p + int (length (concat (map bytes xs))) = enddata"
    "enddata \<le> int (length buf)" "\<forall>(s, c) \<in> set xs. length s \<le> 65535" "sub_count out = int k"
    "k + length xs \<le> length (sub_topicFilters out)" "k + length xs \<le> length (sub_requestedQoSs out)"
    "k + length xs < 2147483648"
  shows "\<exists>ts. subscribe_read_loop out rc buf p enddata =
      Some (1, out\<lparr>sub_topicFilters := take k (sub_topicFilters out) @ ts @ drop (k + length xs) (sub_topicFilters out),
        sub_requestedQoSs := take k (sub_requestedQoSs out) @ map (sint \<circ> snd) xs @ drop (k + length xs) (sub_requestedQoSs out),
        sub_count := int (k + length xs)\<rparr>) \<and> list_all2 denotes ts (map fst xs)"
  using assms(2-)
proof (induction xs arbitrary: p out k)
  case Nil
  then show ?case by (simp add: subscribe_read_loop.simps)
next
  case (Cons x xs)
  obtain s c where x: "x = (s, c)" by (cases x)
  let ?g = "sub_topicFilters out" and ?q = "sub_requestedQoSs out"
  have k: "k < length ?g" "k < length ?q" using Cons.prems by simp_all
  let ?more = "concat (map bytes xs) @ rest"
  have at: "drop p buf = utf_bytes s @ c # ?more" using Cons.prems by (simp add: x bytes_def)
  have len: "int p + int (2 + length s + 1 + length (concat (map bytes xs))) = enddata"
    using Cons.prems by (simp add: x bytes_def)
  define t where "t = string_read (?g ! k) s (c # ?more)"
  have r: "readMQTTLenString (?g ! k) buf p enddata = Some (1, t, p + 2 + length s)"
    unfolding t_def string_read_def using Cons.prems len
    by (intro readMQTTLenString_utf [OF at]) (simp_all add: x)
  have at': "drop (p + 2 + length s) buf = c # ?more" using drop_append_skip [OF at] by (simp add: add.assoc)
  note rc = readChar_prefix [OF at']
  let ?out = "out\<lparr>sub_topicFilters := ?g[k := t], sub_requestedQoSs := ?q[k := sint c], sub_count := int (Suc k)\<rparr>"
  have "drop (p + 2 + length s + 1) buf = ?more" using drop_eq_ConsD(3) [OF at'] by simp
  then have "\<exists>ts. subscribe_read_loop ?out rc buf (p + 2 + length s + 1) enddata =
      Some (1, ?out\<lparr>sub_topicFilters := take (Suc k) (sub_topicFilters ?out) @ ts @
            drop (Suc k + length xs) (sub_topicFilters ?out),
          sub_requestedQoSs := take (Suc k) (sub_requestedQoSs ?out) @ map (sint \<circ> snd) xs @
            drop (Suc k + length xs) (sub_requestedQoSs ?out),
          sub_count := int (Suc k + length xs)\<rparr>) \<and>
      list_all2 denotes ts (map fst xs)"
    using Cons.prems len by (intro Cons.IH) simp_all
  then obtain ts where ts: "subscribe_read_loop ?out rc buf (p + 2 + length s + 1) enddata =
      Some (1, ?out\<lparr>sub_topicFilters := take (Suc k) (sub_topicFilters ?out) @ ts @
            drop (Suc k + length xs) (sub_topicFilters ?out),
          sub_requestedQoSs := take (Suc k) (sub_requestedQoSs ?out) @ map (sint \<circ> snd) xs @
            drop (Suc k + length xs) (sub_requestedQoSs ?out),
          sub_count := int (Suc k + length xs)\<rparr>)"
    "list_all2 denotes ts (map fst xs)" by blast
  have "take (Suc k) (?g[k := t]) = take k ?g @ [t]" "take (Suc k) (?q[k := sint c]) = take k ?q @ [sint c]"
    using k by (simp_all add: take_Suc_conv_app_nth)
  moreover have "int p < enddata" "\<not> enddata \<le> int (p + 2 + length s)" "int k + 1 < 2147483648"
    using Cons.prems len by auto
  ultimately have "subscribe_read_loop out rc buf p enddata =
      Some (1, out\<lparr>sub_topicFilters := take k ?g @ (t # ts) @ drop (k + length (x # xs)) ?g,
          sub_requestedQoSs := take k ?q @ map (sint \<circ> snd) (x # xs) @ drop (k + length (x # xs)) ?q,
          sub_count := int (k + length (x # xs))\<rparr>)"
    using ts(1) k r rc Cons.prems(5)
    by (subst subscribe_read_loop.simps) (simp add: x add_ac)
  moreover have "denotes t s" using Cons.prems by (simp add: t_def x)
  ultimately show ?case using ts(2) by (intro exI [of _ "t # ts"]) (simp add: x)
qed

definition subscribe_matches :: "subscribe \<Rightarrow> subscribe \<Rightarrow> bool" where
  "subscribe_matches a out \<longleftrightarrow> uint (sub_dup out) = uint (sub_dup a) mod 2 \<and>
     sub_packetid out = sub_packetid a \<and> sub_count out = sub_count a \<and>
     list_all2 denotes (take (nat (sub_count a)) (sub_topicFilters out))
       (map mqtt_content (take (nat (sub_count a)) (sub_topicFilters a))) \<and>
     take (nat (sub_count a)) (sub_requestedQoSs out) =
       map through_char (take (nat (sub_count a)) (sub_requestedQoSs a))"

definition subscribe_room :: "subscribe \<Rightarrow> subscribe \<Rightarrow> bool" where
  "subscribe_room a out \<longleftrightarrow> sub_count a \<le> int (length (sub_topicFilters out)) \<and>
     sub_count a \<le> int (length (sub_requestedQoSs out))"

lemma length_concat_subscriptions: "length xs \<le> length (concat (map (\<lambda>(s, c). utf_bytes s @ [c]) xs))"
  by (induction xs) auto

lemma subscribe_parse:
  assumes v: "subscribe_valid a" and room: "subscribe_room a out0"
  shows "\<exists>out. MQTTDeserialize_subscribe out0 (subscribe_wire a @ rest) = Some (1, out) \<and> subscribe_matches a out"
proof -
  define n where "n = nat (sub_count a)"
  have n: "int n = sub_count a" "n \<le> length (sub_topicFilters a)" "n \<le> length (sub_requestedQoSs a)"
    using v by (simp_all add: n_def subscribe_valid_def)
  define h where "h = header_byte (msgType SUBSCRIBE) (sub_dup a) 1 0"
  define xs where "xs = map (\<lambda>(t, q). (mqtt_content t, word_of_int q :: byte)) (subscriptions a)"
  define bytes where "bytes = concat (map (\<lambda>(s, c). utf_bytes s @ [c]) xs)"
  define r where "r = length (remlen_bytes (length (subscribe_body a)))"
  define p where "p = 1 + r"
  define buf where "buf = subscribe_wire a @ rest"
  have small: "length (subscribe_body a) < 268435456" using v by (simp add: subscribe_valid_def)
  have "map (\<lambda>(s, c). utf_bytes s @ [c]) xs = map subscription_bytes (subscriptions a)"
    by (auto simp: xs_def subscription_bytes_def)
  then have body: "subscribe_body a = int_bytes (uint (sub_packetid a)) @ bytes"
    by (simp add: subscribe_body_def bytes_def)
  have hd: "readChar buf 0 = Some (h, 1)" "header_type h = msgType SUBSCRIBE"
    "header_dup h = word_of_int (uint (sub_dup a) mod 2)"
    and rl: "MQTTPacket_decodeBuf buf 1 = Some (int r, int (length (subscribe_body a)))"
    using read_remlen [OF small, of h rest]
    by (simp_all add: buf_def subscribe_wire_def read_header r_def h_def)
  have at: "drop p buf = int_bytes (uint (sub_packetid a)) @ bytes @ rest"
    using drop_packet [of "subscribe_body a" h rest]
    by (simp add: buf_def subscribe_wire_def h_def p_def r_def body)
  have i: "readInt buf p = Some (uint (sub_packetid a), p + 2)"
    by (rule readInt_prefix [OF at]) (simp_all add: u16_bounds)
  have at': "drop (p + 2) buf = bytes @ rest" using drop_append_skip [OF at] by simp
  define out1 where "out1 = out0\<lparr>sub_dup := header_dup h, sub_packetid := sub_packetid a, sub_count := 0\<rparr>"
  have lxs: "length xs = n" using n by (simp add: xs_def subscriptions_def flip: n_def)
  have "\<exists>ts. subscribe_read_loop out1 (int r) buf (p + 2) (int p + int (length (subscribe_body a))) =
      Some (1, out1\<lparr>sub_topicFilters := take 0 (sub_topicFilters out1) @ ts @ drop (0 + length xs) (sub_topicFilters out1),
        sub_requestedQoSs := take 0 (sub_requestedQoSs out1) @ map (sint \<circ> snd) xs @ drop (0 + length xs) (sub_requestedQoSs out1),
        sub_count := int (0 + length xs)\<rparr>) \<and> list_all2 denotes ts (map fst xs)"
  proof (rule subscribe_read_loop_reads [OF at' [unfolded bytes_def]])
    show "int (p + 2) + int (length (concat (map (\<lambda>(s, c). utf_bytes s @ [c]) xs))) =
        int p + int (length (subscribe_body a))" by (simp add: body bytes_def)
    show "int p + int (length (subscribe_body a)) \<le> int (length buf)"
      by (simp add: body p_def r_def buf_def subscribe_wire_def length_packet_bytes)
    show "\<forall>(s, c)\<in>set xs. length s \<le> 65535"
      using v by (fastforce simp: xs_def subscribe_valid_def wf_string_length)
    show "0 + length xs < 2147483648"
      using length_concat_subscriptions [of xs] small by (simp add: body bytes_def)
  qed (use room lxs n in \<open>auto simp: out1_def subscribe_room_def\<close>)
  then obtain ts where ts: "subscribe_read_loop out1 (int r) buf (p + 2) (int p + int (length (subscribe_body a))) =
      Some (1, out1\<lparr>sub_topicFilters := ts @ drop n (sub_topicFilters out1),
        sub_requestedQoSs := map (sint \<circ> snd) xs @ drop n (sub_requestedQoSs out1), sub_count := int n\<rparr>)"
    "list_all2 denotes ts (map fst xs)" by (auto simp: lxs)
  have p: "1 + r = p" "1 + int r = int p" by (simp_all add: p_def)
  define out where "out = out1\<lparr>sub_topicFilters := ts @ drop n (sub_topicFilters out1),
        sub_requestedQoSs := map (sint \<circ> snd) xs @ drop n (sub_requestedQoSs out1), sub_count := int n\<rparr>"
  have "MQTTDeserialize_subscribe out0 buf = Some (1, out)"
    unfolding MQTTDeserialize_subscribe_def
    using ts(1) hd rl i by (simp add: Let_def p out_def out1_def del: One_nat_def)
  moreover have "length ts = n" using ts(2) lxs list_all2_lengthD by fastforce
  moreover have "map (sint \<circ> snd) xs = map through_char (take n (sub_requestedQoSs a))"
    "map fst xs = map mqtt_content (take n (sub_topicFilters a))"
    using n(2,3) unfolding xs_def subscriptions_def n_def [symmetric]
    by (simp_all add: list_eq_iff_nth_eq through_char_def)
  ultimately show ?thesis
    using ts(2) n lxs unfolding subscribe_matches_def n_def [symmetric]
    by (intro exI [of _ out]) (simp add: buf_def out_def out1_def hd uint_mod_2_byte)
qed

interpretation subscribe_codec: packet_codec subscribe_wire MQTTSerialize_subscribe subscribe_valid
  "\<lambda>a. MQTTPacket_len (int (length (subscribe_body a)))" MQTTDeserialize_subscribe subscribe_matches
  subscribe_room
  by unfold_locales (rule subscribe_parse)

text \<open>
  \<^verbatim>\<open>MQTTSerialize_unsuback\<close> and \<^verbatim>\<open>MQTTDeserialize_unsuback\<close>. The guard of the serializer asks for
  two bytes and four are written.
\<close>

lemma length_unsuback_wire [simp]: "length (unsuback_wire i) = 4"
  by (simp add: unsuback_wire_def length_packet_bytes)

lemma serialize_unsuback_emit:
  "2 \<le> buflen \<Longrightarrow>
     MQTTSerialize_unsuback buf buflen i = emit (unsuback_wire i) (buf, 0) \<bind> (\<lambda>w. Some (int (snd w), fst w))"
  by (simp add: MQTTSerialize_unsuback_def unsuback_wire_def packet_bytes_def emit_simps)

lemma unsuback_wire_ack: "unsuback_wire i = ack_wire (word_of_int (msgType UNSUBACK), 0, i)"
  by (simp add: unsuback_wire_def ack_wire_def)

interpretation unsuback_codec: packet_codec unsuback_wire MQTTSerialize_unsuback "\<lambda>_. True" "\<lambda>_. 4"
  MQTTDeserialize_unsuback "\<lambda>i i'. i' = i" "\<lambda>_ _. True"
proof unfold_locales
  fix i out0 :: u16 and buflen and buf rest :: "byte list"
  show "int (length (unsuback_wire i)) \<le> 4" by simp
  show "4 \<le> buflen \<Longrightarrow> buflen \<le> int (length buf) \<Longrightarrow>
      MQTTSerialize_unsuback buf buflen i = Some (int (length (unsuback_wire i)), overwrite buf 0 (unsuback_wire i))"
    by (simp add: serialize_unsuback_emit emit_start)
  show "\<exists>out. MQTTDeserialize_unsuback out0 (unsuback_wire i @ rest) = Some (1, out) \<and> out = i"
    using ack_codec.parse [of "(word_of_int (msgType UNSUBACK), 0, i)" "(0, 0, out0)" rest]
    by (auto simp: unsuback_wire_ack ack_valid_def ack_matches_def MQTTDeserialize_unsuback_def)
qed

subsection \<open>Packets the serializers do not produce\<close>

text \<open>
  The bounds test of \<^verbatim>\<open>MQTTDeserialize_suback\<close> is off by one: a SUBACK packet with more codes than
  \<^verbatim>\<open>maxcount\<close> makes the function write behind an array of \<^verbatim>\<open>maxcount\<close> elements.
\<close>

lemma suback_loop_overruns:
  assumes "suback_count out = int k" "k \<le> length (suback_grantedQoSs out)"
    "length (suback_grantedQoSs out) < k + n" "length (suback_grantedQoSs out) < 2147483647"
  shows "suback_loop n (int (length (suback_grantedQoSs out))) out buf p = None"
  using assms
proof (induction n arbitrary: p out k)
  case (Suc n)
  let ?g = "suback_grantedQoSs out"
  have "suback_loop n (int (length ?g)) (out\<lparr>suback_grantedQoSs := ?g[k := c], suback_count := int (Suc k)\<rparr>) buf q = None"
    if "k < length ?g" for c q
    using Suc.IH [of "out\<lparr>suback_grantedQoSs := ?g[k := c], suback_count := int (Suc k)\<rparr>" "Suc k" q] Suc.prems that
    by simp
  then show ?case
    using Suc.prems by (auto simp: store_def add.commute split: Option.bind_split)
qed simp

lemma suback_loop_safe:
  assumes "suback_count out = int k" "k + n \<le> length (suback_grantedQoSs out)" "p + n \<le> length buf"
    "k + n < 2147483648"
  shows "suback_loop n maxcount out buf p \<noteq> None"
  using assms
proof (induction n arbitrary: p out k)
  case (Suc n)
  let ?g = "suback_grantedQoSs out"
  have "suback_loop n maxcount (out\<lparr>suback_grantedQoSs := ?g[k := c], suback_count := int (Suc k)\<rparr>) buf (Suc p) \<noteq> None" for c
    using Suc.IH [of "out\<lparr>suback_grantedQoSs := ?g[k := c], suback_count := int (Suc k)\<rparr>" "Suc k" "Suc p"] Suc.prems
    by simp
  then show ?case using Suc.prems by (simp add: readChar_nth add.commute)
qed simp

subsection \<open>Properties\<close>

text \<open>
  C25. SUBSCRIBE round trip: the packet written for any number of subscriptions is read back with
  the same dup flag, packet identifier, topic filters and requested qualities of service, provided
  the output arrays have room for them.
\<close>

theorem subscribe_roundtrip:
  assumes "subscribe_valid a" "subscribe_room a out0"
    "MQTTPacket_len (int (length (subscribe_body a))) \<le> buflen" "buflen \<le> int (length buf)"
  shows "\<exists>rc buf' out. MQTTSerialize_subscribe buf buflen a = Some (rc, buf') \<and>
    MQTTDeserialize_subscribe out0 buf' = Some (1, out) \<and> subscribe_matches a out"
  using assms by (rule subscribe_codec.roundtrip)

definition example_subscribe :: subscribe where
  "example_subscribe = \<lparr>sub_dup = 0, sub_packetid = 3, sub_count = 2,
     sub_topicFilters = map (\<lambda>bs. \<lparr>cstring = Ptr (bs @ [0]), lenstring = \<lparr>len = 0, data = Null\<rparr>\<rparr>) [[65], [66, 67]],
     sub_requestedQoSs = [1, 2]\<rparr>"

lemma example_subscribe_valid:
  "subscribe_valid example_subscribe" "subscribe_room example_subscribe example_subscribe"
  "length (subscribe_body example_subscribe) = 11"
  by (simp_all add: subscribe_valid_def subscribe_room_def subscribe_body_def subscriptions_def example_subscribe_def
      subscription_bytes_def wf_string_def mqtt_content_def denotes_def cstring_of_def)

theorem subscribe_roundtrip_witness:
  "\<exists>rc buf' out. MQTTSerialize_subscribe (replicate 20 0) 20 example_subscribe = Some (rc, buf') \<and>
    MQTTDeserialize_subscribe example_subscribe buf' = Some (1, out) \<and> subscribe_matches example_subscribe out"
  by (rule subscribe_roundtrip) (simp_all add: example_subscribe_valid MQTTPacket_len_def)

text \<open>
  C26. SUBACK round trip: \<^verbatim>\<open>MQTTDeserialize_suback\<close> returns the packet identifier and the return
  codes of the packet, each of them converted through the signed \<^verbatim>\<open>char\<close> type.
\<close>

theorem suback_roundtrip:
  assumes "suback_valid a" "suback_room maxcount a out0"
    "int (length (suback_wire a)) \<le> buflen" "buflen \<le> int (length buf)"
  shows "\<exists>rc buf' out. MQTTSerialize_suback buf buflen a = Some (rc, buf') \<and>
    MQTTDeserialize_suback maxcount out0 buf' = Some (1, out) \<and> suback_matches a out"
  using assms by (rule suback_codec.roundtrip)

theorem suback_roundtrip_witness:
  "let a = \<lparr>suback_packetid = 5, suback_count = 2, suback_grantedQoSs = [1, 128]\<rparr> in
   \<exists>rc buf' out. MQTTSerialize_suback (replicate 6 0) 6 a = Some (rc, buf') \<and>
    MQTTDeserialize_suback 2 a buf' = Some (1, out) \<and> suback_matches a out"
  unfolding Let_def
  by (rule suback_roundtrip)
    (simp_all add: suback_valid_def suback_room_def suback_wire_def suback_body_def length_packet_bytes)

text \<open>
  C27. A SUBACK packet with more return codes than the caller's array of \<^verbatim>\<open>maxcount\<close> elements holds
  makes \<^verbatim>\<open>MQTTDeserialize_suback\<close> write behind the array.
\<close>

theorem suback_overruns_array:
  fixes i :: u16
  assumes "header_type h = msgType SUBACK" "maxcount = int (length (suback_grantedQoSs out))"
    "length (suback_grantedQoSs out) < length cs" "length cs < 268435454"
  shows "MQTTDeserialize_suback maxcount out (packet_bytes h (int_bytes (uint (i :: u16)) @ cs) @ rest) = None"
proof -
  have "length (int_bytes (uint i) @ cs) < 268435456" using assms(4) by simp
  note start = deserialize_suback_start(1) [OF this assms(1) _ refl, of i cs maxcount out rest]
  from start [OF refl] suback_loop_overruns [of "out\<lparr>suback_packetid := i, suback_count := 0\<rparr>" 0 "length cs"] assms
  show ?thesis by simp
qed

theorem suback_overruns_array_witness:
  "MQTTDeserialize_suback 1 \<lparr>suback_packetid = 0, suback_count = 0, suback_grantedQoSs = [0]\<rparr>
     (packet_bytes 144 (int_bytes (uint (1 :: u16)) @ [0, 0]) @ []) = None"
  by (rule suback_overruns_array) (simp_all add: header_type_def)

text \<open>
  UNSUBSCRIBE round trip, as for SUBSCRIBE.
\<close>

lemma unsubscribe_roundtrip:
  assumes "unsubscribe_valid a" "unsubscribe_room a out0"
    "MQTTPacket_len (int (length (unsubscribe_body a))) \<le> buflen" "buflen \<le> int (length buf)"
  shows "\<exists>rc buf' out. MQTTSerialize_unsubscribe buf buflen a = Some (rc, buf') \<and>
    MQTTDeserialize_unsubscribe out0 buf' = Some (1, out) \<and> unsubscribe_matches a out"
  using assms by (rule unsubscribe_codec.roundtrip)

end
