(* ===== verification/Interface.thy ===== *)
theory Interface
  imports Packet_Core
begin

text \<open>
  \<^verbatim>\<open>MQTTInterface.c\<close> and \<^verbatim>\<open>MQTTInterface.h\<close>: the timers and the TLS network layer, on an explicit
  world. The world holds what lies outside of the program: the clock, the answers of the sockets and
  of OpenSSL, and the bytes sent so far, together with the global variables of \<^verbatim>\<open>MQTTInterface.c\<close>.
  The functions of OpenSSL and of the C library that are called here are translated by what their
  manual pages say of their results; a call with a handle that has been freed is a fault.
\<close>

subsection \<open>The world\<close>

record timeval =
  tv_sec :: int
  tv_usec :: int

text \<open>
  \<open>rx_event\<close> is the answer to a call of \<^verbatim>\<open>SSL_read\<close>: application data, \<^verbatim>\<open>SSL_ERROR_WANT_READ\<close> or
  \<^verbatim>\<open>SSL_ERROR_WANT_WRITE\<close>, or any other error. Data that does not fit into the caller's buffer stays
  for the next call. \<open>tx_event\<close> is the answer to a call of \<^verbatim>\<open>SSL_write\<close>: the number of bytes
  accepted, at most the number offered. A script that has run out stands for a closed connection.
\<close>

datatype rx_event = Rx_data "byte list" | Rx_want | Rx_fail

datatype tx_event = Tx_accept nat | Tx_want | Tx_fail

datatype handle = Null_handle | Live | Freed

text \<open>The answers of the environment to one call of \<^verbatim>\<open>mqtt_network_connect\<close>.\<close>

record tls_env =
  env_ctx :: bool
  env_ca :: bool
  env_cert :: bool
  env_key :: bool
  env_key_matches :: bool
  env_default_paths :: bool
  env_socket :: int
  env_host :: "byte list option"
  env_connect :: int
  env_ssl :: bool
  env_handshake :: int
  env_verified :: bool

definition no_env :: tls_env where
  "no_env = \<lparr>env_ctx = False, env_ca = False, env_cert = False, env_key = False,
     env_key_matches = False, env_default_paths = False, env_socket = - 1, env_host = None,
     env_connect = - 1, env_ssl = False, env_handshake = - 1, env_verified = False\<rparr>"

text \<open>
  \<^verbatim>\<open>Network\<close>. A function pointer of the structure is unset or holds the function that
  \<^verbatim>\<open>mqtt_network_init\<close> stores there; calling an unset one is a fault.
\<close>

datatype network_fn = Fn_unset | Fn_network_read | Fn_network_write | Fn_network_disconnect

record Network =
  net_socket :: int
  net_mqttread :: network_fn
  net_mqttwrite :: network_fn
  net_disconnect :: network_fn

record 'app world =
  clock :: "nat \<Rightarrow> timeval"
  ticks :: nat
  rx :: "rx_event list"
  tx :: "tx_event list"
  sent :: "byte list"
  selects :: "int list"
  tls_envs :: "tls_env list"
  ssl :: handle
  ctx :: handle
  bio_err :: handle
  sockfd :: int
  server_addr :: "u16 \<times> byte list"
  closed_fds :: "int list"
  mqttNet :: Network
  junk_topic :: MQTTString
  junk_payload :: cptr
  junk_byte :: byte
  junk_int :: int
  junk_u16 :: u16
  app :: 'app

text \<open>
  The fields \<open>junk_\<dots>\<close> are the contents of the stack where a local variable without
  initializer is placed.
\<close>

subsection \<open>Timers\<close>

record Timer =
  end_time :: timeval

definition timersub :: "timeval \<Rightarrow> timeval \<Rightarrow> timeval" where
  "timersub a b = (let s = tv_sec a - tv_sec b; u = tv_usec a - tv_usec b in
     if u < 0 then \<lparr>tv_sec = s - 1, tv_usec = u + 1000000\<rparr> else \<lparr>tv_sec = s, tv_usec = u\<rparr>)"

definition timeradd :: "timeval \<Rightarrow> timeval \<Rightarrow> timeval" where
  "timeradd a b = (let s = tv_sec a + tv_sec b; u = tv_usec a + tv_usec b in
     if u \<ge> 1000000 then \<lparr>tv_sec = s + 1, tv_usec = u - 1000000\<rparr> else \<lparr>tv_sec = s, tv_usec = u\<rparr>)"

definition gettimeofday :: "'app world \<Rightarrow> timeval \<times> 'app world" where
  "gettimeofday w = (clock w (ticks w), w\<lparr>ticks := ticks w + 1\<rparr>)"

definition TimerInit :: Timer where
  "TimerInit = \<lparr>end_time = \<lparr>tv_sec = 0, tv_usec = 0\<rparr>\<rparr>"

definition TimerIsExpired :: "Timer \<Rightarrow> 'app world \<Rightarrow> bool \<times> 'app world" where
  "TimerIsExpired timer w = (let (now, w) = gettimeofday w; res = timersub (end_time timer) now in
     (tv_sec res < 0 \<or> tv_sec res = 0 \<and> tv_usec res \<le> 0, w))"

definition TimerCountdownMS :: "u32 \<Rightarrow> 'app world \<Rightarrow> Timer \<times> 'app world" where
  "TimerCountdownMS timeout w = (let (now, w) = gettimeofday w;
       interval = \<lparr>tv_sec = uint (timeout div 1000), tv_usec = uint ((timeout mod 1000) * 1000)\<rparr> in
     (\<lparr>end_time = timeradd now interval\<rparr>, w))"

definition TimerCountdown :: "u32 \<Rightarrow> 'app world \<Rightarrow> Timer \<times> 'app world" where
  "TimerCountdown timeout w = (let (now, w) = gettimeofday w;
       interval = \<lparr>tv_sec = uint timeout, tv_usec = 0\<rparr> in
     (\<lparr>end_time = timeradd now interval\<rparr>, w))"

definition TimerLeftMS :: "Timer \<Rightarrow> 'app world \<Rightarrow> int \<times> 'app world" where
  "TimerLeftMS timer w = (let (now, w) = gettimeofday w; res = timersub (end_time timer) now in
     (if tv_sec res < 0 then 0 else to_int (tv_sec res * 1000 + tv_usec res sdiv 1000), w))"

subsection \<open>OpenSSL and socket calls\<close>

datatype ssl_result = Ssl_ok "byte list" | Ssl_want | Ssl_error

definition SSL_read :: "int \<Rightarrow> 'app world \<Rightarrow> (ssl_result \<times> 'app world) option" where
  "SSL_read num w =
     (if ssl w \<noteq> Live then None
      else Some (case rx w of
          [] \<Rightarrow> (Ssl_error, w)
        | Rx_fail # es \<Rightarrow> (Ssl_error, w\<lparr>rx := es\<rparr>)
        | Rx_want # es \<Rightarrow> (Ssl_want, w\<lparr>rx := es\<rparr>)
        | Rx_data bs # es \<Rightarrow>
            if bs = [] then (Ssl_want, w\<lparr>rx := es\<rparr>)
            else if length bs \<le> nat num then (Ssl_ok bs, w\<lparr>rx := es\<rparr>)
            else (Ssl_ok (take (nat num) bs), w\<lparr>rx := Rx_data (drop (nat num) bs) # es\<rparr>)))"

text \<open>\<open>SSL_write src num\<close> sends a prefix of the \<open>num\<close> bytes at \<open>src\<close>; the result is its length.\<close>

definition SSL_write :: "cptr \<Rightarrow> int \<Rightarrow> 'app world \<Rightarrow> (ssl_result \<times> 'app world) option" where
  "SSL_write src num w =
     (if ssl w \<noteq> Live then None
      else do {
        bs \<leftarrow> bytes_at src (nat num);
        Some (case tx w of
            [] \<Rightarrow> (Ssl_error, w)
          | Tx_fail # es \<Rightarrow> (Ssl_error, w\<lparr>tx := es\<rparr>)
          | Tx_want # es \<Rightarrow> (Ssl_want, w\<lparr>tx := es\<rparr>)
          | Tx_accept n # es \<Rightarrow>
              if n = 0 then (Ssl_want, w\<lparr>tx := es\<rparr>)
              else (Ssl_ok (take n bs), w\<lparr>tx := es, sent := sent w @ take n bs\<rparr>))
      })"

text \<open>The result of \<^verbatim>\<open>select\<close> on one descriptor; a script that has run out answers \<open>-1\<close>.\<close>

definition select_fd :: "'app world \<Rightarrow> int \<times> 'app world" where
  "select_fd w = (case selects w of [] \<Rightarrow> (- 1, w) | r # rs \<Rightarrow> (r, w\<lparr>selects := rs\<rparr>))"

text \<open>
  \<open>release h\<close> is \<^verbatim>\<open>SSL_free\<close>, \<^verbatim>\<open>SSL_CTX_free\<close> or \<^verbatim>\<open>BIO_free\<close>: nothing happens for \<^verbatim>\<open>NULL\<close>, freeing
  twice is a fault. \<^verbatim>\<open>SSL_shutdown\<close> accepts \<^verbatim>\<open>NULL\<close> as well.
\<close>

fun release :: "handle \<Rightarrow> handle option" where
  "release Null_handle = Some Null_handle"
| "release Live = Some Freed"
| "release Freed = None"

definition SSL_shutdown :: "'app world \<Rightarrow> 'app world option" where
  "SSL_shutdown w = (if ssl w = Freed then None else Some w)"

definition close_fd :: "int \<Rightarrow> 'app world \<Rightarrow> 'app world" where
  "close_fd fd w = w\<lparr>closed_fds := closed_fds w @ [fd]\<rparr>"

subsection \<open>The network functions\<close>

definition mqtt_network_init :: "'app world \<Rightarrow> 'app world" where
  "mqtt_network_init w = w\<lparr>mqttNet := \<lparr>net_socket = 0, net_mqttread = Fn_network_read,
     net_mqttwrite = Fn_network_write, net_disconnect = Fn_network_disconnect\<rparr>\<rparr>"

text \<open>
  The set-up of the TLS context (lines 46 to 92), of the TCP connection (lines 94 to 122) and of
  the TLS connection (lines 124 to 154). The result is the return value of the C function; the
  first two return 0 when the function goes on.
\<close>

definition network_setup_context :: "tls_env \<Rightarrow> 'app world \<Rightarrow> int \<times> 'app world" where
  "network_setup_context e w =
     (let w = w\<lparr>ctx := if env_ctx e then Live else Null_handle\<rparr> in
      if \<not> env_ctx e then (1, w)
      else if \<not> env_ca e then (1, w)
      else if \<not> env_cert e then (1, w)
      else if \<not> env_key e then (1, w)
      else if \<not> env_key_matches e then (1, w)
      else (0, w))"

definition network_setup_socket :: "tls_env \<Rightarrow> int \<Rightarrow> 'app world \<Rightarrow> int \<times> 'app world" where
  "network_setup_socket e port w =
     (let w = w\<lparr>sockfd := env_socket e\<rparr> in
      if sockfd w < 0 then (1, w)
      else case env_host e of
          None \<Rightarrow> (1, w)
        | Some addr \<Rightarrow>
            let w = w\<lparr>server_addr := (word_of_int port, addr)\<rparr> in
            if env_connect e < 0 then (1, w) else (0, w))"

definition network_setup_tls :: "tls_env \<Rightarrow> 'app world \<Rightarrow> int \<times> 'app world" where
  "network_setup_tls e w =
     (let w = w\<lparr>ssl := if env_ssl e then Live else Null_handle\<rparr> in
      if \<not> env_ssl e then (1, w)
      else if env_handshake e \<noteq> 1 then (1, w)
      else if \<not> env_verified e then (1, w)
      else (0, w))"

definition mqtt_network_connect :: "cptr \<Rightarrow> 'app world \<Rightarrow> (int \<times> 'app world) option" where
  "mqtt_network_connect port w = do {
     let w = mqtt_network_init w;
     let (e, w) = (case tls_envs w of [] \<Rightarrow> (no_env, w) | e # es \<Rightarrow> (e, w\<lparr>tls_envs := es\<rparr>));
     let w = w\<lparr>bio_err := Live\<rparr>;
     let (rc, w) = network_setup_context e w;
     if rc \<noteq> 0 then Some (rc, w)
     else do {
       int_port \<leftarrow> atoi port;
       let (rc, w) = network_setup_socket e int_port w;
       if rc \<noteq> 0 then Some (rc, w) else Some (network_setup_tls e w)
     }
   }"

text \<open>
  The loops of the read and write functions. Every iteration consumes an event or some bytes of
  the script, \<open>rx_size\<close> and \<open>length \<circ> tx\<close> count what is left.
\<close>

fun event_size :: "rx_event \<Rightarrow> nat" where
  "event_size (Rx_data bs) = Suc (length bs)"
| "event_size _ = 1"

definition rx_size :: "'app world \<Rightarrow> nat" where
  "rx_size w = sum_list (map event_size (rx w))"

lemma SSL_read_cases:
  assumes "SSL_read num w = Some (r, w')" "0 < num"
  shows "r = Ssl_error \<and> rx_size w' \<le> rx_size w \<or> r = Ssl_want \<and> rx_size w' < rx_size w \<or>
    (\<exists>bs. r = Ssl_ok bs \<and> bs \<noteq> [] \<and> int (length bs) \<le> num \<and> rx_size w' < rx_size w)"
  using assms
  by (auto simp: SSL_read_def rx_size_def split: if_splits list.splits rx_event.splits)

function network_read_loop ::
  "int \<Rightarrow> byte list \<Rightarrow> 'app world \<Rightarrow> (int \<times> byte list \<times> 'app world) option" where
  "network_read_loop n buffer w =
     (if int (length buffer) < n then
        (case SSL_read (n - int (length buffer)) w of
           None \<Rightarrow> None
         | Some (Ssl_ok bs, w) \<Rightarrow> network_read_loop n (buffer @ bs) w
         | Some (Ssl_want, w) \<Rightarrow> network_read_loop n buffer w
         | Some (Ssl_error, w) \<Rightarrow> Some (- 1, buffer, w))
      else Some (int (length buffer), buffer, w))"
  by auto

termination
  by (relation "measure (\<lambda>(n, buffer, w). rx_size w)") (auto dest: SSL_read_cases)

declare network_read_loop.simps [simp del]

text \<open>
  \<open>mqtt_network_read n\<close> returns the result and the bytes stored in the caller's buffer; \<open>buffer\<close>
  in the loop holds the \<^verbatim>\<open>total_read\<close> bytes stored so far. The time-out is not used.
\<close>

definition mqtt_network_read :: "'app world getfn" where
  "mqtt_network_read n w = network_read_loop n [] w"

lemma select_fd_rx_size: "select_fd w = (rc, w') \<Longrightarrow> rx_size w' = rx_size w"
  by (auto simp: select_fd_def rx_size_def split: list.splits)

function network_read_select_loop ::
  "int \<Rightarrow> byte list \<Rightarrow> 'app world \<Rightarrow> (int \<times> byte list \<times> 'app world) option" where
  "network_read_select_loop n buffer w =
     (if int (length buffer) < n then
        (case select_fd w of (rc, w) \<Rightarrow>
           if rc < 0 then Some (- 1, buffer, w)
           else if rc = 0 then Some (0, buffer, w)
           else (case SSL_read (n - int (length buffer)) w of
               None \<Rightarrow> None
             | Some (Ssl_ok bs, w) \<Rightarrow> network_read_select_loop n (buffer @ bs) w
             | Some (Ssl_want, w) \<Rightarrow> network_read_select_loop n buffer w
             | Some (Ssl_error, w) \<Rightarrow> Some (- 1, buffer, w)))
      else Some (int (length buffer), buffer, w))"
  by auto

termination
  by (relation "measure (\<lambda>(n, buffer, w). rx_size w)") (fastforce dest: SSL_read_cases dest!: select_fd_rx_size [OF sym])+

declare network_read_select_loop.simps [simp del]

text \<open>\<^verbatim>\<open>mqtt_network_read_\<close>, the variant with \<^verbatim>\<open>select\<close> that nothing calls.\<close>

definition mqtt_network_read_select :: "'app world getfn" where
  "mqtt_network_read_select n w = network_read_select_loop n [] w"

text \<open>\<open>src\<close> is \<^verbatim>\<open>buffer\<close>, \<open>written\<close> is \<^verbatim>\<open>total_written\<close>.\<close>

fun ptr_add :: "cptr \<Rightarrow> nat \<Rightarrow> cptr option" where
  "ptr_add (Ptr bs) n = (if n \<le> length bs then Some (Ptr (drop n bs)) else None)"
| "ptr_add p n = (if n = 0 then Some p else None)"

lemma SSL_write_cases:
  assumes "SSL_write src num w = Some (r, w')" "0 < num"
  shows "r = Ssl_error \<and> length (tx w') \<le> length (tx w) \<or> r = Ssl_want \<and> length (tx w') < length (tx w) \<or>
    (\<exists>bs. r = Ssl_ok bs \<and> bs \<noteq> [] \<and> int (length bs) \<le> num \<and> length (tx w') < length (tx w))"
proof -
  from assms obtain bs where "bytes_at src (nat num) = Some bs" "length bs = nat num"
    by (auto simp: SSL_write_def bind_eq_Some_conv dest: length_bytes_at split: if_splits)
  moreover from this assms have "bs \<noteq> []" by auto
  ultimately show ?thesis
    using assms by (auto simp: SSL_write_def bind_eq_Some_conv split: if_splits list.splits tx_event.splits)
qed

function network_write_loop ::
  "cptr \<Rightarrow> int \<Rightarrow> nat \<Rightarrow> 'app world \<Rightarrow> (int \<times> 'app world) option" where
  "network_write_loop src n written w =
     (if int written < n then
        (case ptr_add src written of
           None \<Rightarrow> None
         | Some p \<Rightarrow>
             (case SSL_write p (n - int written) w of
                None \<Rightarrow> None
              | Some (Ssl_ok bs, w) \<Rightarrow> network_write_loop src n (written + length bs) w
              | Some (Ssl_want, w) \<Rightarrow> network_write_loop src n written w
              | Some (Ssl_error, w) \<Rightarrow> Some (- 1, w)))
      else Some (int written, w))"
  by auto

termination
  by (relation "measure (\<lambda>(src, n, written, w). length (tx w))") (auto dest: SSL_write_cases)

declare network_write_loop.simps [simp del]

definition mqtt_network_write :: "cptr \<Rightarrow> int \<Rightarrow> 'app world \<Rightarrow> (int \<times> 'app world) option" where
  "mqtt_network_write buffer n w = network_write_loop buffer n 0 w"

definition mqtt_network_clear :: "'app world \<Rightarrow> 'app world option" where
  "mqtt_network_clear w = do {
     s \<leftarrow> release (ssl w);
     let w = close_fd (sockfd w) (w\<lparr>ssl := s\<rparr>);
     b \<leftarrow> release (bio_err w);
     c \<leftarrow> release (ctx w);
     Some (w\<lparr>bio_err := b, ctx := c\<rparr>)
   }"

definition mqtt_network_disconnect :: "'app world \<Rightarrow> 'app world option" where
  "mqtt_network_disconnect w = do {
     w \<leftarrow> SSL_shutdown w;
     s \<leftarrow> release (ssl w);
     let w = close_fd (sockfd w) (w\<lparr>ssl := s\<rparr>);
     b \<leftarrow> release (bio_err w);
     c \<leftarrow> release (ctx w);
     Some (w\<lparr>bio_err := b, ctx := c\<rparr>)
   }"

text \<open>The calls through the function pointers of the \<^verbatim>\<open>Network\<close> structure.\<close>

definition ipstack_read :: "'app world getfn" where
  "ipstack_read n w = (if net_mqttread (mqttNet w) = Fn_network_read then mqtt_network_read n w else None)"

definition ipstack_write :: "cptr \<Rightarrow> int \<Rightarrow> 'app world \<Rightarrow> (int \<times> 'app world) option" where
  "ipstack_write buffer n w =
     (if net_mqttwrite (mqttNet w) = Fn_network_write then mqtt_network_write buffer n w else None)"

subsection \<open>Reading\<close>

text \<open>The application data that can still be read before the first error.\<close>

fun stream :: "rx_event list \<Rightarrow> byte list" where
  "stream [] = []"
| "stream (Rx_data bs # es) = bs @ stream es"
| "stream (Rx_want # es) = stream es"
| "stream (Rx_fail # es) = []"

definition pending :: "'app world \<Rightarrow> byte list" where
  "pending w = (if ssl w = Live then stream (rx w) else [])"

lemma SSL_read_frame: "SSL_read num w = Some (r, w') \<Longrightarrow> \<exists>es. w' = w\<lparr>rx := es\<rparr>"
  by (auto simp: SSL_read_def intro: exI [of _ "rx w"] split: if_splits list.splits rx_event.splits)

lemma SSL_read_pending:
  assumes "SSL_read num w = Some (r, w')" "0 < num"
  shows "r = Ssl_error \<and> pending w = [] \<or> r = Ssl_want \<and> pending w' = pending w \<or>
    (\<exists>bs. r = Ssl_ok bs \<and> bs \<noteq> [] \<and> int (length bs) \<le> num \<and> pending w = bs @ pending w')"
  using assms
  by (auto simp: SSL_read_def pending_def split: if_splits list.splits rx_event.splits)

lemma SSL_read_live: "ssl w = Live \<Longrightarrow> \<exists>r w'. SSL_read num w = Some (r, w') \<and> ssl w' = Live"
  by (auto simp: SSL_read_def split: list.splits rx_event.splits)

text \<open>
  The read loop on a live connection: it returns the requested bytes, the next ones of the stream,
  or reports an error if the stream ends before.
\<close>

lemma network_read_loop_spec:
  assumes "ssl w = Live" "int (length buffer) \<le> n"
  shows "\<exists>bs es. let w' = w\<lparr>rx := es\<rparr> in rx_size w' + length bs \<le> rx_size w \<and>
    (network_read_loop n buffer w = Some (n, buffer @ bs, w') \<and> int (length (buffer @ bs)) = n \<and>
       pending w = bs @ pending w' \<or>
     network_read_loop n buffer w = Some (- 1, buffer @ bs, w') \<and> int (length (buffer @ bs)) < n \<and>
       pending w = bs)"
  using assms
proof (induction n buffer w rule: network_read_loop.induct)
  case (1 n buffer w)
  show ?case
  proof (cases "int (length buffer) < n")
    case False
    with 1 show ?thesis
      by (intro exI [of _ "[]"] exI [of _ "rx w"]) (simp add: network_read_loop.simps)
  next
    case True
    then have pos: "0 < n - int (length buffer)" by simp
    obtain r w' where r: "SSL_read (n - int (length buffer)) w = Some (r, w')" and live: "ssl w' = Live"
      using SSL_read_live [OF "1.prems"(1)] by blast
    obtain es where w': "w' = w\<lparr>rx := es\<rparr>" using SSL_read_frame [OF r] by blast
    note size = SSL_read_cases [OF r pos] and pend = SSL_read_pending [OF r pos]
    show ?thesis
    proof (cases r)
      case Ssl_error
      then have "network_read_loop n buffer w = Some (- 1, buffer, w')"
        using True r by (simp add: network_read_loop.simps)
      then show ?thesis using True size pend Ssl_error w'
        by (intro exI [of _ "[]"] exI [of _ es]) auto
    next
      case Ssl_want
      from "1.IH"(2) [OF True r] Ssl_want live "1.prems"(2) obtain bs es' where
        "let w'' = w'\<lparr>rx := es'\<rparr> in rx_size w'' + length bs \<le> rx_size w' \<and>
          (network_read_loop n buffer w' = Some (n, buffer @ bs, w'') \<and> int (length (buffer @ bs)) = n \<and>
             pending w' = bs @ pending w'' \<or>
           network_read_loop n buffer w' = Some (- 1, buffer @ bs, w'') \<and> int (length (buffer @ bs)) < n \<and>
             pending w' = bs)"
        by blast
      moreover have "network_read_loop n buffer w = network_read_loop n buffer w'"
        using True r Ssl_want by (subst network_read_loop.simps) simp
      ultimately show ?thesis using size pend Ssl_want w'
        by (intro exI [of _ bs] exI [of _ es']) (auto simp: Let_def)
    next
      case (Ssl_ok cs)
      with pend have cs: "int (length (buffer @ cs)) \<le> n" "pending w = cs @ pending w'" by auto
      from "1.IH"(1) [OF True r refl Ssl_ok live cs(1)] obtain bs es' where
        "let w'' = w'\<lparr>rx := es'\<rparr> in rx_size w'' + length bs \<le> rx_size w' \<and>
          (network_read_loop n (buffer @ cs) w' = Some (n, (buffer @ cs) @ bs, w'') \<and>
             int (length ((buffer @ cs) @ bs)) = n \<and> pending w' = bs @ pending w'' \<or>
           network_read_loop n (buffer @ cs) w' = Some (- 1, (buffer @ cs) @ bs, w'') \<and>
             int (length ((buffer @ cs) @ bs)) < n \<and> pending w' = bs)"
        by blast
      moreover have "network_read_loop n buffer w = network_read_loop n (buffer @ cs) w'"
        using True r Ssl_ok by (subst network_read_loop.simps) simp
      moreover have "rx_size w' + length cs \<le> rx_size w"
        using r Ssl_ok by (auto simp: SSL_read_def rx_size_def split: if_splits list.splits rx_event.splits)
      ultimately show ?thesis using cs w'
        by (intro exI [of _ "cs @ bs"] exI [of _ es']) (auto simp: Let_def)
    qed
  qed
qed

lemma mqtt_network_read_spec:
  assumes "ssl w = Live" "0 \<le> n"
  shows "\<exists>es. let w' = w\<lparr>rx := es\<rparr> in
    if n \<le> int (length (pending w))
    then mqtt_network_read n w = Some (n, take (nat n) (pending w), w') \<and> pending w' = drop (nat n) (pending w) \<and>
      rx_size w' + nat n \<le> rx_size w
    else mqtt_network_read n w = Some (- 1, pending w, w') \<and> rx_size w' \<le> rx_size w"
proof -
  from network_read_loop_spec [OF assms(1), of "[]" n] assms(2) obtain bs es where
    *: "let w' = w\<lparr>rx := es\<rparr> in rx_size w' + length bs \<le> rx_size w \<and>
    (network_read_loop n [] w = Some (n, bs, w') \<and> int (length bs) = n \<and> pending w = bs @ pending w' \<or>
     network_read_loop n [] w = Some (- 1, bs, w') \<and> int (length bs) < n \<and> pending w = bs)"
    by auto
  then show ?thesis
    by (intro exI [of _ es]) (auto simp: Let_def mqtt_network_read_def)
qed

text \<open>The network is a source of bytes for the packet readers.\<close>

definition readable :: "'app world \<Rightarrow> byte list" where
  "readable w = (if net_mqttread (mqttNet w) = Fn_network_read then pending w else [])"

interpretation network: byte_source ipstack_read readable
proof unfold_locales
  fix n and s :: "'a world"
  assume n: "0 < n" "n \<le> length (readable s)"
  then have live: "ssl s = Live" "net_mqttread (mqttNet s) = Fn_network_read"
    by (auto simp: readable_def pending_def split: if_splits)
  with n mqtt_network_read_spec [OF live(1), of "int n"] obtain es where
    "mqtt_network_read (int n) s = Some (int n, take n (pending s), s\<lparr>rx := es\<rparr>)"
    "pending (s\<lparr>rx := es\<rparr>) = drop n (pending s)"
    by (auto simp: Let_def readable_def)
  with live show "\<exists>s'. ipstack_read (int n) s = Some (int n, take n (readable s), s') \<and> readable s' = drop n (readable s)"
    by (simp add: ipstack_read_def readable_def)
qed

subsection \<open>Writing\<close>

lemma SSL_write_frame:
  assumes "SSL_write src num w = Some (r, w')"
  shows "\<exists>es. w' = w\<lparr>tx := es, sent := sent w @ (case r of Ssl_ok bs \<Rightarrow> bs | _ \<Rightarrow> [])\<rparr> \<and> ssl w = Live \<and>
    (\<forall>bs. r = Ssl_ok bs \<longrightarrow> (\<exists>cs. bytes_at src (nat num) = Some cs \<and> bs = take (length bs) cs))"
proof -
  from assms obtain cs where cs: "ssl w = Live" "bytes_at src (nat num) = Some cs"
    by (auto simp: SSL_write_def bind_eq_Some_conv split: if_splits)
  show ?thesis
  proof (cases "tx w")
    case Nil
    with assms cs show ?thesis by (intro exI [of _ "[]"]) (auto simp: SSL_write_def)
  next
    case (Cons e es)
    with assms cs show ?thesis
      by (intro exI [of _ es]) (cases e; auto simp: SSL_write_def min_def split: if_splits)
  qed
qed

lemma SSL_write_live:
  "ssl w = Live \<Longrightarrow> bytes_at src (nat num) = Some bs \<Longrightarrow> \<exists>r w'. SSL_write src num w = Some (r, w')"
  by (auto simp: SSL_write_def)

lemma network_write_loop_spec:
  assumes "ssl w = Live" "int written \<le> n" "n \<le> int (length buf)"
  shows "\<exists>es k. let w' = w\<lparr>tx := es, sent := sent w @ take k (drop written buf)\<rparr> in
    length es \<le> length (tx w) \<and>
    (network_write_loop (Ptr buf) n written w = Some (n, w') \<and> int (written + k) = n \<or>
     network_write_loop (Ptr buf) n written w = Some (- 1, w') \<and> int (written + k) < n)"
  using assms
proof (induction "Ptr buf" n written w rule: network_write_loop.induct)
  case (1 n written w)
  show ?case
  proof (cases "int written < n")
    case False
    with 1 show ?thesis
      by (intro exI [of _ "tx w"] exI [of _ 0]) (simp add: network_write_loop.simps)
  next
    case True
    let ?p = "Ptr (drop written buf)" and ?m = "n - int written"
    have pos: "0 < ?m" using True by simp
    have p: "ptr_add (Ptr buf) written = Some ?p" using True "1.prems" by simp
    have bytes: "bytes_at ?p (nat ?m) = Some (take (nat ?m) (drop written buf))" using True "1.prems" by simp
    obtain r w' where r: "SSL_write ?p ?m w = Some (r, w')"
      using SSL_write_live [OF "1.prems"(1) bytes] by blast
    note size = SSL_write_cases [OF r pos]
    from SSL_write_frame [OF r] obtain es where
      w': "w' = w\<lparr>tx := es, sent := sent w @ (case r of Ssl_ok bs \<Rightarrow> bs | _ \<Rightarrow> [])\<rparr>"
      and bs: "\<And>bs. r = Ssl_ok bs \<Longrightarrow> \<exists>cs. bytes_at ?p (nat ?m) = Some cs \<and> bs = take (length bs) cs" by blast
    have live: "ssl w' = Live" using w' "1.prems" by simp
    show ?thesis
    proof (cases r)
      case Ssl_error
      then have "network_write_loop (Ptr buf) n written w = Some (- 1, w')"
        using True p r by (simp add: network_write_loop.simps)
      then show ?thesis using True size Ssl_error w'
        by (intro exI [of _ es] exI [of _ 0]) auto
    next
      case Ssl_want
      from "1.hyps"(2) [OF True p r refl Ssl_want live "1.prems"(2,3)] obtain es' k where
        "let w'' = w'\<lparr>tx := es', sent := sent w' @ take k (drop written buf)\<rparr> in length es' \<le> length (tx w') \<and>
         (network_write_loop (Ptr buf) n written w' = Some (n, w'') \<and> int (written + k) = n \<or>
          network_write_loop (Ptr buf) n written w' = Some (- 1, w'') \<and> int (written + k) < n)" by blast
      moreover have "network_write_loop (Ptr buf) n written w = network_write_loop (Ptr buf) n written w'"
        using True p r Ssl_want by (subst network_write_loop.simps) simp
      ultimately show ?thesis using size Ssl_want w'
        by (intro exI [of _ es'] exI [of _ k]) (auto simp: Let_def)
    next
      case (Ssl_ok cs)
      let ?k = "length cs"
      from size Ssl_ok have k: "int (written + ?k) \<le> n" by auto
      from bs [OF Ssl_ok] bytes have "cs = take ?k (take (nat ?m) (drop written buf))" by simp
      moreover have "?k \<le> nat ?m" using k by simp
      ultimately have "cs = take ?k (drop written buf)" by (metis take_take min.absorb1)
      note cs = this k
      from "1.hyps"(1) [OF True p r refl Ssl_ok live cs(2) "1.prems"(3)] obtain es' k where
        *: "let w'' = w'\<lparr>tx := es', sent := sent w' @ take k (drop (written + ?k) buf)\<rparr> in length es' \<le> length (tx w') \<and>
         (network_write_loop (Ptr buf) n (written + ?k) w' = Some (n, w'') \<and> int (written + ?k + k) = n \<or>
          network_write_loop (Ptr buf) n (written + ?k) w' = Some (- 1, w'') \<and> int (written + ?k + k) < n)" by blast
      moreover have "network_write_loop (Ptr buf) n written w = network_write_loop (Ptr buf) n (written + ?k) w'"
        using True p r Ssl_ok by (subst network_write_loop.simps) simp
      moreover have "sent w' @ take k (drop (written + ?k) buf) = sent w @ take (?k + k) (drop written buf)"
        using w' Ssl_ok take_add [of ?k k "drop written buf"] cs(1) by (simp add: add.commute)
      ultimately show ?thesis using size Ssl_ok w'
        by (intro exI [of _ es'] exI [of _ "?k + k"]) (auto simp: Let_def add.assoc)
    qed
  qed
qed

text \<open>On a live connection all bytes are sent, in order, or a prefix of them and \<open>-1\<close> is returned.\<close>

lemma mqtt_network_write_spec:
  assumes "ssl w = Live" "0 \<le> n" "n \<le> int (length buf)"
  shows "\<exists>es k. let w' = w\<lparr>tx := es, sent := sent w @ take k buf\<rparr> in length es \<le> length (tx w) \<and>
    (mqtt_network_write (Ptr buf) n w = Some (n, w') \<and> int k = n \<or>
     mqtt_network_write (Ptr buf) n w = Some (- 1, w') \<and> int k < n)"
  using network_write_loop_spec [OF assms(1) _ assms(3), of 0] assms(2) by (auto simp: mqtt_network_write_def)

text \<open>Without a fault the only results are the requested length and \<open>-1\<close>.\<close>

lemma network_write_loop_result:
  "network_write_loop src n written w = Some (rc, w') \<Longrightarrow> int written \<le> n \<Longrightarrow>
     (rc = n \<or> rc = - 1) \<and> rx w' = rx w"
proof (induction src n written w rule: network_write_loop.induct)
  case (1 src n written w)
  show ?case
  proof (cases "int written < n")
    case True
    with "1.prems" obtain p r w1 where p: "ptr_add src written = Some p"
      and r: "SSL_write p (n - int written) w = Some (r, w1)"
      by (auto simp: network_write_loop.simps [of src n written w] split: option.splits)
    have "0 < n - int written" using True by simp
    note size = SSL_write_cases [OF r this] and frame = SSL_write_frame [OF r]
    show ?thesis
    proof (cases r)
      case (Ssl_ok bs)
      with size have "int (written + length bs) \<le> n" by auto
      with "1.IH"(1) [OF True p r refl Ssl_ok] "1.prems" True p r Ssl_ok frame show ?thesis
        by (auto simp: network_write_loop.simps [of src n written w])
    next
      case Ssl_want
      with "1.IH"(2) [OF True p r refl Ssl_want] "1.prems" True p r frame show ?thesis
        by (auto simp: network_write_loop.simps [of src n written w])
    next
      case Ssl_error
      with "1.prems" True p r frame show ?thesis
        by (auto simp: network_write_loop.simps [of src n written w])
    qed
  next
    case False
    with "1.prems" show ?thesis by (auto simp: network_write_loop.simps [of src n written w])
  qed
qed

lemma mqtt_network_write_result:
  "mqtt_network_write src n w = Some (rc, w') \<Longrightarrow> 0 \<le> n \<Longrightarrow> (rc = n \<or> rc = - 1) \<and> rx w' = rx w"
  using network_write_loop_result [of src n 0 w rc w'] by (simp add: mqtt_network_write_def)

lemma mqtt_network_read_dead: "ssl w \<noteq> Live \<Longrightarrow> 0 < n \<Longrightarrow> mqtt_network_read n w = None"
  by (simp add: mqtt_network_read_def network_read_loop.simps SSL_read_def)

lemma mqtt_network_read_result:
  assumes "mqtt_network_read n w = Some (rc, bs, w')" "0 < n"
  shows "ssl w = Live \<and> (\<exists>es. w' = w\<lparr>rx := es\<rparr>) \<and>
    (rc = n \<and> length bs = nat n \<and> rx_size w' + nat n \<le> rx_size w \<or>
     rc = - 1 \<and> int (length bs) < n \<and> rx_size w' \<le> rx_size w)"
proof -
  have live: "ssl w = Live" using assms mqtt_network_read_dead by fastforce
  from mqtt_network_read_spec [OF live, of n] assms show ?thesis
    by (auto simp: Let_def live split: if_splits)
qed

subsection \<open>Timers\<close>

text \<open>The time in microseconds; \<open>normal\<close> is what the C library guarantees of \<^verbatim>\<open>gettimeofday\<close>.\<close>

definition usec :: "timeval \<Rightarrow> int" where
  "usec t = 1000000 * tv_sec t + tv_usec t"

definition normal :: "timeval \<Rightarrow> bool" where
  "normal t \<longleftrightarrow> 0 \<le> tv_usec t \<and> tv_usec t < 1000000"

lemma usec_timersub [simp]: "usec (timersub a b) = usec a - usec b"
  by (simp add: timersub_def usec_def Let_def)

lemma usec_timeradd [simp]: "usec (timeradd a b) = usec a + usec b"
  by (simp add: timeradd_def usec_def Let_def)

lemma normal_timersub: "normal a \<Longrightarrow> normal b \<Longrightarrow> normal (timersub a b)"
  by (auto simp: timersub_def normal_def Let_def)

lemma normal_timeradd: "normal a \<Longrightarrow> normal b \<Longrightarrow> normal (timeradd a b)"
  by (auto simp: timeradd_def normal_def Let_def)

lemma normal_sign: "normal t \<Longrightarrow> tv_sec t < 0 \<longleftrightarrow> usec t < 0"
  by (auto simp: normal_def usec_def)

lemma TimerIsExpired_usec:
  assumes "normal (end_time timer)" "normal (clock w (ticks w))"
  shows "TimerIsExpired timer w = (usec (end_time timer) \<le> usec (clock w (ticks w)), w\<lparr>ticks := ticks w + 1\<rparr>)"
proof -
  define res where "res = timersub (end_time timer) (clock w (ticks w))"
  have n: "normal res" using assms by (simp add: res_def normal_timersub)
  then have "tv_sec res < 0 \<or> tv_sec res = 0 \<and> tv_usec res \<le> 0 \<longleftrightarrow> usec res \<le> 0"
    by (auto simp: normal_def usec_def)
  then show ?thesis by (simp add: TimerIsExpired_def gettimeofday_def res_def Let_def)
qed

lemma u32_bounds: "0 \<le> uint (x :: u32)" "uint (x :: u32) < 4294967296"
  using unsigned_less [of x] by simp_all

lemma TimerCountdownMS_usec:
  fixes timeout :: u32
  assumes "normal (clock w (ticks w))" "TimerCountdownMS timeout w = (timer, w')"
  shows "w' = w\<lparr>ticks := ticks w + 1\<rparr>" "normal (end_time timer)"
    "usec (end_time timer) = usec (clock w (ticks w)) + 1000 * uint timeout"
proof -
  have d: "uint (timeout div 1000) = uint timeout div 1000" by (simp add: uint_div)
  have "uint (timeout mod 1000) = uint timeout mod 1000" by (simp add: uint_mod)
  then have m: "uint ((timeout mod 1000) * 1000) = uint timeout mod 1000 * 1000"
    using pos_mod_bound [of 1000 "uint timeout"] pos_mod_sign [of 1000 "uint timeout"]
    by (simp add: uint_word_ariths)
  have "normal \<lparr>tv_sec = uint timeout div 1000, tv_usec = uint timeout mod 1000 * 1000\<rparr>"
    using pos_mod_bound [of 1000 "uint timeout"] by (simp add: normal_def)
  moreover have "usec \<lparr>tv_sec = uint timeout div 1000, tv_usec = uint timeout mod 1000 * 1000\<rparr> = 1000 * uint timeout"
    unfolding usec_def timeval.simps using mult_div_mod_eq [of 1000 "uint timeout"] by linarith
  ultimately show "w' = w\<lparr>ticks := ticks w + 1\<rparr>" "normal (end_time timer)"
    "usec (end_time timer) = usec (clock w (ticks w)) + 1000 * uint timeout"
    using assms by (auto simp: TimerCountdownMS_def gettimeofday_def d m Let_def normal_timeradd)
qed

lemma TimerCountdown_usec:
  assumes "normal (clock w (ticks w))" "TimerCountdown timeout w = (timer, w')"
  shows "w' = w\<lparr>ticks := ticks w + 1\<rparr>" "normal (end_time timer)"
    "usec (end_time timer) = usec (clock w (ticks w)) + 1000000 * uint timeout"
proof -
  have "normal \<lparr>tv_sec = uint timeout, tv_usec = 0\<rparr>" by (simp add: normal_def)
  with assms show "w' = w\<lparr>ticks := ticks w + 1\<rparr>" "normal (end_time timer)"
    "usec (end_time timer) = usec (clock w (ticks w)) + 1000000 * uint timeout"
    by (auto simp: TimerCountdown_def gettimeofday_def Let_def normal_timeradd) (simp add: usec_def)
qed

lemma TimerLeftMS_usec:
  assumes "normal (end_time timer)" "normal (clock w (ticks w))"
    "usec (end_time timer) - usec (clock w (ticks w)) < 2147483648000"
  shows "TimerLeftMS timer w =
    (max 0 ((usec (end_time timer) - usec (clock w (ticks w))) div 1000), w\<lparr>ticks := ticks w + 1\<rparr>)"
proof -
  define res where "res = timersub (end_time timer) (clock w (ticks w))"
  have n: "normal res" using assms by (simp add: res_def normal_timersub)
  have u: "usec res = usec (end_time timer) - usec (clock w (ticks w))" by (simp add: res_def)
  have "(if tv_sec res < 0 then 0 else to_int (tv_sec res * 1000 + tv_usec res sdiv 1000)) = max 0 (usec res div 1000)"
  proof (cases "tv_sec res < 0")
    case True
    with n have "usec res < 0" by (simp add: normal_sign)
    with True show ?thesis by (simp add: max_def div_neg_pos_less0) 
  next
    case False
    have "usec res div 1000 = tv_sec res * 1000 + tv_usec res div 1000"
      by (simp add: usec_def)
    moreover have "0 \<le> usec res div 1000" using False normal_sign [OF n] by (simp add: pos_imp_zdiv_nonneg_iff)
    moreover have "usec res div 1000 < 2147483648" using assms(3) u by simp
    ultimately show ?thesis using False n by (simp add: sdiv_nonneg normal_def)
  qed
  then show ?thesis
    unfolding u unfolding res_def
    by (simp add: TimerLeftMS_def gettimeofday_def Let_def split del: if_split)
qed

text \<open>Every timer function reads the clock once and changes nothing else.\<close>

lemma timer_frame [simp]:
  "snd (TimerIsExpired timer w) = w\<lparr>ticks := ticks w + 1\<rparr>"
  "snd (TimerCountdownMS timeout w) = w\<lparr>ticks := ticks w + 1\<rparr>"
  "snd (TimerCountdown timeout w) = w\<lparr>ticks := ticks w + 1\<rparr>"
  "snd (TimerLeftMS timer w) = w\<lparr>ticks := ticks w + 1\<rparr>"
  by (simp_all add: TimerIsExpired_def TimerCountdownMS_def TimerCountdown_def TimerLeftMS_def gettimeofday_def Let_def)

subsection \<open>Connection set-up and release\<close>

text \<open>The three objects a connection owns.\<close>

definition handles_live :: "'app world \<Rightarrow> bool" where
  "handles_live w \<longleftrightarrow> ssl w = Live \<and> ctx w = Live \<and> bio_err w = Live"

definition functions_set :: "'app world \<Rightarrow> bool" where
  "functions_set w \<longleftrightarrow> net_mqttread (mqttNet w) = Fn_network_read \<and>
     net_mqttwrite (mqttNet w) = Fn_network_write \<and> net_disconnect (mqttNet w) = Fn_network_disconnect"

lemma network_setup_context_cases:
  "network_setup_context e w = (rc, w') \<Longrightarrow>
     w' = w\<lparr>ctx := if env_ctx e then Live else Null_handle\<rparr> \<and> (rc = 0 \<and> env_ctx e \<or> rc = 1)"
  by (auto simp: network_setup_context_def Let_def split: if_splits)

lemma network_setup_socket_cases:
  "network_setup_socket e port w = (rc, w') \<Longrightarrow>
     w' = w\<lparr>sockfd := env_socket e, server_addr := server_addr w'\<rparr> \<and> (rc = 0 \<and> 0 \<le> env_socket e \<or> rc = 1)"
  by (cases "env_host e") (auto simp: network_setup_socket_def Let_def split: if_splits)

lemma network_setup_tls_cases:
  "network_setup_tls e w = (rc, w') \<Longrightarrow>
     w' = w\<lparr>ssl := if env_ssl e then Live else Null_handle\<rparr> \<and>
     (rc = 0 \<and> env_ssl e \<and> env_handshake e = 1 \<and> env_verified e \<or> rc = 1)"
  by (auto simp: network_setup_tls_def Let_def split: if_splits)

text \<open>
  The outcome of \<^verbatim>\<open>mqtt_network_connect\<close>: which global variables it has assigned and what success
  means. \<open>w0\<close> is the world after the initialization.
\<close>

lemma mqtt_network_connect_cases:
  assumes c: "mqtt_network_connect port w = Some (rc, w')"
  defines "e \<equiv> case tls_envs w of [] \<Rightarrow> no_env | e # _ \<Rightarrow> e"
  defines "w0 \<equiv> (mqtt_network_init w)\<lparr>tls_envs := tl (tls_envs w), bio_err := Live\<rparr>"
  shows "\<exists>c s f a. w' = w0\<lparr>ctx := c, ssl := s, sockfd := f, server_addr := a\<rparr> \<and>
    (c = Live \<or> c = Null_handle) \<and> (s = ssl w \<or> s = Live \<or> s = Null_handle) \<and>
    (rc = 0 \<and> c = Live \<and> s = Live \<and> 0 \<le> f \<and> tls_envs w \<noteq> [] \<and> env_handshake e = 1 \<and> env_verified e \<or> rc = 1)"
proof -
  have e: "(case tls_envs (mqtt_network_init w) of [] \<Rightarrow> (no_env, mqtt_network_init w)
       | e # es \<Rightarrow> (e, (mqtt_network_init w)\<lparr>tls_envs := es\<rparr>)) = (e, (mqtt_network_init w)\<lparr>tls_envs := tl (tls_envs w)\<rparr>)"
    by (simp add: e_def mqtt_network_init_def split: list.split)
  obtain rc1 w1 where 1: "network_setup_context e w0 = (rc1, w1)" by fastforce
  from network_setup_context_cases [OF 1] obtain c where
    w1: "w1 = w0\<lparr>ctx := c\<rparr>" "c = Live \<or> c = Null_handle" "rc1 = 0 \<and> c = Live \<and> env_ctx e \<or> rc1 = 1" by auto
  have s0: "ssl w0 = ssl w" by (simp add: w0_def mqtt_network_init_def)
  show ?thesis
  proof (cases "rc1 = 0")
    case False
    then have "w' = w1 \<and> rc = rc1"
      using c unfolding mqtt_network_connect_def Let_def e by (simp add: 1 flip: w0_def)
    with False w1 s0 show ?thesis
      by (intro exI [of _ c] exI [of _ "ssl w"] exI [of _ "sockfd w0"] exI [of _ "server_addr w0"]) simp
  next
    case True
    with c obtain p where p: "atoi port = Some p"
      unfolding mqtt_network_connect_def Let_def e by (auto simp: 1 bind_eq_Some_conv simp flip: w0_def)
    obtain rc2 w2 where 2: "network_setup_socket e p w1 = (rc2, w2)" by fastforce
    from network_setup_socket_cases [OF 2] obtain a where
      w2: "w2 = w1\<lparr>sockfd := env_socket e, server_addr := a\<rparr>" "rc2 = 0 \<and> 0 \<le> env_socket e \<or> rc2 = 1" by blast
    show ?thesis
    proof (cases "rc2 = 0")
      case False
      with True p have "w' = w2 \<and> rc = rc2"
        using c unfolding mqtt_network_connect_def Let_def e by (simp add: 1 2 flip: w0_def)
      with False w1 w2 s0 show ?thesis
        by (intro exI [of _ c] exI [of _ "ssl w"] exI [of _ "env_socket e"] exI [of _ a]) simp
    next
      case 0: True
      with True p have "network_setup_tls e w2 = (rc, w')"
        using c unfolding mqtt_network_connect_def Let_def e by (simp add: 1 2 flip: w0_def)
      note w3 = network_setup_tls_cases [OF this]
      have "env_ssl e \<Longrightarrow> tls_envs w \<noteq> []" by (auto simp: e_def no_env_def)
      with True 0 w1 w2 w3 show ?thesis
        by (intro exI [of _ c] exI [of _ "if env_ssl e then Live else Null_handle"] exI [of _ "env_socket e"] exI [of _ a])
          auto
    qed
  qed
qed

lemma mqtt_network_connect_live:
  assumes "mqtt_network_connect port w = Some (0, w')"
  shows "handles_live w'" "functions_set w'" "0 \<le> sockfd w'"
    "\<exists>e es. tls_envs w = e # es \<and> env_handshake e = 1 \<and> env_verified e"
  using mqtt_network_connect_cases [OF assms]
  by (auto simp: handles_live_def functions_set_def mqtt_network_init_def neq_Nil_conv)

lemma mqtt_network_connect_frame:
  assumes "mqtt_network_connect port w = Some (rc, w')"
  shows "rx w' = rx w" "tx w' = tx w" "sent w' = sent w" "app w' = app w" "clock w' = clock w" "ticks w' = ticks w"
    "closed_fds w' = closed_fds w" "rc = 0 \<or> rc = 1" "bio_err w' = Live" "functions_set w'"
    "ssl w' = ssl w \<or> ssl w' = Live \<or> ssl w' = Null_handle" "ctx w' = Live \<or> ctx w' = Null_handle"
  using mqtt_network_connect_cases [OF assms]
  by (auto simp: mqtt_network_init_def functions_set_def)

lemma mqtt_network_disconnect_live:
  "ssl w \<noteq> Freed \<Longrightarrow> ctx w \<noteq> Freed \<Longrightarrow> bio_err w \<noteq> Freed \<Longrightarrow>
     \<exists>w'. mqtt_network_disconnect w = Some w' \<and> closed_fds w' = closed_fds w @ [sockfd w] \<and>
       ssl w' \<noteq> Live \<and> ctx w' \<noteq> Live \<and> bio_err w' \<noteq> Live"
  by (cases "ssl w"; cases "ctx w"; cases "bio_err w")
    (simp_all add: mqtt_network_disconnect_def SSL_shutdown_def close_fd_def Let_def)

lemma mqtt_network_disconnect_stale: "ssl w = Freed \<Longrightarrow> mqtt_network_disconnect w = None"
  by (simp add: mqtt_network_disconnect_def SSL_shutdown_def)

subsection \<open>Properties\<close>

text \<open>
  C28. \<^verbatim>\<open>mqtt_network_read\<close> on a live connection returns the next \<open>n\<close> bytes of the stream and leaves the
  rest, however the stream is cut into pieces and whatever retries are needed; if the stream fails
  before, it returns \<open>-1\<close> after storing what was left. Nothing but the stream changes.
\<close>

theorem network_read_exact:
  assumes "ssl w = Live" "0 \<le> n"
  shows "\<exists>es. let w' = w\<lparr>rx := es\<rparr> in
    if n \<le> int (length (pending w))
    then mqtt_network_read n w = Some (n, take (nat n) (pending w), w') \<and> pending w' = drop (nat n) (pending w)
    else mqtt_network_read n w = Some (- 1, pending w, w')"
  using mqtt_network_read_spec [OF assms] by (auto simp: Let_def split: if_splits)

text \<open>\<open>example_world\<close> is a world with a live connection that has three bytes to read.\<close>

definition example_world :: "unit world" where
  "example_world = \<lparr>clock = (\<lambda>t. \<lparr>tv_sec = int t, tv_usec = 0\<rparr>), ticks = 0,
     rx = [Rx_data [32, 2], Rx_want, Rx_data [0]], tx = [Tx_accept 2, Tx_want, Tx_accept 10], sent = [],
     selects = [], tls_envs = [], ssl = Live, ctx = Live, bio_err = Live, sockfd = 3, server_addr = (0, []),
     closed_fds = [], mqttNet = \<lparr>net_socket = 0, net_mqttread = Fn_network_read, net_mqttwrite = Fn_network_write,
       net_disconnect = Fn_network_disconnect\<rparr>,
     junk_topic = MQTTString_initializer, junk_payload = Wild, junk_byte = 0, junk_int = 0, junk_u16 = 0, app = ()\<rparr>"

theorem network_read_exact_witness:
  "\<exists>es. let w' = example_world\<lparr>rx := es\<rparr> in
    if 3 \<le> int (length (pending example_world))
    then mqtt_network_read 3 example_world = Some (3, take (nat 3) (pending example_world), w') \<and>
      pending w' = drop (nat 3) (pending example_world)
    else mqtt_network_read 3 example_world = Some (- 1, pending example_world, w')"
  by (rule network_read_exact) (simp_all add: example_world_def)

text \<open>
  C29. \<^verbatim>\<open>mqtt_network_write\<close> on a live connection sends the bytes of the buffer in order and each byte
  once: either all of them, and it returns their number, or a prefix, and it returns \<open>-1\<close>.
\<close>

theorem network_write_in_order:
  assumes "ssl w = Live" "0 \<le> n" "n \<le> int (length buf)"
  shows "\<exists>rc w' k. mqtt_network_write (Ptr buf) n w = Some (rc, w') \<and> sent w' = sent w @ take k buf \<and>
    (rc = n \<and> int k = n \<or> rc = - 1 \<and> int k < n)"
  using mqtt_network_write_spec [OF assms] by (fastforce simp: Let_def)

theorem network_write_in_order_witness:
  "\<exists>rc w' k. mqtt_network_write (Ptr [1, 2, 3, 4]) 4 example_world = Some (rc, w') \<and>
    sent w' = sent example_world @ take k [1, 2, 3, 4] \<and> (rc = 4 \<and> int k = 4 \<or> rc = - 1 \<and> int k < 4)"
  by (rule network_write_in_order) (simp_all add: example_world_def)

text \<open>
  C30. A countdown timer is expired exactly when the clock has advanced by the time-out since it was
  set, for every time-out of the type \<^verbatim>\<open>unsigned int\<close>.
\<close>

theorem timer_expires_on_time:
  assumes "\<forall>t. normal (clock w t)" "clock w' = clock w"
  shows "fst (TimerIsExpired (fst (TimerCountdownMS timeout w)) w') \<longleftrightarrow>
    usec (clock w (ticks w)) + 1000 * uint timeout \<le> usec (clock w (ticks w'))"
proof -
  obtain timer w1 where t: "TimerCountdownMS timeout w = (timer, w1)" by fastforce
  with TimerCountdownMS_usec [OF _ t] TimerIsExpired_usec [of timer w'] assms show ?thesis by simp
qed

theorem timer_expires_on_time_witness:
  "fst (TimerIsExpired (fst (TimerCountdownMS 2000 example_world)) (example_world\<lparr>ticks := 5\<rparr>)) \<longleftrightarrow>
    usec (clock example_world (ticks example_world)) + 1000 * uint (2000 :: u32) \<le>
      usec (clock example_world (ticks (example_world\<lparr>ticks := 5\<rparr>)))"
  by (rule timer_expires_on_time) (simp_all add: example_world_def normal_def)

text \<open>
  C31. \<^verbatim>\<open>mqtt_network_connect\<close> reports success only after a TLS handshake whose server certificate was
  verified; the connection then owns live TLS objects and a valid socket, the function pointers
  are set, and \<^verbatim>\<open>mqtt_network_disconnect\<close> releases everything and closes the socket once.
\<close>

theorem connect_then_disconnect:
  assumes "mqtt_network_connect port w = Some (0, w')"
  shows "(\<exists>e es. tls_envs w = e # es \<and> env_handshake e = 1 \<and> env_verified e) \<and>
    handles_live w' \<and> functions_set w' \<and> 0 \<le> sockfd w' \<and>
    (\<exists>w''. mqtt_network_disconnect w' = Some w'' \<and> closed_fds w'' = closed_fds w @ [sockfd w'] \<and>
       ssl w'' = Freed \<and> ctx w'' = Freed \<and> bio_err w'' = Freed)"
proof -
  note live = mqtt_network_connect_live [OF assms] mqtt_network_connect_frame(7) [OF assms]
  then show ?thesis
    by (auto simp: handles_live_def mqtt_network_disconnect_def SSL_shutdown_def close_fd_def Let_def)
qed

definition example_env :: tls_env where
  "example_env = \<lparr>env_ctx = True, env_ca = True, env_cert = True, env_key = True,
     env_key_matches = True, env_default_paths = True, env_socket = 4, env_host = Some [127, 0, 0, 1],
     env_connect = 0, env_ssl = True, env_handshake = 1, env_verified = True\<rparr>"

lemma example_connect_ok:
  "mqtt_network_connect (Ptr [56, 56, 0]) (example_world\<lparr>tls_envs := [example_env]\<rparr>) =
     Some (0, example_world\<lparr>sockfd := 4, server_addr := (88, [127, 0, 0, 1])\<rparr>)"
  by (simp add: mqtt_network_connect_def network_setup_context_def network_setup_socket_def
      network_setup_tls_def mqtt_network_init_def example_env_def example_world_def atoi_bytes_def
      is_space_def is_digit_def decimal_def Let_def)

theorem connect_then_disconnect_witness:
  "let w = example_world\<lparr>tls_envs := [example_env]\<rparr>; w' = example_world\<lparr>sockfd := 4, server_addr := (88, [127, 0, 0, 1])\<rparr> in
   (\<exists>e es. tls_envs w = e # es \<and> env_handshake e = 1 \<and> env_verified e) \<and>
    handles_live w' \<and> functions_set w' \<and> 0 \<le> sockfd w' \<and>
    (\<exists>w''. mqtt_network_disconnect w' = Some w'' \<and> closed_fds w'' = closed_fds w @ [sockfd w'] \<and>
       ssl w'' = Freed \<and> ctx w'' = Freed \<and> bio_err w'' = Freed)"
  unfolding Let_def by (rule connect_then_disconnect [OF example_connect_ok])

end
