(* ===== verification/Client.thy ===== *)
theory Client
  imports Packet_Subscribe Interface
begin

text \<open>
  \<^verbatim>\<open>MQTTClient.c\<close> and \<^verbatim>\<open>MQTTClient.h\<close>: the MQTT client. Every function takes the client structure and
  the world and returns them with its result. The code is compiled without \<^verbatim>\<open>MQTT_TASK\<close>. The pointer
  \<^verbatim>\<open>ipstack\<close> always refers to the one \<^verbatim>\<open>Network\<close> object of the program, which the world holds, so it is
  not a field here; a message handler is a function on the application's part of the world.
\<close>

subsection \<open>Data\<close>

definition MAX_PACKET_ID :: int where "MAX_PACKET_ID = 65535"
definition MAX_MESSAGE_HANDLERS :: nat where "MAX_MESSAGE_HANDLERS = 5"

definition QOS0 :: int where "QOS0 = 0"
definition QOS1 :: int where "QOS1 = 1"
definition QOS2 :: int where "QOS2 = 2"
definition SUBFAIL :: int where "SUBFAIL = 128"

definition BUFFER_OVERFLOW :: int where "BUFFER_OVERFLOW = - 2"
definition FAILURE :: int where "FAILURE = - 1"
definition MQTT_SUCCESS :: int where "MQTT_SUCCESS = 0"

lemmas constants [simp] = MAX_PACKET_ID_def MAX_MESSAGE_HANDLERS_def QOS0_def QOS1_def QOS2_def SUBFAIL_def
  BUFFER_OVERFLOW_def FAILURE_def MQTT_SUCCESS_def

record MQTTMessage =
  msg_qos :: int
  msg_retained :: byte
  msg_dup :: byte
  msg_id :: u16
  msg_payload :: cptr
  msg_payloadlen :: size_t

record MessageData =
  md_message :: MQTTMessage
  md_topicName :: MQTTString

record MQTTConnackData =
  cad_rc :: byte
  cad_sessionPresent :: byte

type_synonym 'app messageHandler = "MessageData \<Rightarrow> 'app \<Rightarrow> 'app option"

record 'app MessageHandlers =
  topicFilter :: cptr
  fp :: "'app messageHandler option"

record 'app MQTTClient =
  next_packetid :: u32
  command_timeout_ms :: u32
  buf_size :: size_t
  readbuf_size :: size_t
  sendbuf :: "byte list"
  readbuf :: "byte list"
  keepAliveInterval :: u32
  ping_outstanding :: int
  isconnected :: int
  cleansession :: int
  messageHandlers :: "'app MessageHandlers list"
  defaultMessageHandler :: "'app messageHandler option"
  last_sent :: Timer
  last_received :: Timer

text \<open>The conversion of a \<^verbatim>\<open>size_t\<close> argument to \<^verbatim>\<open>int\<close>.\<close>

definition size_to_int :: "size_t \<Rightarrow> int" where
  "size_to_int n = to_int (uint n)"

subsection \<open>Sending\<close>

definition NewMessageData :: "MQTTString \<Rightarrow> MQTTMessage \<Rightarrow> MessageData" where
  "NewMessageData aTopicName aMessage = \<lparr>md_message = aMessage, md_topicName = aTopicName\<rparr>"

definition getNextPacketId :: "'app MQTTClient \<Rightarrow> int \<times> 'app MQTTClient" where
  "getNextPacketId c =
     (let i = (if uint (next_packetid c) = MAX_PACKET_ID then 1 else next_packetid c + 1) in
      (to_int (uint i), c\<lparr>next_packetid := i\<rparr>))"

lemma ipstack_write_result:
  "ipstack_write src n w = Some (rc, w') \<Longrightarrow> 0 \<le> n \<Longrightarrow> (rc = n \<or> rc = - 1) \<and> rx w' = rx w"
  by (auto simp: ipstack_write_def dest: mqtt_network_write_result split: if_splits)

text \<open>\<open>snt\<close> is the variable \<^verbatim>\<open>sent\<close>. The call offers \<^verbatim>\<open>length\<close> bytes from \<^verbatim>\<open>buf[sent]\<close> on.\<close>

function sendPacket_loop ::
  "byte list \<Rightarrow> int \<Rightarrow> nat \<Rightarrow> Timer \<Rightarrow> 'app world \<Rightarrow> (nat \<times> 'app world) option" where
  "sendPacket_loop bs n snt timer w =
     (if int snt < n then
        (case TimerIsExpired timer w of (expired, w) \<Rightarrow>
           if expired then Some (snt, w)
           else (case TimerLeftMS timer w of (ms, w) \<Rightarrow>
             (case ptr_add (Ptr bs) snt of
                None \<Rightarrow> None
              | Some p \<Rightarrow>
                  (case ipstack_write p n w of
                     None \<Rightarrow> None
                   | Some (rc, w) \<Rightarrow>
                       if rc < 0 then Some (snt, w) else sendPacket_loop bs n (snt + nat rc) timer w))))
      else Some (snt, w))"
  by auto

termination
  by (relation "measure (\<lambda>(bs, n, snt, timer, w). nat (n - int snt))")
    (auto dest!: ipstack_write_result)

declare sendPacket_loop.simps [simp del]

definition sendPacket ::
  "'app MQTTClient \<Rightarrow> int \<Rightarrow> Timer \<Rightarrow> 'app world \<Rightarrow> (int \<times> 'app MQTTClient \<times> 'app world) option" where
  "sendPacket c n timer w = do {
     (snt, w) \<leftarrow> sendPacket_loop (sendbuf c) n 0 timer w;
     if int snt = n then
       (let (t, w) = TimerCountdown (keepAliveInterval c) w in Some (MQTT_SUCCESS, c\<lparr>last_sent := t\<rparr>, w))
     else Some (FAILURE, c, w)
   }"

definition MQTTClientInit ::
  "'app MQTTClient \<Rightarrow> u32 \<Rightarrow> byte list \<Rightarrow> size_t \<Rightarrow> byte list \<Rightarrow> size_t \<Rightarrow> 'app MQTTClient" where
  "MQTTClientInit c timeout sbuf sbuf_size rbuf rbuf_size =
     c\<lparr>messageHandlers := map (\<lambda>h. h\<lparr>topicFilter := Null\<rparr>) (messageHandlers c),
       command_timeout_ms := timeout, sendbuf := sbuf, buf_size := sbuf_size,
       readbuf := rbuf, readbuf_size := rbuf_size,
       isconnected := 0, cleansession := 0, ping_outstanding := 0,
       defaultMessageHandler := None, next_packetid := 1,
       last_sent := TimerInit, last_received := TimerInit\<rparr>"

subsection \<open>Receiving\<close>

text \<open>The loop of \<^verbatim>\<open>decodePacket\<close> is the one of \<^verbatim>\<open>MQTTPacket_decode\<close>, reading from the network.\<close>

definition decodePacket :: "'app world \<Rightarrow> (int \<times> int \<times> 'app world) option" where
  "decodePacket w = MQTTPacket_decode ipstack_read w"

text \<open>\<open>put buf p bs\<close> stores the bytes a read function has delivered.\<close>

definition put :: "byte list \<Rightarrow> nat \<Rightarrow> byte list \<Rightarrow> byte list option" where
  "put buf p bs = (if p + length bs \<le> length buf then Some (overwrite buf p bs) else None)"

text \<open>Lines 138 to 141, reached with a complete packet in the buffer.\<close>

definition readPacket_done ::
  "'app MQTTClient \<Rightarrow> 'app world \<Rightarrow> (int \<times> 'app MQTTClient \<times> 'app world) option" where
  "readPacket_done c w = do {
     header \<leftarrow> fetch (readbuf c) 0;
     if keepAliveInterval c > 0 then
       (let (t, w) = TimerCountdown (keepAliveInterval c) w in
        Some (header_type header, c\<lparr>last_received := t\<rparr>, w))
     else Some (header_type header, c, w)
   }"

text \<open>
  \<open>readPacket_body\<close> is the part after the remaining length (lines 126 to 136); \<open>n\<close> is \<^verbatim>\<open>len\<close>. The
  results of \<^verbatim>\<open>TimerLeftMS\<close> are time-outs, which the network functions ignore.
\<close>

definition readPacket_body ::
  "'app MQTTClient \<Rightarrow> int \<Rightarrow> int \<Rightarrow> Timer \<Rightarrow> 'app world \<Rightarrow> (int \<times> 'app MQTTClient \<times> 'app world) option" where
  "readPacket_body c n rlen timer w =
     (if word_of_int rlen > readbuf_size c - word_of_int n then Some (BUFFER_OVERFLOW, c, w)
      else if rlen > 0 then do {
        let w = snd (TimerLeftMS timer w);
        (r, bs, w) \<leftarrow> ipstack_read rlen w;
        rb \<leftarrow> put (readbuf c) (nat n) bs;
        let c = c\<lparr>readbuf := rb\<rparr>;
        if r \<noteq> rlen then Some (0, c, w) else readPacket_done c w
      }
      else readPacket_done c w)"

definition readPacket ::
  "'app MQTTClient \<Rightarrow> Timer \<Rightarrow> 'app world \<Rightarrow> (int \<times> 'app MQTTClient \<times> 'app world) option" where
  "readPacket c timer w = do {
     let w = snd (TimerLeftMS timer w);
     (rc, bs, w) \<leftarrow> ipstack_read 1 w;
     rb \<leftarrow> put (readbuf c) 0 bs;
     let c = c\<lparr>readbuf := rb\<rparr>;
     if rc \<noteq> 1 then Some (rc, c, w)
     else do {
       let w = snd (TimerLeftMS timer w);
       (_, rlen, w) \<leftarrow> decodePacket w;
       (k, rb) \<leftarrow> MQTTPacket_encode (readbuf c, 1) rlen;
       readPacket_body (c\<lparr>readbuf := rb\<rparr>) (1 + k) rlen timer w
     }
   }"

subsection \<open>Topic filters and delivery\<close>

text \<open>
  \<open>plus_skip\<close> is the inner loop of \<^verbatim>\<open>isTopicMatched\<close> (lines 163 to 166), \<open>topic_loop\<close> the outer one.
  The cursors are offsets: \<open>curf\<close> into the filter \<open>f\<close>, \<open>curn\<close> into the name \<open>d\<close>, which ends at \<open>e\<close>.
\<close>

function plus_skip :: "byte list \<Rightarrow> nat \<Rightarrow> int \<Rightarrow> nat option" where
  "plus_skip d curn e =
     (if int curn + 1 < e then
        (case fetch d (curn + 1) of
           None \<Rightarrow> None
         | Some c \<Rightarrow> if c \<noteq> 47 then plus_skip d (curn + 1) e else Some curn)
      else Some curn)"
  by auto

termination
  by (relation "measure (\<lambda>(d, curn, e). nat (e - int curn))") auto

declare plus_skip.simps [simp del]

function topic_loop :: "byte list \<Rightarrow> byte list \<Rightarrow> int \<Rightarrow> nat \<Rightarrow> nat \<Rightarrow> (nat \<times> nat) option" where
  "topic_loop f d e curf curn =
     (case fetch f curf of
        None \<Rightarrow> None
      | Some cf \<Rightarrow>
          if cf \<noteq> 0 \<and> int curn < e then
            (case fetch d curn of
               None \<Rightarrow> None
             | Some cn \<Rightarrow>
                 if cn = 47 \<and> cf \<noteq> 47 then Some (curf, curn)
                 else if cf \<noteq> 43 \<and> cf \<noteq> 35 \<and> cf \<noteq> cn then Some (curf, curn)
                 else if cf = 43 then
                   (case plus_skip d curn e of
                      None \<Rightarrow> None
                    | Some curn \<Rightarrow> topic_loop f d e (curf + 1) (curn + 1))
                 else if cf = 35 then topic_loop f d e (curf + 1) (nat (e - 1) + 1)
                 else topic_loop f d e (curf + 1) (curn + 1))
          else Some (curf, curn))"
  by auto

termination
  by (relation "measure (\<lambda>(f, d, e, curf, curn). length f - curf)") (auto simp: fetch_eq_Some_iff)

declare topic_loop.simps [simp del]

fun object_bytes :: "cptr \<Rightarrow> byte list option" where
  "object_bytes (Ptr bs) = Some bs"
| "object_bytes Null = Some []"
| "object_bytes Wild = None"

definition isTopicMatched :: "cptr \<Rightarrow> MQTTString \<Rightarrow> bool option" where
  "isTopicMatched tf topicName = do {
     f \<leftarrow> object_bytes tf;
     d \<leftarrow> object_bytes (data (lenstring topicName));
     let e = len (lenstring topicName);
     (curf, curn) \<leftarrow> topic_loop f d e 0 0;
     cf \<leftarrow> fetch f curf;
     Some (int curn = e \<and> cf = 0)
   }"

fun deliver_loop ::
  "'app MessageHandlers list \<Rightarrow> MQTTString \<Rightarrow> MQTTMessage \<Rightarrow> int \<Rightarrow> 'app \<Rightarrow> (int \<times> 'app) option" where
  "deliver_loop [] topicName message rc a = Some (rc, a)"
| "deliver_loop (h # hs) topicName message rc a = do {
     hit \<leftarrow> (if topicFilter h \<noteq> Null then do {
               eq \<leftarrow> MQTTPacket_equals topicName (topicFilter h);
               if eq then Some True else isTopicMatched (topicFilter h) topicName
             } else Some False);
     (rc, a) \<leftarrow> (case fp h of
         Some f \<Rightarrow>
           if hit then do { a \<leftarrow> f (NewMessageData topicName message) a; Some (MQTT_SUCCESS, a) }
           else Some (rc, a)
       | None \<Rightarrow> Some (rc, a));
     deliver_loop hs topicName message rc a
   }"

definition deliverMessage ::
  "'app MQTTClient \<Rightarrow> MQTTString \<Rightarrow> MQTTMessage \<Rightarrow> 'app world \<Rightarrow> (int \<times> 'app world) option" where
  "deliverMessage c topicName message w = do {
     (rc, a) \<leftarrow> deliver_loop (messageHandlers c) topicName message FAILURE (app w);
     (rc, a) \<leftarrow> (case defaultMessageHandler c of
         Some f \<Rightarrow>
           if rc = FAILURE then do { a \<leftarrow> f (NewMessageData topicName message) a; Some (MQTT_SUCCESS, a) }
           else Some (rc, a)
       | None \<Rightarrow> Some (rc, a));
     Some (rc, w\<lparr>app := a\<rparr>)
   }"

subsection \<open>Keep alive and sessions\<close>

text \<open>\<open>keepalive_expired\<close> is the condition of line 218, \<open>keepalive_ping\<close> the branch of lines 222 to 230.\<close>

definition keepalive_expired :: "'app MQTTClient \<Rightarrow> 'app world \<Rightarrow> bool \<times> 'app world" where
  "keepalive_expired c w =
     (let (expired, w) = TimerIsExpired (last_sent c) w in
      if expired then (True, w) else TimerIsExpired (last_received c) w)"

definition keepalive_ping ::
  "'app MQTTClient \<Rightarrow> 'app world \<Rightarrow> (int \<times> 'app MQTTClient \<times> 'app world) option" where
  "keepalive_ping c w = do {
     let (timer, w) = TimerCountdownMS 1000 w;
     (n, b) \<leftarrow> MQTTSerialize_pingreq (sendbuf c) (size_to_int (buf_size c));
     let c = c\<lparr>sendbuf := b\<rparr>;
     if n > 0 then do {
       (rc, c, w) \<leftarrow> sendPacket c n timer w;
       Some (rc, if rc = MQTT_SUCCESS then c\<lparr>ping_outstanding := 1\<rparr> else c, w)
     }
     else Some (MQTT_SUCCESS, c, w)
   }"

definition keepalive ::
  "'app MQTTClient \<Rightarrow> 'app world \<Rightarrow> (int \<times> 'app MQTTClient \<times> 'app world) option" where
  "keepalive c w =
     (if keepAliveInterval c = 0 then Some (MQTT_SUCCESS, c, w)
      else let (expired, w) = keepalive_expired c w in
        if \<not> expired then Some (MQTT_SUCCESS, c, w)
        else if ping_outstanding c \<noteq> 0 then Some (FAILURE, c, w)
        else keepalive_ping c w)"

definition MQTTCleanSession :: "'app MQTTClient \<Rightarrow> 'app MQTTClient" where
  "MQTTCleanSession c =
     c\<lparr>messageHandlers := map (\<lambda>h. h\<lparr>topicFilter := Null\<rparr>) (messageHandlers c)\<rparr>"

definition MQTTCloseSession :: "'app MQTTClient \<Rightarrow> 'app MQTTClient" where
  "MQTTCloseSession c =
     (let c = c\<lparr>ping_outstanding := 0, isconnected := 0\<rparr> in
      if cleansession c \<noteq> 0 then MQTTCleanSession c else c)"

subsection \<open>The receive cycle\<close>

text \<open>
  The branches of the switch in \<^verbatim>\<open>cycle\<close>. The second component of their result tells whether the
  branch left by \<^verbatim>\<open>goto exit\<close>. \<open>cycle_send_ack\<close> serializes an acknowledgement and sends it;
  \<open>publish_junk\<close> holds the uninitialized locals of the PUBLISH branch.
\<close>

type_synonym 'app branch = "(int \<times> bool \<times> 'app MQTTClient \<times> 'app world) option"

definition cycle_send_ack ::
  "'app MQTTClient \<Rightarrow> int \<Rightarrow> u16 \<Rightarrow> Timer \<Rightarrow> 'app world \<Rightarrow> (int \<times> 'app MQTTClient \<times> 'app world) option" where
  "cycle_send_ack c type packetid timer w = do {
     (n, b) \<leftarrow> MQTTSerialize_ack (sendbuf c) (size_to_int (buf_size c)) (word_of_int type, 0, packetid);
     let c = c\<lparr>sendbuf := b\<rparr>;
     if n \<le> 0 then Some (FAILURE, c, w) else sendPacket c n timer w
   }"

definition publish_junk :: "'app world \<Rightarrow> publish" where
  "publish_junk w = \<lparr>pub_dup = junk_byte w, pub_qos = junk_int w, pub_retained = junk_byte w,
     pub_packetid = junk_u16 w, pub_topicName = junk_topic w, pub_payload = junk_payload w,
     pub_payloadlen = 0\<rparr>"

text \<open>
  \<^verbatim>\<open>msg.payloadlen\<close> is cleared and then written through an \<^verbatim>\<open>int\<close> pointer, which sets its lower
  half on a little-endian target.
\<close>

definition message_of :: "publish \<Rightarrow> MQTTMessage" where
  "message_of p = \<lparr>msg_qos = pub_qos p, msg_retained = pub_retained p, msg_dup = pub_dup p,
     msg_id = pub_packetid p, msg_payload = pub_payload p,
     msg_payloadlen = word_of_int (pub_payloadlen p mod 4294967296)\<rparr>"

definition cycle_publish :: "'app MQTTClient \<Rightarrow> Timer \<Rightarrow> 'app world \<Rightarrow> 'app branch" where
  "cycle_publish c timer w = do {
     (ok, p) \<leftarrow> MQTTDeserialize_publish (publish_junk w) (readbuf c);
     if ok \<noteq> 1 then Some (MQTT_SUCCESS, True, c, w)
     else do {
       let msg = message_of p;
       (_, w) \<leftarrow> deliverMessage c (pub_topicName p) msg w;
       if msg_qos msg \<noteq> QOS0 then do {
         (rc, c, w) \<leftarrow>
           (if msg_qos msg = QOS1 then cycle_send_ack c (msgType PUBACK) (msg_id msg) timer w
            else if msg_qos msg = QOS2 then cycle_send_ack c (msgType PUBREC) (msg_id msg) timer w
            else Some (FAILURE, c, w));
         Some (rc, rc = FAILURE, c, w)
       }
       else Some (MQTT_SUCCESS, False, c, w)
     }
   }"

definition cycle_pubrec_pubrel :: "int \<Rightarrow> 'app MQTTClient \<Rightarrow> Timer \<Rightarrow> 'app world \<Rightarrow> 'app branch" where
  "cycle_pubrec_pubrel packet_type c timer w = do {
     (ok, _, _, mypacketid) \<leftarrow> MQTTDeserialize_ack (junk_byte w, junk_byte w, junk_u16 w) (readbuf c);
     (rc, c, w) \<leftarrow>
       (if ok \<noteq> 1 then Some (FAILURE, c, w)
        else do {
          (rc, c, w) \<leftarrow> cycle_send_ack c
            (if packet_type = msgType PUBREC then msgType PUBREL else msgType PUBCOMP) mypacketid timer w;
          Some (if rc \<noteq> MQTT_SUCCESS then FAILURE else rc, c, w)
        });
     Some (rc, rc = FAILURE, c, w)
   }"

definition cycle_dispatch :: "int \<Rightarrow> 'app MQTTClient \<Rightarrow> Timer \<Rightarrow> 'app world \<Rightarrow> 'app branch" where
  "cycle_dispatch packet_type c timer w =
     (if packet_type \<in> {0, msgType CONNACK, msgType PUBACK, msgType SUBACK, msgType UNSUBACK, msgType PUBCOMP}
      then Some (MQTT_SUCCESS, False, c, w)
      else if packet_type = msgType PUBLISH then cycle_publish c timer w
      else if packet_type = msgType PUBREC \<or> packet_type = msgType PUBREL
      then cycle_pubrec_pubrel packet_type c timer w
      else if packet_type = msgType PINGRESP then Some (MQTT_SUCCESS, False, c\<lparr>ping_outstanding := 0\<rparr>, w)
      else Some (packet_type, True, c, w))"

definition cycle ::
  "'app MQTTClient \<Rightarrow> Timer \<Rightarrow> 'app world \<Rightarrow> (int \<times> 'app MQTTClient \<times> 'app world) option" where
  "cycle c timer w = do {
     (packet_type, c, w) \<leftarrow> readPacket c timer w;
     (rc, exit, c, w) \<leftarrow> cycle_dispatch packet_type c timer w;
     (rc, c, w) \<leftarrow>
       (if exit then Some (rc, c, w)
        else do {
          (k, c, w) \<leftarrow> keepalive c w;
          Some (if k \<noteq> MQTT_SUCCESS then FAILURE else rc, c, w)
        });
     if rc = MQTT_SUCCESS then Some (packet_type, c, w)
     else Some (rc, if isconnected c \<noteq> 0 then MQTTCloseSession c else c, w)
   }"

text \<open>
  What a client function can change of the world: the clock moves, events are consumed, bytes are
  sent, handlers run; the connection and everything else stay as they are.
\<close>

definition frame :: "'app world \<Rightarrow> 'app world \<Rightarrow> bool" where
  "frame w w' \<longleftrightarrow> rx_size w' \<le> rx_size w \<and>
     (\<exists>t r x s a. w' = w\<lparr>ticks := t, rx := r, tx := x, sent := s, app := a\<rparr>)"

named_theorems frames

lemma frameI: "w' = w\<lparr>ticks := t, rx := r, tx := x, sent := s, app := a\<rparr> \<Longrightarrow> rx_size w' \<le> rx_size w \<Longrightarrow> frame w w'"
  unfolding frame_def by blast

lemma frame_refl [simp, intro]: "frame w w"
  by (rule frameI [where t = "ticks w" and r = "rx w" and x = "tx w" and s = "sent w" and a = "app w"]) simp_all

lemma frame_trans [trans]: "frame w w' \<Longrightarrow> frame w' w'' \<Longrightarrow> frame w w''"
  unfolding frame_def by (elim conjE exE, intro conjI exI) simp_all

lemma frame_sel:
  assumes "frame w w'"
  shows "ssl w' = ssl w" "ctx w' = ctx w" "bio_err w' = bio_err w" "mqttNet w' = mqttNet w" "clock w' = clock w"
    "sockfd w' = sockfd w" "closed_fds w' = closed_fds w" "rx_size w' \<le> rx_size w" "tls_envs w' = tls_envs w"
  using assms unfolding frame_def by auto

lemma rx_size_update [simp]:
  "rx_size (w\<lparr>ticks := t\<rparr>) = rx_size w" "rx_size (w\<lparr>app := a\<rparr>) = rx_size w"
  "rx_size (w\<lparr>tx := x\<rparr>) = rx_size w" "rx_size (w\<lparr>sent := s\<rparr>) = rx_size w"
  by (simp_all add: rx_size_def)

lemma frame_ticks: "frame w (w\<lparr>ticks := t\<rparr>)"
  by (rule frameI [where t = t and r = "rx w" and x = "tx w" and s = "sent w" and a = "app w"]) simp_all

lemma frame_app: "frame w (w\<lparr>app := a\<rparr>)"
  by (rule frameI [where t = "ticks w" and r = "rx w" and x = "tx w" and s = "sent w" and a = a]) simp_all

lemma frame_rx: "rx_size (w\<lparr>rx := r\<rparr>) \<le> rx_size w \<Longrightarrow> frame w (w\<lparr>rx := r\<rparr>)"
  by (rule frameI [where t = "ticks w" and r = r and x = "tx w" and s = "sent w" and a = "app w"]) simp_all

lemma frame_tx: "frame w (w\<lparr>tx := x, sent := s\<rparr>)"
  by (rule frameI [where t = "ticks w" and r = "rx w" and x = x and s = s and a = "app w"]) simp_all

lemma frame_timer [frames]:
  "TimerIsExpired timer w = (b, w') \<Longrightarrow> frame w w'"
  "TimerLeftMS timer w = (n, w') \<Longrightarrow> frame w w'"
  "TimerCountdown u w = (t, w') \<Longrightarrow> frame w w'"
  "TimerCountdownMS u w = (t, w') \<Longrightarrow> frame w w'"
  using timer_frame(1,4) [of timer w] timer_frame(2,3) [of u w] frame_ticks [of w "ticks w + 1"]
  by (metis snd_conv)+

lemma network_write_loop_frame: "network_write_loop src n k w = Some (rc, w') \<Longrightarrow> frame w w'"
proof (induction src n k w rule: network_write_loop.induct)
  case (1 src n k w)
  show ?case
  proof (cases "int k < n")
    case True
    with "1.prems" obtain p r w1 where p: "ptr_add src k = Some p"
      and r: "SSL_write p (n - int k) w = Some (r, w1)"
      by (auto simp: network_write_loop.simps [of src n k w] split: option.splits)
    have f: "frame w w1" using SSL_write_frame [OF r] frame_tx by blast
    show ?thesis
    proof (cases r)
      case (Ssl_ok bs)
      with "1.IH"(1) [OF True p r refl Ssl_ok] "1.prems" True p r f show ?thesis
        by (auto simp: network_write_loop.simps [of src n k w] intro: frame_trans)
    next
      case Ssl_want
      with "1.IH"(2) [OF True p r refl Ssl_want] "1.prems" True p r f show ?thesis
        by (auto simp: network_write_loop.simps [of src n k w] intro: frame_trans)
    next
      case Ssl_error
      with "1.prems" True p r f show ?thesis
        by (auto simp: network_write_loop.simps [of src n k w])
    qed
  next
    case False
    with "1.prems" show ?thesis by (auto simp: network_write_loop.simps [of src n k w])
  qed
qed

lemma frame_ipstack [frames]:
  "ipstack_write p n w = Some (rc, w') \<Longrightarrow> frame w w'"
  "ipstack_read n w = Some (rc, bs, w') \<Longrightarrow> frame w w'"
proof -
  show "ipstack_write p n w = Some (rc, w') \<Longrightarrow> frame w w'"
    by (auto simp: ipstack_write_def mqtt_network_write_def dest: network_write_loop_frame split: if_splits)
  show "frame w w'" if r: "ipstack_read n w = Some (rc, bs, w')"
  proof (cases "0 < n")
    case True
    with r have "mqtt_network_read n w = Some (rc, bs, w')" by (auto simp: ipstack_read_def split: if_splits)
    from mqtt_network_read_result [OF this True] show ?thesis by (auto intro!: frame_rx)
  next
    case False
    with r show ?thesis
      by (auto simp: ipstack_read_def mqtt_network_read_def network_read_loop.simps split: if_splits)
  qed
qed

lemma frame_sendPacket_loop: "sendPacket_loop bs n k timer w = Some (k', w') \<Longrightarrow> frame w w'"
proof (induction bs n k timer w rule: sendPacket_loop.induct)
  case (1 bs n k timer w)
  show ?case
  proof (cases "int k < n")
    case True
    obtain e w1 where e: "TimerIsExpired timer w = (e, w1)" by fastforce
    obtain ms w2 where ms: "TimerLeftMS timer w1 = (ms, w2)" by fastforce
    have f: "frame w w1" "frame w w2" using frames(1) [OF e] frames(2) [OF ms] by (auto intro: frame_trans)
    show ?thesis
    proof (cases e)
      case True
      with "1.prems" e f \<open>int k < n\<close> show ?thesis by (simp add: sendPacket_loop.simps [of bs n k timer w])
    next
      case False
      with "1.prems" e ms \<open>int k < n\<close> obtain p rc w3 where p: "ptr_add (Ptr bs) k = Some p"
        and r: "ipstack_write p n w2 = Some (rc, w3)"
        by (auto simp: sendPacket_loop.simps [of bs n k timer w] split: option.splits)
      have f3: "frame w w3" using f frame_ipstack(1) [OF r] by (blast intro: frame_trans)
      show ?thesis
      proof (cases "rc < 0")
        case True
        with "1.prems" e ms \<open>int k < n\<close> False p r f3 show ?thesis
          by (simp add: sendPacket_loop.simps [of bs n k timer w])
      next
        case rc: False
        from "1.prems" e ms \<open>int k < n\<close> False p r rc have "sendPacket_loop bs n (k + nat rc) timer w3 = Some (k', w')"
          by (simp add: sendPacket_loop.simps [of bs n k timer w])
        from "1.IH" [OF \<open>int k < n\<close> e [symmetric] False ms [symmetric] p r refl rc this] f3
        show ?thesis by (rule frame_trans [rotated])
      qed
    qed
  next
    case False
    with "1.prems" show ?thesis by (simp add: sendPacket_loop.simps [of bs n k timer w])
  qed
qed


lemma frame_sendPacket [frames]: "sendPacket c n timer w = Some (rc, c', w') \<Longrightarrow> frame w w'"
  by (auto simp: sendPacket_def bind_eq_Some_conv Let_def split: if_splits prod.splits
      dest!: frame_sendPacket_loop frame_timer(3) intro: frame_trans)

lemma frame_decode_loop: "decode_loop ipstack_read l m v w = Some (k, v', w') \<Longrightarrow> frame w w'"
proof (induction "ipstack_read :: 'a world getfn" l m v w rule: decode_loop.induct)
  case (1 l m v w)
  show ?case
  proof (cases "l + 1 > 4")
    case True
    with "1.prems" show ?thesis by (simp add: decode_loop.simps)
  next
    case False
    with "1.prems" obtain rc cs w1 where r: "ipstack_read 1 w = Some (rc, cs, w1)"
      by (auto simp: decode_loop.simps [of _ l m v w] bind_eq_Some_conv)
    note f = frame_ipstack(2) [OF r]
    show ?thesis
    proof (cases "rc = 1")
      case True
      with False "1.prems" r obtain c where c: "fetch cs 0 = Some c"
        by (auto simp: decode_loop.simps [of _ l m v w] bind_eq_Some_conv)
      show ?thesis
      proof (cases "c AND 128 = 0")
        case True
        with False "1.prems" r c \<open>rc = 1\<close> f show ?thesis by (simp add: decode_loop.simps [of _ l m v w] Let_def)
      next
        case c128: False
        with False "1.prems" r c True
        have "decode_loop ipstack_read (l + 1) (m * 128) (v + uint (c AND 127) * m) w1 = Some (k, v', w')"
          by (simp add: decode_loop.simps [of _ l m v w] Let_def)
        with "1.hyps" [OF False r refl refl _ c refl refl] True c128 f show ?thesis by (auto intro: frame_trans)
      qed
    next
      case rc: False
      with False "1.prems" r f show ?thesis by (simp add: decode_loop.simps [of _ l m v w])
    qed
  qed
qed

lemma frame_decodePacket [frames]: "decodePacket w = Some (k, v, w') \<Longrightarrow> frame w w'"
  by (auto simp: decodePacket_def MQTTPacket_decode_def dest: frame_decode_loop)

lemma frame_readPacket_done: "readPacket_done c w = Some (rc, c', w') \<Longrightarrow> frame w w'"
  by (auto simp: readPacket_done_def bind_eq_Some_conv split: if_splits prod.splits dest: frame_timer)

lemma ipstack_read_one:
  "ipstack_read 1 w = Some (rc, bs, w') \<Longrightarrow>
     rc = 1 \<and> length bs = 1 \<and> rx_size w' < rx_size w \<or> rc = - 1 \<and> bs = []"
  by (auto simp: ipstack_read_def dest: mqtt_network_read_result split: if_splits)

lemma frame_readPacket_body: "readPacket_body c n rlen timer w = Some (rc, c', w') \<Longrightarrow> frame w w'"
  by (auto simp: readPacket_body_def bind_eq_Some_conv Let_def split: if_splits
      dest!: frame_ipstack(2) frame_readPacket_done intro: frame_trans frame_ticks)

lemma readPacket_consumes:
  assumes "readPacket c timer w = Some (rc, c', w')"
  shows "frame w w'" "rc \<noteq> - 1 \<Longrightarrow> rx_size w' < rx_size w"
proof -
  let ?w1 = "w\<lparr>ticks := ticks w + 1\<rparr>"
  from assms obtain r bs w2 where r: "ipstack_read 1 ?w1 = Some (r, bs, w2)"
    by (auto simp: readPacket_def bind_eq_Some_conv)
  have f: "frame w w2" using frame_ticks frame_ipstack(2) [OF r] by (rule frame_trans)
  have one: "r = 1 \<and> rx_size w2 < rx_size w \<or> r = - 1" using ipstack_read_one [OF r] by auto
  have "frame w2 w' \<and> (r \<noteq> 1 \<longrightarrow> rc = r)"
  proof (cases "r = 1")
    case True
    with assms r obtain k rlen w3 c2 n where d: "decodePacket (w2\<lparr>ticks := ticks w2 + 1\<rparr>) = Some (k, rlen, w3)"
      and b: "readPacket_body c2 n rlen timer w3 = Some (rc, c', w')"
      by (auto simp: readPacket_def bind_eq_Some_conv Let_def)
    show ?thesis
      using frame_trans [OF frame_ticks frame_trans [OF frame_decodePacket [OF d] frame_readPacket_body [OF b]]] True
      by simp
  next
    case False
    with assms r show ?thesis by (auto simp: readPacket_def bind_eq_Some_conv Let_def)
  qed
  then show "frame w w'" "rc \<noteq> - 1 \<Longrightarrow> rx_size w' < rx_size w"
    using frame_trans [OF f] frame_sel(8) [of w2 w'] one by auto
qed

lemma frame_deliverMessage [frames]: "deliverMessage c t m w = Some (rc, w') \<Longrightarrow> frame w w'"
  by (auto simp: deliverMessage_def bind_eq_Some_conv intro: frame_app)

lemma frame_keepalive_expired: "keepalive_expired c w = (b, w') \<Longrightarrow> frame w w'"
  by (auto simp: keepalive_expired_def Let_def split: if_splits prod.splits
      dest!: frame_timer(1) intro: frame_trans)

lemma frame_keepalive_ping: 
  assumes "keepalive_ping c w = Some (rc, c', w')"
  shows "frame w w'"
proof -
  obtain timer w1 where t: "TimerCountdownMS 1000 w = (timer, w1)" by fastforce
  note f = frame_timer(4) [OF t]
  show ?thesis
    using assms t f
    by (auto simp: keepalive_ping_def bind_eq_Some_conv Let_def split: if_splits
        dest!: frame_sendPacket intro: frame_trans [OF f])
qed

lemma frame_keepalive [frames]:
  assumes "keepalive c w = Some (rc, c', w')"
  shows "frame w w'"
proof -
  obtain b w1 where t: "keepalive_expired c w = (b, w1)" by fastforce
  note f = frame_keepalive_expired [OF t]
  show ?thesis
    using assms t f
    by (auto simp: keepalive_def Let_def split: if_splits dest!: frame_keepalive_ping intro: frame_trans [OF f])
qed


lemma frame_cycle_send_ack [frames]: "cycle_send_ack c t i timer w = Some (rc, c', w') \<Longrightarrow> frame w w'"
  by (auto simp: cycle_send_ack_def bind_eq_Some_conv Let_def split: if_splits dest: frame_sendPacket)

lemma frame_cycle_publish:
  assumes "cycle_publish c timer w = Some (rc, e, c', w')"
  shows "frame w w'"
proof -
  from assms obtain ok p where p: "MQTTDeserialize_publish (publish_junk w) (readbuf c) = Some (ok, p)"
    by (auto simp: cycle_publish_def bind_eq_Some_conv)
  show ?thesis
  proof (cases "ok = 1")
    case True
    with assms p obtain r w1 where d: "deliverMessage c (pub_topicName p) (message_of p) w = Some (r, w1)"
      by (auto simp: cycle_publish_def bind_eq_Some_conv Let_def)
    note f = frame_deliverMessage [OF d]
    show ?thesis
      using assms p d f True
      by (auto simp: cycle_publish_def bind_eq_Some_conv Let_def split: if_splits
          dest!: frame_cycle_send_ack intro: frame_trans [OF f])
  next
    case False
    with assms p show ?thesis by (auto simp: cycle_publish_def bind_eq_Some_conv)
  qed
qed

lemma frame_cycle_pubrec_pubrel: "cycle_pubrec_pubrel t c timer w = Some (rc, e, c', w') \<Longrightarrow> frame w w'"
  by (auto simp: cycle_pubrec_pubrel_def bind_eq_Some_conv split: if_splits dest: frame_cycle_send_ack)

lemma frame_cycle_dispatch [frames]: "cycle_dispatch t c timer w = Some (rc, e, c', w') \<Longrightarrow> frame w w'"
  by (auto simp: cycle_dispatch_def split: if_splits dest: frame_cycle_publish frame_cycle_pubrec_pubrel)

lemma cycle_consumes:
  assumes "cycle c timer w = Some (rc, c', w')"
  shows "frame w w'" "0 \<le> rc \<Longrightarrow> rx_size w' < rx_size w"
proof -
  from assms obtain t c1 w1 where r: "readPacket c timer w = Some (t, c1, w1)"
    by (auto simp: cycle_def bind_eq_Some_conv)
  from assms r obtain rc1 e c2 w2 where d: "cycle_dispatch t c1 timer w1 = Some (rc1, e, c2, w2)"
    by (auto simp: cycle_def bind_eq_Some_conv)
  have k: "frame w2 w'"
    using assms r d by (auto simp: cycle_def bind_eq_Some_conv split: if_splits dest: frame_keepalive)
  have f: "frame w1 w'" using frame_cycle_dispatch [OF d] k by (rule frame_trans)
  then show "frame w w'" using readPacket_consumes(1) [OF r] by (rule frame_trans [rotated])
  have "t \<noteq> - 1" if "0 \<le> rc"
  proof
    assume "t = - 1"
    with d have "rc1 = - 1 \<and> e" by (simp add: cycle_dispatch_def)
    with assms r d have "rc = - 1" by (auto simp: cycle_def)
    with that show False by simp
  qed
  with readPacket_consumes(2) [OF r] frame_sel(8) [OF f] show "0 \<le> rc \<Longrightarrow> rx_size w' < rx_size w" by auto
qed


subsection \<open>The loops around the cycle\<close>

text \<open>
  Each round either fails or consumes something of the stream, so the loops end after finitely many
  rounds: \<open>rx_size\<close> decreases.
\<close>

function yield_loop ::
  "'app MQTTClient \<Rightarrow> Timer \<Rightarrow> 'app world \<Rightarrow> (int \<times> 'app MQTTClient \<times> 'app world) option" where
  "yield_loop c timer w =
     (case cycle c timer w of
        None \<Rightarrow> None
      | Some (rc, c, w) \<Rightarrow>
          if rc < 0 then Some (FAILURE, c, w)
          else (case TimerIsExpired timer w of (expired, w) \<Rightarrow>
                  if expired then Some (MQTT_SUCCESS, c, w) else yield_loop c timer w))"
  by auto

termination
  by (relation "measure (\<lambda>(c, timer, w). rx_size w)")
    (fastforce dest!: cycle_consumes(2) frame_timer(1) [THEN frame_sel(8), OF sym])+

declare yield_loop.simps [simp del]

definition MQTTYield ::
  "'app MQTTClient \<Rightarrow> int \<Rightarrow> 'app world \<Rightarrow> (int \<times> 'app MQTTClient \<times> 'app world) option" where
  "MQTTYield c timeout_ms w =
     (let (timer, w) = TimerCountdownMS (word_of_int timeout_ms) w in yield_loop c timer w)"

definition MQTTIsConnected :: "'app MQTTClient \<Rightarrow> int" where
  "MQTTIsConnected c = isconnected c"

text \<open>\<open>MQTTRun n\<close> is the state after \<open>n\<close> rounds of the endless loop of \<^verbatim>\<open>MQTTRun\<close>.\<close>

fun MQTTRun :: "nat \<Rightarrow> 'app MQTTClient \<Rightarrow> 'app world \<Rightarrow> ('app MQTTClient \<times> 'app world) option" where
  "MQTTRun 0 c w = Some (c, w)"
| "MQTTRun (Suc n) c w =
     (let (timer, w) = TimerCountdownMS 500 w in
      do { (_, c, w) \<leftarrow> cycle c timer w; MQTTRun n c w })"

function waitfor_loop ::
  "'app MQTTClient \<Rightarrow> int \<Rightarrow> Timer \<Rightarrow> int \<Rightarrow> 'app world \<Rightarrow> (int \<times> 'app MQTTClient \<times> 'app world) option" where
  "waitfor_loop c packet_type timer rc w =
     (case TimerIsExpired timer w of (expired, w) \<Rightarrow>
        if expired then Some (rc, c, w)
        else (case cycle c timer w of
            None \<Rightarrow> None
          | Some (rc, c, w) \<Rightarrow>
              if rc \<noteq> packet_type \<and> rc \<ge> 0 then waitfor_loop c packet_type timer rc w else Some (rc, c, w)))"
  by auto

termination
  by (relation "measure (\<lambda>(c, t, timer, rc, w). rx_size w)")
    (fastforce dest!: cycle_consumes(2) frame_timer(1) [THEN frame_sel(8), OF sym])+

declare waitfor_loop.simps [simp del]

definition waitfor ::
  "'app MQTTClient \<Rightarrow> int \<Rightarrow> Timer \<Rightarrow> 'app world \<Rightarrow> (int \<times> 'app MQTTClient \<times> 'app world) option" where
  "waitfor c packet_type timer w = waitfor_loop c packet_type timer FAILURE w"

subsection \<open>The client interface\<close>

definition MQTTConnectWithResults ::
  "'app MQTTClient \<Rightarrow> MQTTPacket_connectData option \<Rightarrow> MQTTConnackData \<Rightarrow> 'app world \<Rightarrow>
     (int \<times> MQTTConnackData \<times> 'app MQTTClient \<times> 'app world) option" where
  "MQTTConnectWithResults c options dat w =
     (if isconnected c \<noteq> 0 then Some (FAILURE, dat, c, w)
      else do {
        let (connect_timer, w) = TimerCountdownMS (command_timeout_ms c) w;
        let opts = (case options of None \<Rightarrow> MQTTPacket_connectData_initializer | Some opts \<Rightarrow> opts);
        let c = c\<lparr>keepAliveInterval := word_of_int (uint (cd_keepAliveInterval opts)),
                  cleansession := uint (cd_cleansession opts)\<rparr>;
        let (t, w) = TimerCountdown (keepAliveInterval c) w;
        let c = c\<lparr>last_received := t\<rparr>;
        (n, b) \<leftarrow> MQTTSerialize_connect (sendbuf c) (size_to_int (buf_size c)) opts;
        let c = c\<lparr>sendbuf := b\<rparr>;
        if n \<le> 0 then Some (FAILURE, dat, c, w)
        else do {
          (rc, c, w) \<leftarrow> sendPacket c n connect_timer w;
          if rc \<noteq> MQTT_SUCCESS then Some (rc, dat, c, w)
          else do {
            (t, c, w) \<leftarrow> waitfor c (msgType CONNACK) connect_timer w;
            if t = msgType CONNACK then do {
              (ok, sessionPresent, crc) \<leftarrow> MQTTDeserialize_connack (0, 0) (readbuf c);
              let dat = \<lparr>cad_rc = crc, cad_sessionPresent = sessionPresent\<rparr>;
              let rc = (if ok = 1 then uint crc else FAILURE);
              Some (rc, dat, if rc = MQTT_SUCCESS then c\<lparr>isconnected := 1, ping_outstanding := 0\<rparr> else c, w)
            }
            else Some (FAILURE, dat, c, w)
          }
        }
      })"

definition MQTTConnect ::
  "'app MQTTClient \<Rightarrow> MQTTPacket_connectData option \<Rightarrow> 'app world \<Rightarrow> (int \<times> 'app MQTTClient \<times> 'app world) option" where
  "MQTTConnect c options w = do {
     (rc, _, c, w) \<leftarrow> MQTTConnectWithResults c options \<lparr>cad_rc = junk_byte w, cad_sessionPresent = junk_byte w\<rparr> w;
     Some (rc, c, w)
   }"

text \<open>The first loop of \<^verbatim>\<open>MQTTSetMessageHandler\<close> (lines 480 to 492) and the second (lines 497 to 504).\<close>

fun find_filter :: "'app MessageHandlers list \<Rightarrow> cptr \<Rightarrow> nat \<Rightarrow> nat option option" where
  "find_filter [] tf i = Some None"
| "find_filter (h # hs) tf i = do {
     eq \<leftarrow> (if topicFilter h \<noteq> Null then strcmp_eq (topicFilter h) tf else Some False);
     if eq then Some (Some i) else find_filter hs tf (i + 1)
   }"

fun find_empty :: "'app MessageHandlers list \<Rightarrow> nat \<Rightarrow> nat option" where
  "find_empty [] i = None"
| "find_empty (h # hs) i = (if topicFilter h = Null then Some i else find_empty hs (i + 1))"

definition MQTTSetMessageHandler ::
  "'app MQTTClient \<Rightarrow> cptr \<Rightarrow> 'app messageHandler option \<Rightarrow> (int \<times> 'app MQTTClient) option" where
  "MQTTSetMessageHandler c tf handler = do {
     found \<leftarrow> find_filter (messageHandlers c) tf 0;
     Some (case handler of
         None \<Rightarrow>
           (case found of
              None \<Rightarrow> (FAILURE, c)
            | Some i \<Rightarrow> (MQTT_SUCCESS, c\<lparr>messageHandlers := (messageHandlers c)[i := \<lparr>topicFilter = Null, fp = None\<rparr>]\<rparr>))
       | Some f \<Rightarrow>
           (case (case found of None \<Rightarrow> find_empty (messageHandlers c) 0 | Some i \<Rightarrow> Some i) of
              None \<Rightarrow> (FAILURE, c)
            | Some i \<Rightarrow> (MQTT_SUCCESS, c\<lparr>messageHandlers := (messageHandlers c)[i := \<lparr>topicFilter = tf, fp = Some f\<rparr>]\<rparr>)))
   }"

text \<open>The common end of the following functions: a failure closes the session.\<close>

definition close_on_failure :: "int \<Rightarrow> 'app MQTTClient \<Rightarrow> 'app MQTTClient" where
  "close_on_failure rc c = (if rc = FAILURE then MQTTCloseSession c else c)"

definition topic_string :: "cptr \<Rightarrow> MQTTString" where
  "topic_string p = MQTTString_initializer\<lparr>cstring := p\<rparr>"

definition MQTTSubscribeWithResults ::
  "'app MQTTClient \<Rightarrow> cptr \<Rightarrow> int \<Rightarrow> 'app messageHandler option \<Rightarrow> int \<Rightarrow> 'app world \<Rightarrow>
     (int \<times> int \<times> 'app MQTTClient \<times> 'app world) option" where
  "MQTTSubscribeWithResults c tf qos handler grantedQoS w =
     (if isconnected c = 0 then Some (FAILURE, grantedQoS, close_on_failure FAILURE c, w)
      else do {
        let (timer, w) = TimerCountdownMS (command_timeout_ms c) w;
        let (i, c) = getNextPacketId c;
        (n, b) \<leftarrow> MQTTSerialize_subscribe (sendbuf c) (size_to_int (buf_size c))
          \<lparr>sub_dup = 0, sub_packetid = word_of_int i, sub_count = 1, sub_topicFilters = [topic_string tf],
           sub_requestedQoSs = [qos]\<rparr>;
        let c = c\<lparr>sendbuf := b\<rparr>;
        if n \<le> 0 then Some (FAILURE, grantedQoS, close_on_failure FAILURE c, w)
        else do {
          (rc, c, w) \<leftarrow> sendPacket c n timer w;
          if rc \<noteq> MQTT_SUCCESS then Some (rc, grantedQoS, close_on_failure rc c, w)
          else do {
            (t, c, w) \<leftarrow> waitfor c (msgType SUBACK) timer w;
            if t = msgType SUBACK then do {
              (ok, sa) \<leftarrow> MQTTDeserialize_suback 1
                \<lparr>suback_packetid = junk_u16 w, suback_count = 0, suback_grantedQoSs = [QOS0]\<rparr> (readbuf c);
              let grantedQoS = suback_grantedQoSs sa ! 0;
              (rc, c) \<leftarrow> (if ok = 1 \<and> grantedQoS \<noteq> SUBFAIL then MQTTSetMessageHandler c tf handler
                          else Some (rc, c));
              Some (rc, grantedQoS, close_on_failure rc c, w)
            }
            else Some (FAILURE, grantedQoS, close_on_failure FAILURE c, w)
          }
        }
      })"

definition MQTTSubscribe ::
  "'app MQTTClient \<Rightarrow> cptr \<Rightarrow> int \<Rightarrow> 'app messageHandler option \<Rightarrow> 'app world \<Rightarrow>
     (int \<times> 'app MQTTClient \<times> 'app world) option" where
  "MQTTSubscribe c tf qos handler w = do {
     (rc, _, c, w) \<leftarrow> MQTTSubscribeWithResults c tf qos handler (junk_int w) w;
     Some (rc, c, w)
   }"

definition MQTTUnsubscribe ::
  "'app MQTTClient \<Rightarrow> cptr \<Rightarrow> 'app world \<Rightarrow> (int \<times> 'app MQTTClient \<times> 'app world) option" where
  "MQTTUnsubscribe c tf w =
     (if isconnected c = 0 then Some (FAILURE, close_on_failure FAILURE c, w)
      else do {
        let (timer, w) = TimerCountdownMS (command_timeout_ms c) w;
        let (i, c) = getNextPacketId c;
        (n, b) \<leftarrow> MQTTSerialize_unsubscribe (sendbuf c) (size_to_int (buf_size c))
          \<lparr>unsub_dup = 0, unsub_packetid = word_of_int i, unsub_count = 1, unsub_topicFilters = [topic_string tf]\<rparr>;
        let c = c\<lparr>sendbuf := b\<rparr>;
        if n \<le> 0 then Some (FAILURE, close_on_failure FAILURE c, w)
        else do {
          (rc, c, w) \<leftarrow> sendPacket c n timer w;
          if rc \<noteq> MQTT_SUCCESS then Some (rc, close_on_failure rc c, w)
          else do {
            (t, c, w) \<leftarrow> waitfor c (msgType UNSUBACK) timer w;
            if t = msgType UNSUBACK then do {
              (ok, _) \<leftarrow> MQTTDeserialize_unsuback (junk_u16 w) (readbuf c);
              c \<leftarrow> (if ok = 1 then do { (_, c) \<leftarrow> MQTTSetMessageHandler c tf None; Some c } else Some c);
              Some (rc, close_on_failure rc c, w)
            }
            else Some (FAILURE, close_on_failure FAILURE c, w)
          }
        }
      })"

text \<open>
  \<open>publish_wait\<close> is the wait for the acknowledgement of a QoS 1 or QoS 2 message (lines 643 to 666),
  starting with \<^verbatim>\<open>rc\<close> equal to \<^verbatim>\<open>MQTT_SUCCESS\<close>. \<^verbatim>\<open>MQTTPublish\<close> stores the packet identifier in the
  caller's message, which is part of the result.
\<close>

definition publish_wait ::
  "'app MQTTClient \<Rightarrow> int \<Rightarrow> Timer \<Rightarrow> 'app world \<Rightarrow> (int \<times> 'app MQTTClient \<times> 'app world) option" where
  "publish_wait c ack_type timer w = do {
     (t, c, w) \<leftarrow> waitfor c ack_type timer w;
     if t = ack_type then do {
       (ok, _) \<leftarrow> MQTTDeserialize_ack (junk_byte w, junk_byte w, junk_u16 w) (readbuf c);
       Some (if ok \<noteq> 1 then FAILURE else MQTT_SUCCESS, c, w)
     }
     else Some (FAILURE, c, w)
   }"

definition MQTTPublish ::
  "'app MQTTClient \<Rightarrow> cptr \<Rightarrow> MQTTMessage \<Rightarrow> 'app world \<Rightarrow>
     (int \<times> MQTTMessage \<times> 'app MQTTClient \<times> 'app world) option" where
  "MQTTPublish c topicName message w =
     (if isconnected c = 0 then Some (FAILURE, message, close_on_failure FAILURE c, w)
      else do {
        let (timer, w) = TimerCountdownMS (command_timeout_ms c) w;
        let (message, c) = (if msg_qos message = QOS1 \<or> msg_qos message = QOS2
          then (let (i, c) = getNextPacketId c in (message\<lparr>msg_id := word_of_int i\<rparr>, c)) else (message, c));
        (n, b) \<leftarrow> MQTTSerialize_publish (sendbuf c) (size_to_int (buf_size c))
          \<lparr>pub_dup = 0, pub_qos = msg_qos message, pub_retained = msg_retained message,
           pub_packetid = msg_id message, pub_topicName = topic_string topicName,
           pub_payload = msg_payload message, pub_payloadlen = size_to_int (msg_payloadlen message)\<rparr>;
        let c = c\<lparr>sendbuf := b\<rparr>;
        if n \<le> 0 then Some (FAILURE, message, close_on_failure FAILURE c, w)
        else do {
          (rc, c, w) \<leftarrow> sendPacket c n timer w;
          if rc \<noteq> MQTT_SUCCESS then Some (rc, message, close_on_failure rc c, w)
          else do {
            (rc, c, w) \<leftarrow> (if msg_qos message = QOS1 then publish_wait c (msgType PUBACK) timer w
                           else if msg_qos message = QOS2 then publish_wait c (msgType PUBCOMP) timer w
                           else Some (rc, c, w));
            Some (rc, message, close_on_failure rc c, w)
          }
        }
      })"

definition MQTTDisconnect ::
  "'app MQTTClient \<Rightarrow> 'app world \<Rightarrow> (int \<times> 'app MQTTClient \<times> 'app world) option" where
  "MQTTDisconnect c w = do {
     let (timer, w) = TimerCountdownMS (command_timeout_ms c) w;
     (n, b) \<leftarrow> MQTTSerialize_disconnect (sendbuf c) (size_to_int (buf_size c));
     let c = c\<lparr>sendbuf := b\<rparr>;
     (rc, c, w) \<leftarrow> (if n > 0 then sendPacket c n timer w else Some (FAILURE, c, w));
     Some (rc, MQTTCloseSession c, w)
   }"

end
