(* ===== verification/Packet_Format.thy ===== *)
theory Packet_Format
  imports Packet_Subscribe
begin

text \<open>
  \<^verbatim>\<open>MQTTFormat.c\<close>: packets as readable text, with the parts of \<^verbatim>\<open>snprintf\<close> it uses. The functions
  \<^verbatim>\<open>MQTTFormat_toClientString\<close> and \<^verbatim>\<open>MQTTFormat_toServerString\<close> are compiled if \<^verbatim>\<open>MQTT_CLIENT\<close> and
  \<^verbatim>\<open>MQTT_SERVER\<close> are defined. A formatter takes the output buffer and its declared length and returns
  the result of \<^verbatim>\<open>snprintf\<close> and the buffer.
\<close>

subsection \<open>The conversions of snprintf\<close>

definition text_of :: "string \<Rightarrow> byte list" where
  "text_of s = map of_char s"

fun digits :: "nat \<Rightarrow> byte list" where
  "digits n = (if n < 10 then [] else digits (n div 10)) @ [48 + word_of_nat (n mod 10)]"

declare digits.simps [simp del]

definition format_d :: "int \<Rightarrow> byte list" where
  "format_d n = (if n < 0 then 45 # digits (nat (- n)) else digits (nat n))"

text \<open>
  \<open>format_s prec p\<close> is \<^verbatim>\<open>%.*s\<close>: at most \<open>prec\<close> bytes, up to a terminating zero. A negative precision
  counts as none.
\<close>

fun format_s :: "int \<Rightarrow> cptr \<Rightarrow> byte list option" where
  "format_s prec (Ptr bs) =
     (let s = takeWhile (\<lambda>b. b \<noteq> 0) bs in
      if prec \<ge> 0 \<and> nat prec \<le> length s then Some (take (nat prec) s)
      else if 0 \<in> set bs then Some s
      else None)"
| "format_s prec _ = None"

text \<open>
  \<open>snprintf w n s\<close> stores the text \<open>s\<close>, cut to \<open>n - 1\<close> bytes and terminated by zero, at the cursor \<open>w\<close>;
  \<open>n\<close> is converted to \<^verbatim>\<open>size_t\<close>. The result is the length of the whole text.
\<close>

definition snprintf :: "wptr \<Rightarrow> int \<Rightarrow> byte list \<Rightarrow> (int \<times> byte list) option" where
  "snprintf w n s = do {
     let k = to_size n;
     w \<leftarrow> emit (if k = 0 then [] else take (k - 1) s @ [0]) w;
     Some (int (length s), fst w)
   }"

text \<open>\<open>snprintf_at buf len i s\<close> is \<^verbatim>\<open>i += snprintf(&buf[i], len - i, ...)\<close>.\<close>

definition snprintf_at :: "byte list \<Rightarrow> int \<Rightarrow> int \<Rightarrow> byte list \<Rightarrow> (int \<times> byte list) option" where
  "snprintf_at strbuf strbuflen i s = do {
     (n, strbuf) \<leftarrow> snprintf (strbuf, nat i) (to_int (strbuflen - i)) s;
     Some (to_int (i + n), strbuf)
   }"

subsection \<open>The formatters\<close>

definition MQTTPacket_names :: "string list" where
  "MQTTPacket_names = [''RESERVED'', ''CONNECT'', ''CONNACK'', ''PUBLISH'', ''PUBACK'', ''PUBREC'', ''PUBREL'',
     ''PUBCOMP'', ''SUBSCRIBE'', ''SUBACK'', ''UNSUBSCRIBE'', ''UNSUBACK'', ''PINGREQ'', ''PINGRESP'', ''DISCONNECT'']"

definition MQTTPacket_getName :: "u16 \<Rightarrow> string option" where
  "MQTTPacket_getName packetid = fetch MQTTPacket_names (unat packetid)"

definition lenstring_text :: "MQTTString \<Rightarrow> byte list option" where
  "lenstring_text m = format_s (len (lenstring m)) (data (lenstring m))"

definition MQTTStringFormat_connect ::
  "byte list \<Rightarrow> int \<Rightarrow> MQTTPacket_connectData \<Rightarrow> (int \<times> byte list) option" where
  "MQTTStringFormat_connect strbuf strbuflen d = do {
     cid \<leftarrow> lenstring_text (cd_clientID d);
     (i, strbuf) \<leftarrow> snprintf (strbuf, 0) strbuflen
       (text_of ''CONNECT MQTT version '' @ format_d (uint (cd_MQTTVersion d)) @ text_of '', client id '' @ cid @
        text_of '', clean session '' @ format_d (uint (cd_cleansession d)) @
        text_of '', keep alive '' @ format_d (uint (cd_keepAliveInterval d)));
     (i, strbuf) \<leftarrow> (if cd_willFlag d \<noteq> 0 then do {
         t \<leftarrow> lenstring_text (will_topicName (cd_will d));
         m \<leftarrow> lenstring_text (will_message (cd_will d));
         snprintf_at strbuf strbuflen i
           (text_of '', will QoS '' @ format_d (sint (will_qos (cd_will d))) @
            text_of '', will retain '' @ format_d (uint (will_retained (cd_will d))) @
            text_of '', will topic '' @ t @ text_of '', will message '' @ m)
       } else Some (i, strbuf));
     (i, strbuf) \<leftarrow> (if data (lenstring (cd_username d)) \<noteq> Null \<and> len (lenstring (cd_username d)) > 0 then do {
         u \<leftarrow> lenstring_text (cd_username d);
         snprintf_at strbuf strbuflen i (text_of '', user name '' @ u)
       } else Some (i, strbuf));
     if data (lenstring (cd_password d)) \<noteq> Null \<and> len (lenstring (cd_password d)) > 0 then do {
       p \<leftarrow> lenstring_text (cd_password d);
       snprintf_at strbuf strbuflen i (text_of '', password '' @ p)
     } else Some (i, strbuf)
   }"

definition MQTTStringFormat_connack :: "byte list \<Rightarrow> int \<Rightarrow> byte \<Rightarrow> byte \<Rightarrow> (int \<times> byte list) option" where
  "MQTTStringFormat_connack strbuf strbuflen connack_rc sessionPresent =
     snprintf (strbuf, 0) strbuflen
       (text_of ''CONNACK session present '' @ format_d (uint sessionPresent) @
        text_of '', rc '' @ format_d (uint connack_rc))"

definition MQTTStringFormat_publish :: "byte list \<Rightarrow> int \<Rightarrow> publish \<Rightarrow> (int \<times> byte list) option" where
  "MQTTStringFormat_publish strbuf strbuflen a = do {
     t \<leftarrow> format_s (if len (lenstring (pub_topicName a)) < 20 then len (lenstring (pub_topicName a)) else 20)
            (data (lenstring (pub_topicName a)));
     p \<leftarrow> format_s (if pub_payloadlen a < 20 then pub_payloadlen a else 20) (pub_payload a);
     snprintf (strbuf, 0) strbuflen
       (text_of ''PUBLISH dup '' @ format_d (uint (pub_dup a)) @ text_of '', QoS '' @ format_d (pub_qos a) @
        text_of '', retained '' @ format_d (uint (pub_retained a)) @
        text_of '', packet id '' @ format_d (uint (pub_packetid a)) @
        text_of '', topic '' @ t @ text_of '', payload length '' @ format_d (pub_payloadlen a) @
        text_of '', payload '' @ p)
   }"

definition MQTTStringFormat_ack :: "byte list \<Rightarrow> int \<Rightarrow> byte \<times> byte \<times> u16 \<Rightarrow> (int \<times> byte list) option" where
  "MQTTStringFormat_ack strbuf strbuflen = (\<lambda>(packettype, dup, packetid). do {
     name \<leftarrow> fetch MQTTPacket_names (unat packettype);
     (i, strbuf) \<leftarrow> snprintf (strbuf, 0) strbuflen
       (text_of name @ text_of '', packet id '' @ format_d (uint packetid));
     if dup \<noteq> 0 then snprintf_at strbuf strbuflen i (text_of '', dup '' @ format_d (uint dup))
     else Some (i, strbuf)
   })"

definition MQTTStringFormat_subscribe :: "byte list \<Rightarrow> int \<Rightarrow> subscribe \<Rightarrow> (int \<times> byte list) option" where
  "MQTTStringFormat_subscribe strbuf strbuflen a = do {
     tf \<leftarrow> fetch (sub_topicFilters a) 0;
     t \<leftarrow> lenstring_text tf;
     q \<leftarrow> fetch (sub_requestedQoSs a) 0;
     snprintf (strbuf, 0) strbuflen
       (text_of ''SUBSCRIBE dup '' @ format_d (uint (sub_dup a)) @ text_of '', packet id '' @
        format_d (uint (sub_packetid a)) @ text_of '' count '' @ format_d (sub_count a) @
        text_of '' topic '' @ t @ text_of '' qos '' @ format_d q)
   }"

definition MQTTStringFormat_suback :: "byte list \<Rightarrow> int \<Rightarrow> suback \<Rightarrow> (int \<times> byte list) option" where
  "MQTTStringFormat_suback strbuf strbuflen a = do {
     q \<leftarrow> fetch (suback_grantedQoSs a) 0;
     snprintf (strbuf, 0) strbuflen
       (text_of ''SUBACK packet id '' @ format_d (uint (suback_packetid a)) @ text_of '' count '' @
        format_d (suback_count a) @ text_of '' granted qos '' @ format_d q)
   }"

definition MQTTStringFormat_unsubscribe :: "byte list \<Rightarrow> int \<Rightarrow> unsubscribe \<Rightarrow> (int \<times> byte list) option" where
  "MQTTStringFormat_unsubscribe strbuf strbuflen a = do {
     tf \<leftarrow> fetch (unsub_topicFilters a) 0;
     t \<leftarrow> lenstring_text tf;
     snprintf (strbuf, 0) strbuflen
       (text_of ''UNSUBSCRIBE dup '' @ format_d (uint (unsub_dup a)) @ text_of '', packet id '' @
        format_d (uint (unsub_packetid a)) @ text_of '' count '' @ format_d (unsub_count a) @ text_of '' topic '' @ t)
   }"

text \<open>
  The dispatchers. The records \<open>p0\<close>, \<open>a0\<close>, \<open>s0\<close>, \<dots> are the uninitialized locals of the branches;
  the local arrays have one element, \<open>q0\<close> or \<open>m0\<close>.
  Packet types without a case leave the text buffer alone.
\<close>

definition format_publish_packet :: "publish \<Rightarrow> byte list \<Rightarrow> int \<Rightarrow> byte list \<Rightarrow> byte list option" where
  "format_publish_packet p0 strbuf strbuflen buf = do {
     (ok, p) \<leftarrow> MQTTDeserialize_publish (p0\<lparr>pub_topicName := MQTTString_initializer\<rparr>) buf;
     if ok = 1 then do { (_, strbuf) \<leftarrow> MQTTStringFormat_publish strbuf strbuflen p; Some strbuf } else Some strbuf
   }"

definition format_ack_packet :: "byte \<times> byte \<times> u16 \<Rightarrow> byte list \<Rightarrow> int \<Rightarrow> byte list \<Rightarrow> byte list option" where
  "format_ack_packet a0 strbuf strbuflen buf = do {
     (ok, a) \<leftarrow> MQTTDeserialize_ack a0 buf;
     if ok = 1 then do { (_, strbuf) \<leftarrow> MQTTStringFormat_ack strbuf strbuflen a; Some strbuf } else Some strbuf
   }"

definition format_bare_packet :: "byte \<Rightarrow> byte list \<Rightarrow> int \<Rightarrow> byte list option" where
  "format_bare_packet header strbuf strbuflen = do {
     name \<leftarrow> fetch MQTTPacket_names (nat (header_type header));
     (_, strbuf) \<leftarrow> snprintf (strbuf, 0) strbuflen (text_of name);
     Some strbuf
   }"

definition MQTTFormat_toClientString ::
  "publish \<Rightarrow> byte \<times> byte \<times> u16 \<Rightarrow> suback \<Rightarrow> int \<Rightarrow> byte list \<Rightarrow> int \<Rightarrow> byte list \<Rightarrow> byte list option" where
  "MQTTFormat_toClientString p0 a0 s0 q0 strbuf strbuflen buf = do {
     header \<leftarrow> fetch buf 0;
     (_, rlen) \<leftarrow> MQTTPacket_decodeBuf buf 1;
     let t = header_type header;
     if t = msgType CONNACK then do {
       (ok, sessionPresent, connack_rc) \<leftarrow> MQTTDeserialize_connack (fst a0, fst (snd a0)) buf;
       if ok = 1 then do {
         (_, strbuf) \<leftarrow> MQTTStringFormat_connack strbuf strbuflen connack_rc sessionPresent; Some strbuf
       } else Some strbuf
     }
     else if t = msgType PUBLISH then format_publish_packet p0 strbuf strbuflen buf
     else if t \<in> {msgType PUBACK, msgType PUBREC, msgType PUBREL, msgType PUBCOMP}
     then format_ack_packet a0 strbuf strbuflen buf
     else if t = msgType SUBACK then do {
       (ok, s) \<leftarrow> MQTTDeserialize_suback 1 (s0\<lparr>suback_count := 0, suback_grantedQoSs := [q0]\<rparr>) buf;
       if ok = 1 then do { (_, strbuf) \<leftarrow> MQTTStringFormat_suback strbuf strbuflen s; Some strbuf } else Some strbuf
     }
     else if t = msgType UNSUBACK then do {
       (ok, i) \<leftarrow> MQTTDeserialize_unsuback (snd (snd a0)) buf;
       if ok = 1 then do {
         (_, strbuf) \<leftarrow> MQTTStringFormat_ack strbuf strbuflen (word_of_int (msgType UNSUBACK), 0, i); Some strbuf
       } else Some strbuf
     }
     else if t \<in> {msgType PINGREQ, msgType PINGRESP, msgType DISCONNECT}
     then format_bare_packet header strbuf strbuflen
     else Some strbuf
   }"

text \<open>\<open>buflen\<close> is the argument that \<^verbatim>\<open>MQTTDeserialize_connect\<close> takes as the end of the data.\<close>

definition MQTTFormat_toServerString ::
  "publish \<Rightarrow> byte \<times> byte \<times> u16 \<Rightarrow> MQTTPacket_connectData \<Rightarrow> MQTTString \<Rightarrow> int \<Rightarrow> subscribe \<Rightarrow> unsubscribe \<Rightarrow>
     byte list \<Rightarrow> int \<Rightarrow> byte list \<Rightarrow> int \<Rightarrow> byte list option" where
  "MQTTFormat_toServerString p0 a0 c0 m0 q0 s0 u0 strbuf strbuflen buf buflen = do {
     header \<leftarrow> fetch buf 0;
     (_, rlen) \<leftarrow> MQTTPacket_decodeBuf buf 1;
     let t = header_type header;
     strbuf \<leftarrow>
       (if t = msgType CONNECT then do {
          (ok, d) \<leftarrow> MQTTDeserialize_connect c0 m0 buf buflen;
          if ok = 1 then do { (_, strbuf) \<leftarrow> MQTTStringFormat_connect strbuf strbuflen d; Some strbuf } else Some strbuf
        }
        else if t = msgType PUBLISH then format_publish_packet p0 strbuf strbuflen buf
        else if t \<in> {msgType PUBACK, msgType PUBREC, msgType PUBREL, msgType PUBCOMP}
        then format_ack_packet a0 strbuf strbuflen buf
        else if t = msgType SUBSCRIBE then do {
          (ok, s) \<leftarrow> MQTTDeserialize_subscribe (s0\<lparr>sub_count := 0, sub_topicFilters := [m0], sub_requestedQoSs := [q0]\<rparr>) buf;
          if ok = 1 then do { (_, strbuf) \<leftarrow> MQTTStringFormat_subscribe strbuf strbuflen s; Some strbuf } else Some strbuf
        }
        else if t = msgType UNSUBSCRIBE then do {
          (ok, u) \<leftarrow> MQTTDeserialize_unsubscribe (u0\<lparr>unsub_count := 0, unsub_topicFilters := [m0]\<rparr>) buf;
          if ok = 1 then do { (_, strbuf) \<leftarrow> MQTTStringFormat_unsubscribe strbuf strbuflen u; Some strbuf }
          else Some strbuf
        }
        else if t \<in> {msgType PINGREQ, msgType PINGRESP, msgType DISCONNECT}
        then format_bare_packet header strbuf strbuflen
        else Some strbuf);
     store strbuf (nat strbuflen) 0
   }"

subsection \<open>Decimal text\<close>

lemma digits_unfold:
  "n < 10 \<Longrightarrow> digits n = [48 + word_of_nat n]"
  "\<not> n < 10 \<Longrightarrow> digits n = digits (n div 10) @ [48 + word_of_nat (n mod 10)]"
  by (simp_all add: digits.simps [of n])

lemma uint_digit: "d < 10 \<Longrightarrow> uint (48 + word_of_nat d :: byte) = 48 + int d"
  by (simp add: uint_word_ariths unsigned_of_nat take_bit_eq_mod)

lemma decimal_snoc: "decimal (ds @ [d]) = 10 * decimal ds + (uint d - 48)"
  by (simp add: decimal_def)

lemma decimal_digits [simp]: "decimal (digits n) = int n"
proof (induction n rule: less_induct)
  case (less n)
  show ?case
  proof (cases "n < 10")
    case True
    then show ?thesis
      by (simp add: digits_unfold uint_digit decimal_def)
  next
    case False
    then have "decimal (digits (n div 10)) = int (n div 10)"
      by (intro less.IH) simp
    with False show ?thesis
      by (simp add: digits_unfold decimal_snoc uint_digit) presburger
  qed
qed

lemma is_digit_digit: "d < 10 \<Longrightarrow> is_digit (48 + word_of_nat d)"
  by (simp add: is_digit_def word_le_def uint_digit)

lemma digits_are_digits: "b \<in> set (digits n) \<Longrightarrow> is_digit b"
proof (induction n arbitrary: b rule: less_induct)
  case (less n)
  then show ?case
    using less.IH [of "n div 10" b] by (cases "n < 10") (auto simp: digits_unfold is_digit_digit)
qed

lemma digits_not_Nil [simp]: "digits n \<noteq> []"
  by (simp add: digits.simps [of n])

lemma is_digit_props: "is_digit b \<Longrightarrow> \<not> is_space b \<and> b \<noteq> 45 \<and> b \<noteq> 43 \<and> b \<noteq> 0"
  by (auto simp: is_digit_def is_space_def word_le_def)

lemma takeWhile_digits [simp]: "takeWhile is_digit (digits n) = digits n"
  by (simp add: digits_are_digits)

lemma atoi_digits:
  "int n < 2147483648 \<Longrightarrow> atoi_bytes (digits n) = Some (int n)"
  "int n \<le> 2147483648 \<Longrightarrow> atoi_bytes (45 # digits n) = Some (- int n)"
proof -
  have "is_digit (hd (digits n))"
    by (rule digits_are_digits [of _ n]) simp
  then have "dropWhile is_space (digits n) = digits n" "hd (digits n) \<noteq> 45" "hd (digits n) \<noteq> 43"
    using is_digit_props by (auto simp: dropWhile_eq_self_iff)
  then show "int n < 2147483648 \<Longrightarrow> atoi_bytes (digits n) = Some (int n)"
    by (simp add: atoi_bytes_def Let_def)
  show "int n \<le> 2147483648 \<Longrightarrow> atoi_bytes (45 # digits n) = Some (- int n)"
    by (simp add: atoi_bytes_def Let_def is_space_def)
qed

lemma takeWhile_format_d: "takeWhile (\<lambda>b. b \<noteq> 0) (format_d n @ 0 # rest) = format_d n"
proof -
  have "0 \<notin> set (format_d n)"
    using digits_are_digits is_digit_props by (auto simp: format_d_def)
  then show ?thesis
    by (auto simp: takeWhile_append)
qed

lemma atoi_format_d:
  "- 2147483648 \<le> n \<Longrightarrow> n < 2147483648 \<Longrightarrow> atoi (Ptr (format_d n @ 0 # rest)) = Some n"
  by (auto simp: takeWhile_format_d) (auto simp: format_d_def atoi_digits)

subsection \<open>Truncation\<close>

lemma snprintf_spec:
  "0 < n \<Longrightarrow> n \<le> int (length buf) \<Longrightarrow> length buf < 2147483648 \<Longrightarrow>
   snprintf (buf, 0) n s = Some (int (length s), overwrite buf 0 (take (nat n - 1) s @ [0]))"
  by (simp add: snprintf_def Let_def emit_def)

lemma snprintf_zero: "p \<le> length buf \<Longrightarrow> snprintf (buf, p) 0 s = Some (int (length s), buf)"
  by (simp add: snprintf_def Let_def)

lemma snprintf_at_None_iff:
  assumes "length buf < 2147483648" "0 \<le> i" "i + int (length s) < 2147483648"
  shows "snprintf_at buf (int (length buf)) i s = None \<longleftrightarrow> int (length buf) < i"
proof (cases "i \<le> int (length buf)")
  case True
  then have "to_int (int (length buf) - i) = int (length buf) - i"
    using assms by simp
  moreover have "to_size (int (length buf) - i) = length buf - nat i"
    using assms True by (simp add: nat_diff_distrib')
  moreover have "nat i \<le> length buf"
    using True by simp
  ultimately show ?thesis
    using True by (auto simp: snprintf_at_def snprintf_def Let_def emit_def)
next
  case False
  then show ?thesis
    by (auto simp: snprintf_at_def snprintf_def Let_def emit_def)
qed

subsection \<open>Acknowledgements as text\<close>

text \<open>The text of an acknowledgement, and with a duplicate flag.\<close>

definition ack_text :: "byte \<Rightarrow> u16 \<Rightarrow> byte list" where
  "ack_text packettype packetid =
     text_of (MQTTPacket_names ! unat packettype) @ text_of '', packet id '' @ format_d (uint packetid)"

lemma snprintf_buffer:
  assumes "length strbuf < 2147483648"
  obtains buf where "snprintf (strbuf, 0) (int (length strbuf)) s = Some (int (length s), buf)"
    "length buf = length strbuf"
proof (cases "strbuf = []")
  case True
  then show thesis
    using snprintf_zero [of 0 strbuf s] by (intro that) auto
next
  case False
  then have "length (take (length strbuf - 1) s @ [0]) \<le> length strbuf"
    by (cases strbuf) simp_all
  with False assms show thesis
    using snprintf_spec [of "int (length strbuf)" strbuf s]
    by (intro that [of "overwrite strbuf 0 (take (length strbuf - 1) s @ [0])"]) simp_all
qed

lemma length_digits_pow: "n < 10 ^ Suc k \<Longrightarrow> length (digits n) \<le> Suc k"
proof (induction k arbitrary: n)
  case (Suc k)
  then have "length (digits (n div 10)) \<le> Suc k"
    by (intro Suc.IH) simp
  then show ?case
    by (cases "n < 10") (simp_all add: digits_unfold)
qed (simp add: digits_unfold)

lemma length_digits: "n < 100000 \<Longrightarrow> length (digits n) \<le> 5"
  using length_digits_pow [of n 4] by simp

lemma names_15 [simp]: "length MQTTPacket_names = 15"
  by (simp add: MQTTPacket_names_def)

lemma length_names: "unat (t :: byte) < 15 \<Longrightarrow> length (MQTTPacket_names ! unat t) \<le> 11"
proof -
  assume "unat t < 15"
  moreover have "\<forall>s \<in> set MQTTPacket_names. length s \<le> 11"
    by (simp add: MQTTPacket_names_def)
  ultimately show ?thesis
    using nth_mem [of "unat t" MQTTPacket_names] by simp
qed

lemma length_ack_text: "unat t < 15 \<Longrightarrow> length (ack_text t i) \<le> 28"
  using length_names [of t] length_digits [of "unat i"] unsigned_less [of i, where ?'a = nat]
  by (simp add: ack_text_def text_of_def format_d_def)

text \<open>
  C32. \<^verbatim>\<open>MQTTStringFormat_ack\<close> continues its text at the length that the first \<^verbatim>\<open>snprintf\<close> returns, which
  is the length before truncation. With the duplicate flag set it writes outside of the buffer whose
  length it was given exactly if the buffer is shorter than the first part of the text, counted without
  its terminating zero.
\<close>

theorem ack_format_overrun:
  assumes "unat packettype < 15" "dup \<noteq> 0" "length strbuf < 2147483648"
  shows "MQTTStringFormat_ack strbuf (int (length strbuf)) (packettype, dup, packetid) = None \<longleftrightarrow>
    length strbuf < length (ack_text packettype packetid)"
proof -
  define s where "s = ack_text packettype packetid"
  define i where "i = int (length s)"
  define d where "d = text_of '', dup '' @ format_d (uint dup)"
  have len: "i \<le> 28" "0 \<le> i"
    using length_ack_text [OF assms(1), of packetid] by (simp_all add: i_def s_def)
  obtain buf where buf: "snprintf (strbuf, 0) (int (length strbuf)) s = Some (i, buf)" "length buf = length strbuf"
    using assms(3) unfolding i_def by (rule snprintf_buffer)
  have "unat dup < 100000"
    by (rule less_trans [OF unsigned_less]) simp
  from length_digits [OF this] have "i + int (length d) < 2147483648"
    using len by (simp add: d_def text_of_def format_d_def)
  with assms(3) len(2) buf(2) have "snprintf_at buf (int (length strbuf)) i d = None \<longleftrightarrow> int (length strbuf) < i"
    using snprintf_at_None_iff [of buf i d] by simp
  with assms buf(1) show ?thesis
    by (simp add: MQTTStringFormat_ack_def s_def ack_text_def [symmetric] d_def i_def)
qed

theorem ack_format_overrun_witness:
  "MQTTStringFormat_ack (replicate 20 0) 20 (4, 1, 65535) = None"
proof -
  have "length (ack_text 4 65535) = 23"
    by (simp add: ack_text_def text_of_def MQTTPacket_names_def format_d_def digits.simps)
  then show ?thesis
    using ack_format_overrun [of 4 1 "replicate 20 0" 65535] by simp
qed

text \<open>
  An acknowledgement that \<^verbatim>\<open>MQTTSerialize_ack\<close> writes without a duplicate flag is shown by
  \<^verbatim>\<open>MQTTFormat_toClientString\<close> as its name and packet identifier, cut to the size of the text buffer
  and always terminated.
\<close>

lemma ack_to_text:
  assumes "uint t \<in> {msgType PUBACK, msgType PUBREC, msgType PUBREL, msgType PUBCOMP}"
    "0 < length strbuf" "length strbuf < 2147483648"
  shows "MQTTFormat_toClientString p0 a0 s0 q0 strbuf (int (length strbuf)) (ack_wire (t, 0, i) @ rest) =
    Some (overwrite strbuf 0 (take (length strbuf - 1) (ack_text t i) @ [0]))"
proof -
  define h where "h = header_byte (uint t) 0 (if uint t = msgType PUBREL then 1 else 0) 0"
  define buf where "buf = ack_wire (t, 0, i) @ rest"
  have buf: "buf = packet_bytes h (int_bytes (uint i)) @ rest"
    by (simp add: buf_def ack_wire_def h_def)
  have t: "unat t < 15" "ack_valid (t, 0, i)"
  proof -
    have "uint t \<le> 7"
      using assms(1) by auto
    then show "ack_valid (t, 0, i)"
      by (simp add: ack_valid_def)
    from \<open>uint t \<le> 7\<close> have "int (unat t) < 15"
      by simp
    then show "unat t < 15"
      by linarith
  qed
  from ack_codec.parse [OF t(2) TrueI, of a0 rest]
  have p: "MQTTDeserialize_ack a0 buf = Some (1, t, 0, i)"
    by (auto simp: ack_matches_def buf_def uint_0_iff)
  have "fetch buf 0 = Some h"
    by (simp add: buf packet_bytes_def)
  moreover have "header_type h = uint t"
    using t(2) by (simp add: h_def ack_valid_def)
  moreover have "MQTTPacket_decodeBuf buf 1 = Some (1, 2)"
    using read_remlen [of "int_bytes (uint i)" h rest] by (simp add: buf)
  moreover have "MQTTStringFormat_ack strbuf (int (length strbuf)) (t, 0, i) =
      Some (int (length (ack_text t i)), overwrite strbuf 0 (take (length strbuf - 1) (ack_text t i) @ [0]))"
    using t(1) assms(2,3) by (simp add: MQTTStringFormat_ack_def ack_text_def snprintf_spec)
  moreover have "uint t \<in> {4, 5, 6, 7}"
    using assms(1) by simp
  moreover have "uint t \<noteq> msgType CONNACK" "uint t \<noteq> msgType PUBLISH"
    using assms(1) by auto
  ultimately show ?thesis
    using p unfolding buf_def [symmetric]
    by (simp add: MQTTFormat_toClientString_def format_ack_packet_def Let_def del: insert_iff)
qed

end
