(* ===== verification/Platform.thy ===== *)
theory Platform
  imports C_Prelude
begin

text \<open>
  \<^verbatim>\<open>platform.h\<close> and \<^verbatim>\<open>utilis.c\<close>: TCP connections, the byte transport handed to the Modbus library, and
  \<^verbatim>\<open>sleep_ms\<close>. The record \<open>plat\<close> holds the globals and the answers of the operating system, in the
  order in which the code asks for them; a call for which no answer is left fails.
\<close>

text \<open>
  An \<open>addr_env\<close> is an entry of the list that \<^verbatim>\<open>getaddrinfo\<close> returns, with the results of the calls made
  for it. A \<open>rd_event\<close> is what \<^verbatim>\<open>select\<close> returns or, where it returns 1, the outcome of \<^verbatim>\<open>read\<close>. A
  \<open>wr_event\<close> is the same for \<^verbatim>\<open>write\<close>; \<open>Wr_accept n\<close> takes at most \<open>n\<close> bytes. A \<open>poll_env\<close> is the result
  of the \<^verbatim>\<open>select\<close> of the server, the descriptors it leaves in the set and the result of \<^verbatim>\<open>accept\<close>.
\<close>

record addr_env =
  ai_socket :: int
  ai_connect :: int
  ai_setsockopt :: int
  ai_bind :: int
  ai_listen :: int

datatype rd_event = Rd_select int | Rd_byte byte | Rd_eof | Rd_error

datatype wr_event = Wr_select int | Wr_accept nat | Wr_error

record poll_env =
  poll_ret :: int
  poll_ready :: "int list"
  poll_accept :: int

record timespec =
  ts_sec :: int
  ts_nsec :: int

datatype conn = Client_connection | Client_read_fd

record plat =
  client_connection :: int
  server_fd :: int
  client_read_fd :: int
  client_connections :: "int list"
  errno :: int
  addrs :: "(int \<times> addr_env list) list"
  rd :: "rd_event list"
  wr :: "wr_event list"
  polls :: "poll_env list"
  waits :: "(int \<times> int) option list"
  written :: "byte list"
  closes :: "int list"
  naps :: "timespec list"

subsection \<open>Descriptor sets\<close>

text \<open>\<^verbatim>\<open>FD_SET\<close> and \<^verbatim>\<open>FD_CLR\<close> with a descriptor outside of the set's range are undefined behaviour.\<close>

definition FD_SETSIZE :: int where
  "FD_SETSIZE = 1024"

definition FD_SET :: "int \<Rightarrow> int list \<Rightarrow> int list option" where
  "FD_SET fd s = (if 0 \<le> fd \<and> fd < FD_SETSIZE then Some (if fd \<in> set s then s else fd # s) else None)"

definition FD_CLR :: "int \<Rightarrow> int list \<Rightarrow> int list option" where
  "FD_CLR fd s = (if 0 \<le> fd \<and> fd < FD_SETSIZE then Some (removeAll fd s) else None)"

definition close :: "int \<Rightarrow> plat \<Rightarrow> plat" where
  "close fd w = w\<lparr>closes := closes w @ [fd]\<rparr>"

definition getaddrinfo :: "plat \<Rightarrow> int \<times> addr_env list \<times> plat" where
  "getaddrinfo w = (case addrs w of
     [] \<Rightarrow> (- 1, [], w)
   | (ret, results) # es \<Rightarrow> (ret, results, w\<lparr>addrs := es\<rparr>))"

subsection \<open>Connections\<close>

text \<open>\<open>connect_loop\<close> returns the descriptor of the first address that accepts a connection.\<close>

fun connect_loop :: "addr_env list \<Rightarrow> plat \<Rightarrow> int option \<times> plat" where
  "connect_loop [] w = (None, w)"
| "connect_loop (rp # es) w =
     (let fd = ai_socket rp in
      if fd = - 1 then connect_loop es w
      else if ai_connect rp = 0 then (Some fd, w)
      else connect_loop es (close fd w))"

definition connect_tcp :: "plat \<Rightarrow> conn option \<times> plat" where
  "connect_tcp w = (let (ret, results, w) = getaddrinfo w in
     if ret \<noteq> 0 then (None, w)
     else case connect_loop results w of
       (None, w) \<Rightarrow> (None, w)
     | (Some fd, w) \<Rightarrow> (Some Client_connection, w\<lparr>client_connection := fd\<rparr>))"

definition close_tcp_server :: "plat \<Rightarrow> plat" where
  "close_tcp_server w = (if server_fd w \<noteq> - 1 then close (server_fd w) w else w)"

text \<open>
  \<open>server_loop\<close> is the loop of \<^verbatim>\<open>create_tcp_server\<close> with the value of \<^verbatim>\<open>fd\<close>; \<open>Inl\<close> is the early return.
\<close>

fun server_loop :: "addr_env list \<Rightarrow> int \<Rightarrow> plat \<Rightarrow> (int + int) \<times> plat" where
  "server_loop [] fd w = (Inr fd, w)"
| "server_loop (rp # es) fd w =
     (let fd = ai_socket rp in
      if fd = - 1 then server_loop es fd w
      else if ai_setsockopt rp \<noteq> 0 then (Inl (- 1), w)
      else if ai_bind rp \<noteq> 0 then server_loop es (- 1) (close fd w)
      else if ai_listen rp \<noteq> 0 then server_loop es (- 1) (close fd w)
      else (Inr fd, w))"

definition create_tcp_server :: "plat \<Rightarrow> int \<times> plat" where
  "create_tcp_server w = (let (ret, results, w) = getaddrinfo w in
     if ret \<noteq> 0 then (- 1, w)
     else case server_loop results (- 1) w of
       (Inl rc, w) \<Rightarrow> (rc, w)
     | (Inr fd, w) \<Rightarrow>
         if fd < 0 then (errno w, w)
         else (0, w\<lparr>server_fd := fd, client_connections := []\<rparr>))"

text \<open>The scan over the descriptors: the connection to serve, if there is one.\<close>

fun poll_scan :: "poll_env \<Rightarrow> int list \<Rightarrow> plat \<Rightarrow> (conn option \<times> plat) option" where
  "poll_scan e [] w = Some (None, w)"
| "poll_scan e (i # es) w =
     (if i \<notin> set (poll_ready e) then poll_scan e es w
      else if i = server_fd w then
        (let client = poll_accept e in
         if client < 0 then poll_scan e es w
         else do { cs \<leftarrow> FD_SET client (client_connections w); poll_scan e es (w\<lparr>client_connections := cs\<rparr>) })
      else Some (Some Client_read_fd, w\<lparr>client_read_fd := i\<rparr>))"

fun poll_loop :: "poll_env list \<Rightarrow> plat \<Rightarrow> (conn option \<times> plat) option" where
  "poll_loop [] w = do {
     _ \<leftarrow> FD_SET (server_fd w) (client_connections w);
     Some (None, w\<lparr>polls := []\<rparr>)
   }"
| "poll_loop (e # es) w = do {
     _ \<leftarrow> FD_SET (server_fd w) (client_connections w);
     if poll_ret e < 0 then Some (None, w\<lparr>polls := es\<rparr>)
     else do {
       (c, w) \<leftarrow> poll_scan e [0..FD_SETSIZE - 1] (w\<lparr>polls := es\<rparr>);
       case c of Some _ \<Rightarrow> Some (c, w) | None \<Rightarrow> poll_loop es w
     }
   }"

definition server_poll :: "plat \<Rightarrow> (conn option \<times> plat) option" where
  "server_poll w = poll_loop (polls w) w"

text \<open>A connection is the address of one of two globals.\<close>

fun conn_fd :: "conn \<Rightarrow> plat \<Rightarrow> int" where
  "conn_fd Client_connection w = client_connection w"
| "conn_fd Client_read_fd w = client_read_fd w"

definition disconnect :: "conn \<Rightarrow> plat \<Rightarrow> plat option" where
  "disconnect conn w = (let fd = conn_fd conn w in do {
     cs \<leftarrow> FD_CLR fd (client_connections w);
     Some (close fd (w\<lparr>client_connections := cs\<rparr>))
   })"

subsection \<open>Reading and writing\<close>

definition select_timeout :: "int \<Rightarrow> (int \<times> int) option" where
  "select_timeout timeout_ms = (if timeout_ms \<ge> 0 then Some (timeout_ms sdiv 1000, (timeout_ms smod 1000) * 1000) else None)"

text \<open>
  The loops of \<^verbatim>\<open>read_fd_linux\<close> and \<^verbatim>\<open>write_fd_linux\<close> take one event per iteration. \<open>tot\<close> (\<^verbatim>\<open>total\<close>) and \<open>count\<close> have the
  type \<^verbatim>\<open>uint16_t\<close>.
\<close>

definition wait_on :: "int \<Rightarrow> plat \<Rightarrow> plat" where
  "wait_on timeout_ms w = w\<lparr>waits := waits w @ [select_timeout timeout_ms]\<rparr>"

fun read_loop :: "rd_event list \<Rightarrow> byte list \<Rightarrow> u16 \<Rightarrow> u16 \<Rightarrow> int \<Rightarrow> conn \<Rightarrow> plat \<Rightarrow> (int \<times> byte list \<times> plat) option" where
  "read_loop [] buf tot count timeout_ms arg w =
     (if tot = count then Some (uint tot, buf, w\<lparr>rd := []\<rparr>)
      else Some (- 1, buf, wait_on timeout_ms (w\<lparr>rd := []\<rparr>)))"
| "read_loop (e # es) buf tot count timeout_ms arg w =
     (if tot = count then Some (uint tot, buf, w\<lparr>rd := e # es\<rparr>)
      else let w' = wait_on timeout_ms (w\<lparr>rd := es\<rparr>) in
      case e of
        Rd_select n \<Rightarrow> if n = 0 then Some (uint tot, buf, w') else Some (- 1, buf, w')
      | Rd_eof \<Rightarrow> do { w' \<leftarrow> disconnect arg w'; Some (- 1, buf, w') }
      | Rd_error \<Rightarrow> Some (- 1, buf, w')
      | Rd_byte b \<Rightarrow> do {
          buf \<leftarrow> store buf (unat tot) b;
          read_loop es buf (tot + 1) count timeout_ms arg w'
        })"

definition read_fd_linux :: "byte list \<Rightarrow> u16 \<Rightarrow> int \<Rightarrow> conn \<Rightarrow> plat \<Rightarrow> (int \<times> byte list \<times> plat) option" where
  "read_fd_linux buf count timeout_ms arg w =
     (if conn_fd arg w < 0 \<or> FD_SETSIZE \<le> conn_fd arg w then (if count = 0 then Some (0, buf, w) else None)
      else read_loop (rd w) buf 0 count timeout_ms arg w)"

fun write_loop :: "wr_event list \<Rightarrow> byte list \<Rightarrow> u16 \<Rightarrow> u16 \<Rightarrow> int \<Rightarrow> conn \<Rightarrow> plat \<Rightarrow> (int \<times> plat) option" where
  "write_loop [] buf tot count timeout_ms arg w =
     (if tot = count then Some (uint tot, w\<lparr>wr := []\<rparr>)
      else Some (- 1, wait_on timeout_ms (w\<lparr>wr := []\<rparr>)))"
| "write_loop (e # es) buf tot count timeout_ms arg w =
     (if tot = count then Some (uint tot, w\<lparr>wr := e # es\<rparr>)
      else let w' = wait_on timeout_ms (w\<lparr>wr := es\<rparr>) in
      case e of
        Wr_select n \<Rightarrow> if n = 0 then Some (0, w') else Some (- 1, w')
      | Wr_error \<Rightarrow> Some (- 1, w')
      | Wr_accept n \<Rightarrow>
          if length buf < unat tot + unat count then None
          else let k = min n (unat count) in
            if k = 0 then do { w' \<leftarrow> disconnect arg w'; Some (- 1, w') }
            else write_loop es buf (tot + word_of_nat k) count timeout_ms arg
              (w'\<lparr>written := written w' @ take k (drop (unat tot) buf)\<rparr>))"

definition write_fd_linux :: "byte list \<Rightarrow> u16 \<Rightarrow> int \<Rightarrow> conn \<Rightarrow> plat \<Rightarrow> (int \<times> plat) option" where
  "write_fd_linux buf count timeout_ms arg w =
     (if conn_fd arg w < 0 \<or> FD_SETSIZE \<le> conn_fd arg w then (if count = 0 then Some (0, w) else None)
      else write_loop (wr w) buf 0 count timeout_ms arg w)"

subsection \<open>Sleeping\<close>

text \<open>
  The branch of \<^verbatim>\<open>sleep_ms\<close> that is compiled on Linux: \<^verbatim>\<open>nanosleep\<close>. The remainder times 1000000 fits into
  \<^verbatim>\<open>int\<close>.
\<close>

definition sleep_request :: "int \<Rightarrow> timespec" where
  "sleep_request milliseconds =
     \<lparr>ts_sec = milliseconds sdiv 1000, ts_nsec = to_int ((milliseconds smod 1000) * 1000000)\<rparr>"

definition sleep_ms :: "int \<Rightarrow> plat \<Rightarrow> plat" where
  "sleep_ms milliseconds w = w\<lparr>naps := naps w @ [sleep_request milliseconds]\<rparr>"

subsection \<open>Connecting\<close>

definition reachable_addr :: "addr_env \<Rightarrow> bool" where
  "reachable_addr rp \<longleftrightarrow> ai_socket rp \<noteq> - 1 \<and> ai_connect rp = 0"

text \<open>The sockets that were opened for the addresses before the first reachable one.\<close>

definition failed_sockets :: "addr_env list \<Rightarrow> int list" where
  "failed_sockets results = filter (\<lambda>fd. fd \<noteq> - 1) (map ai_socket (takeWhile (\<lambda>rp. \<not> reachable_addr rp) results))"

lemma connect_loop_spec:
  "connect_loop results w =
     (map_option ai_socket (find reachable_addr results), w\<lparr>closes := closes w @ failed_sockets results\<rparr>)"
  by (induction results w rule: connect_loop.induct)
    (auto simp: Let_def reachable_addr_def failed_sockets_def close_def)

text \<open>
  C35. \<^verbatim>\<open>connect_tcp\<close> connects to the first reachable address and closes every socket it had opened for
  an address before; if no address is reachable it returns \<^verbatim>\<open>NULL\<close> with all its sockets closed.
\<close>

theorem connect_tcp_closes_failed:
  assumes "addrs w = (0, results) # es"
  shows "connect_tcp w = (case find reachable_addr results of
      None \<Rightarrow> (None, w\<lparr>addrs := es, closes := closes w @ failed_sockets results\<rparr>)
    | Some rp \<Rightarrow> (Some Client_connection,
        w\<lparr>addrs := es, closes := closes w @ failed_sockets results, client_connection := ai_socket rp\<rparr>))"
  using assms
  by (simp add: connect_tcp_def getaddrinfo_def connect_loop_spec split: option.split)

definition example_plat :: plat where
  "example_plat = \<lparr>client_connection = - 1, server_fd = - 1, client_read_fd = - 1, client_connections = [],
     errno = 0, addrs = [], rd = [], wr = [], polls = [], waits = [], written = [], closes = [], naps = []\<rparr>"

definition example_addr :: "int \<Rightarrow> int \<Rightarrow> addr_env" where
  "example_addr fd r = \<lparr>ai_socket = fd, ai_connect = r, ai_setsockopt = 0, ai_bind = 0, ai_listen = 0\<rparr>"

theorem connect_tcp_closes_failed_witness:
  "let (c, w) = connect_tcp (example_plat\<lparr>addrs := [(0, [example_addr 5 111, example_addr (- 1) 0, example_addr 6 0])]\<rparr>)
   in c = Some Client_connection \<and> client_connection w = 6 \<and> closes w = [5]"
proof -
  define rs where "rs = [example_addr 5 111, example_addr (- 1) 0, example_addr 6 0]"
  have "find reachable_addr rs = Some (example_addr 6 0)" "failed_sockets rs = [5]"
    by (simp_all add: rs_def reachable_addr_def failed_sockets_def example_addr_def)
  then show ?thesis
    using connect_tcp_closes_failed [of "example_plat\<lparr>addrs := [(0, rs)]\<rparr>" rs "[]"]
    by (simp add: rs_def example_plat_def example_addr_def)
qed

subsection \<open>The transport\<close>

lemma disconnect_fd:
  "0 \<le> conn_fd c w \<Longrightarrow> conn_fd c w < FD_SETSIZE \<Longrightarrow>
   disconnect c w = Some (close (conn_fd c w) (w\<lparr>client_connections := removeAll (conn_fd c w) (client_connections w)\<rparr>))"
  by (simp add: disconnect_def FD_CLR_def Let_def)

definition open_conn :: "conn \<Rightarrow> plat \<Rightarrow> bool" where
  "open_conn c w \<longleftrightarrow> 0 \<le> conn_fd c w \<and> conn_fd c w < FD_SETSIZE"

lemma conn_fd_wait_on [simp]: "conn_fd c (wait_on t w) = conn_fd c w" "conn_fd c (w\<lparr>rd := r\<rparr>) = conn_fd c w"
  "conn_fd c (w\<lparr>wr := x\<rparr>) = conn_fd c w" "conn_fd c (w\<lparr>written := bs\<rparr>) = conn_fd c w"
  "conn_fd c (w\<lparr>client_connections := cs\<rparr>) = conn_fd c w" "conn_fd c (close fd w) = conn_fd c w"
  by (cases c; simp add: wait_on_def close_def)+

lemma rd_wait_on [simp]: "rd (wait_on t w) = rd w" "rd (close fd w) = rd w"
  by (simp_all add: wait_on_def close_def)

lemma disconnect_open: "open_conn c w \<Longrightarrow> \<exists>w'. disconnect c w = Some w' \<and> rd w' = rd w \<and> wr w' = wr w \<and> written w' = written w"
  by (simp add: open_conn_def disconnect_fd close_def)

lemma open_conn_simps [simp]: "open_conn c (wait_on t w) = open_conn c w" "open_conn c (w\<lparr>rd := r\<rparr>) = open_conn c w"
  "open_conn c (w\<lparr>wr := x\<rparr>) = open_conn c w" "open_conn c (w\<lparr>written := bs\<rparr>) = open_conn c w"
  by (simp_all add: open_conn_def)

text \<open>
  The bytes that arrive before the first event of another kind, and the outcome of a read that such an
  event ends after \<open>n\<close> bytes: a time-out reports the bytes so far, the end of the stream closes the
  connection, any other event and the lack of one are failures.
\<close>

fun arrived :: "rd_event list \<Rightarrow> byte list" where
  "arrived (Rd_byte b # es) = b # arrived es"
| "arrived es = []"

definition close_conn :: "conn \<Rightarrow> plat \<Rightarrow> plat" where
  "close_conn c w = w\<lparr>client_connections := removeAll (conn_fd c w) (client_connections w),
     closes := closes w @ [conn_fd c w]\<rparr>"

fun read_end :: "rd_event list \<Rightarrow> nat \<Rightarrow> conn \<Rightarrow> plat \<Rightarrow> int \<times> plat" where
  "read_end (Rd_select m # es) n c w = (if m = 0 then int n else - 1, w)"
| "read_end (Rd_eof # es) n c w = (- 1, close_conn c w)"
| "read_end es n c w = (- 1, w)"

definition after_events :: "nat \<Rightarrow> int \<Rightarrow> plat \<Rightarrow> plat" where
  "after_events k t w = w\<lparr>rd := drop k (rd w), waits := waits w @ replicate k (select_timeout t)\<rparr>"

lemma disconnect_close_conn: "open_conn c w \<Longrightarrow> disconnect c w = Some (close_conn c w)"
  by (simp add: open_conn_def disconnect_fd close_def close_conn_def)

lemma read_loop_exact:
  assumes "open_conn c w" "unat tot \<le> unat count" "unat count \<le> length buf" "rd w = evs"
  defines "bs \<equiv> take (unat count - unat tot) (arrived evs)"
  shows "read_loop evs buf tot count t c w =
    (if unat tot + length bs = unat count then Some (uint count, overwrite buf (unat tot) bs, after_events (length bs) t w)
     else let (rc, w') = read_end (drop (length bs) evs) (unat tot + length bs) c (after_events (length bs + 1) t w)
          in Some (rc, overwrite buf (unat tot) bs, w'))"
  using assms(1-4) unfolding bs_def
proof (induction evs buf tot count t c w rule: read_loop.induct)
  case (1 buf tot count t c w)
  then show ?case
    by (cases "tot = count") (auto simp: after_events_def wait_on_def dest: unsigned_word_eqI)
next
  case (2 e es buf tot count t c w)
  define w' where "w' = wait_on t (w\<lparr>rd := es\<rparr>)"
  have w': "open_conn c w'" "rd w' = es"
    using 2(2) by (simp_all add: w'_def)
  have after: "after_events 1 t w = w'" "after_events k t w' = after_events (Suc k) t w" for k
    using 2(5) by (simp_all add: w'_def after_events_def wait_on_def)
  show ?case
  proof (cases "tot = count")
    case True
    then show ?thesis
      using 2(5) by (simp add: after_events_def)
  next
    case False
    then have "unat tot \<noteq> unat count"
      by (auto dest: unsigned_word_eqI)
    with 2(3) have lt: "unat tot < unat count"
      by (rule le_neq_implies_less)
    show ?thesis
    proof (cases e)
      case (Rd_byte b)
      have "unat count < 65536"
        using unsigned_less [of count, where ?'a = nat] by simp
      with lt have u: "unat (tot + 1) = Suc (unat tot)"
        by (simp add: unat_word_ariths)
      have l: "unat tot < length buf" "unat count - unat tot = Suc (unat count - Suc (unat tot))"
        using lt 2(4) by simp_all
      have o: "overwrite (buf[unat tot := b]) (Suc (unat tot)) xs = overwrite buf (unat tot) (b # xs)" for xs
        using l(1) by (simp add: overwrite_def take_Suc_conv_app_nth)
      have ih: "read_loop es (buf[unat tot := b]) (tot + 1) count t c w' =
         (let bs = take (unat count - unat (tot + 1)) (arrived es) in
          if unat (tot + 1) + length bs = unat count
          then Some (uint count, overwrite (buf[unat tot := b]) (unat (tot + 1)) bs, after_events (length bs) t w')
          else let (rc, w'') = read_end (drop (length bs) es) (unat (tot + 1) + length bs) c (after_events (length bs + 1) t w')
               in Some (rc, overwrite (buf[unat tot := b]) (unat (tot + 1)) bs, w''))"
        unfolding Let_def using False lt w' 2(4) Rd_byte l(1)
        by (intro "2.IH" [unfolded Let_def]) (simp_all add: u w'_def)
      have "read_loop (e # es) buf tot count t c w = read_loop es (buf[unat tot := b]) (tot + 1) count t c w'"
        using False Rd_byte l(1) by (simp add: Let_def w'_def)
      then show ?thesis
        unfolding ih u o after(2) using Rd_byte l(2) by (simp add: Let_def del: read_loop.simps)
    next
      case (Rd_select n)
      with False lt after(1) show ?thesis
        by (cases "n = 0") (simp_all add: w'_def [symmetric] Let_def)
    next
      case Rd_eof
      with False lt after(1) disconnect_close_conn [OF w'(1)] show ?thesis
        by (simp add: w'_def [symmetric] Let_def)
    next
      case Rd_error
      with False lt after(1) show ?thesis
        by (simp add: w'_def [symmetric] Let_def)
    qed
  qed
qed

text \<open>
  C33. \<^verbatim>\<open>read_fd_linux\<close> on an open connection, with room for \<^verbatim>\<open>count\<close> bytes. It stores the bytes
  that arrive, in order from the front of the buffer, until it has \<^verbatim>\<open>count\<close> of them or something
  else happens. With \<^verbatim>\<open>count\<close> bytes it returns \<^verbatim>\<open>count\<close> and leaves the further input to be read. If
  \<^verbatim>\<open>select\<close> times out before, it returns the number of bytes so far; at the end of the stream it
  closes the connection and returns -1; after an error it returns -1. It waits once for each event
  that it takes, and changes nothing else.
\<close>

theorem read_fd_linux_exact:
  assumes "open_conn c w" "unat count \<le> length buf"
  shows "read_fd_linux buf count timeout_ms c w =
    (let bs = take (unat count) (arrived (rd w)) in
     if length bs = unat count then Some (uint count, overwrite buf 0 bs, after_events (length bs) timeout_ms w)
     else let (rc, w') = read_end (drop (length bs) (rd w)) (length bs) c (after_events (length bs + 1) timeout_ms w)
          in Some (rc, overwrite buf 0 bs, w'))"
proof -
  have "read_fd_linux buf count timeout_ms c w = read_loop (rd w) buf 0 count timeout_ms c w"
    using assms(1) by (simp add: read_fd_linux_def open_conn_def)
  then show ?thesis
    unfolding Let_def using read_loop_exact [OF assms(1), of 0 count buf "rd w" timeout_ms] assms(2) by simp
qed

text \<open>Three bytes for a count of two, and one byte before a time-out.\<close>

theorem read_fd_linux_exact_witness:
  "(\<exists>w'. read_fd_linux [9, 9] 2 100 Client_connection (example_plat\<lparr>client_connection := 5, rd := map Rd_byte [1, 2, 3]\<rparr>) =
      Some (2, [1, 2], w') \<and> rd w' = [Rd_byte 3]) \<and>
   (\<exists>w'. read_fd_linux [9, 9] 2 100 Client_connection (example_plat\<lparr>client_connection := 5, rd := [Rd_byte 1, Rd_select 0, Rd_byte 2]\<rparr>) =
      Some (1, [1, 9], w') \<and> rd w' = [Rd_byte 2])"
  using read_fd_linux_exact [of Client_connection "example_plat\<lparr>client_connection := 5, rd := map Rd_byte [1, 2, 3]\<rparr>"
      2 "[9, 9]" 100]
    read_fd_linux_exact [of Client_connection "example_plat\<lparr>client_connection := 5, rd := [Rd_byte 1, Rd_select 0, Rd_byte 2]\<rparr>"
      2 "[9, 9]" 100]
  by (simp add: open_conn_def FD_SETSIZE_def after_events_def overwrite_def)

text \<open>
  C34. \<^verbatim>\<open>write_fd_linux\<close> on an open connection: if the first \<^verbatim>\<open>write\<close> takes all \<^verbatim>\<open>count\<close> bytes, exactly the
  buffer is sent. If it takes fewer, the next \<^verbatim>\<open>write\<close> again asks for \<^verbatim>\<open>count\<close> bytes, and reads past the
  end of a buffer of that length.
\<close>

theorem write_fd_linux_partial:
  assumes "open_conn c w" "length buf = unat count" "0 < n" "wr w = Wr_accept n # es" "count \<noteq> 0"
  shows "(unat count \<le> n \<longrightarrow> (\<exists>w'. write_fd_linux buf count timeout_ms c w = Some (uint count, w') \<and>
      written w' = written w @ buf \<and> wr w' = es)) \<and>
    (n < unat count \<and> es = Wr_accept m # es' \<longrightarrow> write_fd_linux buf count timeout_ms c w = None)"
proof -
  define w1 where "w1 = wait_on timeout_ms (w\<lparr>wr := es\<rparr>)"
  define k where "k = min n (unat count)"
  have k0: "k \<noteq> 0"
    using assms(3,5) unat_gt_0 [of count] by (simp add: k_def min_def del: unat_gt_0)
  have l: "write_fd_linux buf count timeout_ms c w =
      write_loop es buf (word_of_nat k) count timeout_ms c (w1\<lparr>written := written w1 @ take k buf\<rparr>)"
    using assms k0 by (simp add: write_fd_linux_def open_conn_def Let_def k_def [symmetric] w1_def)
  have w1: "written w1 = written w" "wr w1 = es"
    by (simp_all add: w1_def wait_on_def)
  have "\<exists>w'. write_fd_linux buf count timeout_ms c w = Some (uint count, w') \<and> written w' = written w @ buf \<and> wr w' = es"
    if "unat count \<le> n"
    using that assms(2) w1 unfolding l k_def by (cases es) (simp_all add: min_def)
  moreover have "write_fd_linux buf count timeout_ms c w = None" if n: "n < unat count" and es: "es = Wr_accept m # es'"
  proof -
    have k: "k = n" "unat (word_of_nat n :: u16) = n"
      using n order_less_trans [OF n unsigned_less] by (simp_all add: k_def unat_of_nat)
    have "word_of_nat n \<noteq> count"
      using n k by (metis less_irrefl)
    then show ?thesis
      unfolding l es using k assms(2,3) by (simp add: Let_def)
  qed
  ultimately show ?thesis
    by blast
qed

theorem write_fd_linux_partial_witness:
  "write_fd_linux [1, 2, 3] 3 100 Client_connection
     (example_plat\<lparr>client_connection := 5, wr := [Wr_accept 2, Wr_accept 1]\<rparr>) = None"
  using write_fd_linux_partial [where c = Client_connection and buf = "[1, 2, 3]" and count = 3 and timeout_ms = 100
      and w = "example_plat\<lparr>client_connection := 5, wr := [Wr_accept 2, Wr_accept 1]\<rparr>" and n = 2 and m = 1 and es' = "[]"]
  by (simp add: open_conn_def FD_SETSIZE_def)

text \<open>The request of \<^verbatim>\<open>sleep_ms\<close> is a valid one and lasts exactly the given number of milliseconds.\<close>

lemma sleep_ms_duration:
  assumes "0 \<le> milliseconds"
  shows "\<exists>ts. naps (sleep_ms milliseconds w) = naps w @ [ts] \<and> 0 \<le> ts_nsec ts \<and> ts_nsec ts < 1000000000 \<and>
    ts_sec ts * 1000000000 + ts_nsec ts = milliseconds * 1000000"
proof -
  have "milliseconds smod 1000 = milliseconds mod 1000" "milliseconds sdiv 1000 = milliseconds div 1000"
    using assms by (simp_all add: sdiv_nonneg smod_nonneg)
  moreover have "0 \<le> milliseconds mod 1000" "milliseconds mod 1000 < 1000"
    by simp_all
  moreover have "milliseconds div 1000 * 1000000000 + milliseconds mod 1000 * 1000000 = milliseconds * 1000000"
    using mult_div_mod_eq [of 1000 milliseconds] by linarith
  ultimately show ?thesis
    by (simp add: sleep_ms_def sleep_request_def)
qed

end
