(* ===== verification/Modbus_Task.thy ===== *)
theory Modbus_Task
  imports Platform
begin

text \<open>
  \<^verbatim>\<open>modbus_task.c\<close>: the thread that reads a holding register of a PLC, hands the value to the publishing
  thread and writes it back incremented. The Modbus library nanoMODBUS is not part of the sources; its
  functions are the fields of an \<open>nmbs_api\<close>, over a type \<open>'n\<close> for \<^verbatim>\<open>nmbs_t\<close>.
\<close>

text \<open>
  The arguments of the library functions are those of the calls: the client, the address, the
  quantity and the register array. \<open>None\<close> is undefined behaviour inside the library.
\<close>

record 'n nmbs_api =
  nmbs_client_create :: "conn \<Rightarrow> plat \<Rightarrow> (int \<times> 'n \<times> plat) option"
  nmbs_error_is_exception :: "int \<Rightarrow> bool"
  nmbs_set_read_timeout :: "'n \<Rightarrow> int \<Rightarrow> 'n"
  nmbs_read_holding_registers :: "'n \<Rightarrow> u16 \<Rightarrow> u16 \<Rightarrow> u16 list \<Rightarrow> plat \<Rightarrow> (int \<times> u16 list \<times> 'n \<times> plat) option"
  nmbs_write_multiple_registers :: "'n \<Rightarrow> u16 \<Rightarrow> u16 \<Rightarrow> u16 list \<Rightarrow> plat \<Rightarrow> (int \<times> 'n \<times> plat) option"

definition NMBS_ERROR_NONE :: int where
  "NMBS_ERROR_NONE = 0"

definition MAX_CONN_ATTEMPS :: nat where
  "MAX_CONN_ATTEMPS = 10"

record modbus_task_config =
  plc_ip :: cptr
  plc_port :: cptr
  plc_register :: u32

text \<open>
  The thread's state: the operating system, the global \<^verbatim>\<open>shared_value\<close> and the values for which the
  condition variable was signalled. \<open>r_regs0\<close> is the content of the uninitialized array \<^verbatim>\<open>r_regs\<close>.
\<close>

record modbus =
  m_plat :: plat
  shared_value :: "64 word"
  signalled :: "64 word list"
  r_regs0 :: u16

text \<open>At most \<open>n\<close> attempts to connect.\<close>

fun connect_attempts :: "nat \<Rightarrow> plat \<Rightarrow> conn option \<times> plat" where
  "connect_attempts 0 w = (None, w)"
| "connect_attempts (Suc n) w =
     (case connect_tcp w of
        (Some conn, w) \<Rightarrow> (Some conn, w)
      | (None, w) \<Rightarrow> connect_attempts n w)"

text \<open>The critical section of the thread: the value is stored and the waiting thread is signalled.\<close>

definition send_value :: "u16 \<Rightarrow> modbus \<Rightarrow> modbus" where
  "send_value v s = s\<lparr>shared_value := ucast v, signalled := signalled s @ [ucast v]\<rparr>"

text \<open>
  One iteration of the main loop, up to the loop condition. The result is \<^verbatim>\<open>err\<close>; a \<^verbatim>\<open>continue\<close> also goes
  to the condition.
\<close>

definition modbus_write ::
  "'n nmbs_api \<Rightarrow> modbus_task_config \<Rightarrow> conn \<Rightarrow> u16 \<Rightarrow> 'n \<Rightarrow> modbus \<Rightarrow> (int \<times> 'n \<times> modbus) option" where
  "modbus_write api config conn v nmbs s = do {
     (err, nmbs, p) \<leftarrow> nmbs_write_multiple_registers api nmbs (ucast (plc_register config)) 1 [v + 1] (m_plat s);
     let s = s\<lparr>m_plat := p\<rparr>;
     if err \<noteq> NMBS_ERROR_NONE \<and> \<not> nmbs_error_is_exception api err then do {
       p \<leftarrow> disconnect conn (m_plat s);
       Some (err, nmbs, s\<lparr>m_plat := p\<rparr>)
     }
     else Some (err, nmbs, s\<lparr>m_plat := sleep_ms 1000 (m_plat s)\<rparr>)
   }"

definition modbus_round ::
  "'n nmbs_api \<Rightarrow> modbus_task_config \<Rightarrow> conn \<Rightarrow> 'n \<Rightarrow> modbus \<Rightarrow> (int \<times> 'n \<times> modbus) option" where
  "modbus_round api config conn nmbs s = do {
     (err, r_regs, nmbs, p) \<leftarrow>
       nmbs_read_holding_registers api nmbs (ucast (plc_register config)) 1 [r_regs0 s] (m_plat s);
     let s = s\<lparr>m_plat := p\<rparr>;
     if err \<noteq> NMBS_ERROR_NONE \<and> \<not> nmbs_error_is_exception api err then do {
       p \<leftarrow> disconnect conn (m_plat s);
       Some (err, nmbs, s\<lparr>m_plat := p\<rparr>)
     }
     else do {
       v \<leftarrow> fetch r_regs 0;
       modbus_write api config conn v nmbs (send_value v s)
     }
   }"

text \<open>
  The main loop for at most \<open>n\<close> iterations; the first component of the result tells whether the loop
  has ended. After the loop the connection is closed.
\<close>

fun modbus_loop ::
  "nat \<Rightarrow> 'n nmbs_api \<Rightarrow> modbus_task_config \<Rightarrow> conn \<Rightarrow> 'n \<Rightarrow> modbus \<Rightarrow> (bool \<times> 'n \<times> modbus) option" where
  "modbus_loop 0 api config conn nmbs s = Some (False, nmbs, s)"
| "modbus_loop (Suc n) api config conn nmbs s = do {
     (err, nmbs, s) \<leftarrow> modbus_round api config conn nmbs s;
     if err = NMBS_ERROR_NONE then modbus_loop n api config conn nmbs s
     else do {
       p \<leftarrow> disconnect conn (m_plat s);
       Some (True, nmbs, s\<lparr>m_plat := p\<rparr>)
     }
   }"

text \<open>The thread, run for at most \<open>n\<close> iterations of its main loop.\<close>

definition modbus_task ::
  "nat \<Rightarrow> 'n nmbs_api \<Rightarrow> modbus_task_config option \<Rightarrow> modbus \<Rightarrow> (bool \<times> modbus) option" where
  "modbus_task n api arg s = (case arg of
     None \<Rightarrow> Some (True, s)
   | Some config \<Rightarrow>
      (case connect_attempts MAX_CONN_ATTEMPS (m_plat s) of
         (None, p) \<Rightarrow> Some (True, s\<lparr>m_plat := p\<rparr>)
       | (Some conn, p) \<Rightarrow> do {
           (err, nmbs, p) \<leftarrow> nmbs_client_create api conn p;
           let s = s\<lparr>m_plat := p\<rparr>;
           if err \<noteq> NMBS_ERROR_NONE \<and> \<not> nmbs_error_is_exception api err then Some (True, s)
           else do {
             let nmbs = nmbs_set_read_timeout api nmbs 1000;
             (finished, _, s) \<leftarrow> modbus_loop n api config conn nmbs s;
             Some (finished, s)
           }
         }))"

subsection \<open>A counting register\<close>

text \<open>
  What the thread relies on when the PLC answers: \<open>reg\<close> is the content of the register. Reading returns it
  and leaves it as it is; writing replaces it; neither touches the descriptors.
\<close>

definition plc_answers :: "'n nmbs_api \<Rightarrow> u16 \<Rightarrow> ('n \<Rightarrow> u16) \<Rightarrow> bool" where
  "plc_answers api address reg \<longleftrightarrow>
     (\<forall>nmbs x p. \<exists>nmbs' p'. nmbs_read_holding_registers api nmbs address 1 [x] p =
        Some (NMBS_ERROR_NONE, [reg nmbs], nmbs', p') \<and> reg nmbs' = reg nmbs \<and> closes p' = closes p) \<and>
     (\<forall>nmbs v p. \<exists>nmbs' p'. nmbs_write_multiple_registers api nmbs address 1 [v] p =
        Some (NMBS_ERROR_NONE, nmbs', p') \<and> reg nmbs' = v \<and> closes p' = closes p)"

lemma modbus_round_answers:
  assumes "plc_answers api (ucast (plc_register config)) reg"
  obtains nmbs' s' where "modbus_round api config conn nmbs s = Some (NMBS_ERROR_NONE, nmbs', s')"
    "reg nmbs' = reg nmbs + 1" "signalled s' = signalled s @ [ucast (reg nmbs)]"
    "shared_value s' = ucast (reg nmbs)" "closes (m_plat s') = closes (m_plat s)"
proof -
  obtain n1 p1 where r: "nmbs_read_holding_registers api nmbs (ucast (plc_register config)) 1 [r_regs0 s] (m_plat s) =
      Some (NMBS_ERROR_NONE, [reg nmbs], n1, p1)" "closes p1 = closes (m_plat s)"
    using assms unfolding plc_answers_def by meson
  obtain n2 p2 where w: "nmbs_write_multiple_registers api n1 (ucast (plc_register config)) 1 [reg nmbs + 1] p1 =
      Some (NMBS_ERROR_NONE, n2, p2)" "reg n2 = reg nmbs + 1" "closes p2 = closes p1"
    using assms unfolding plc_answers_def by meson
  show thesis
    using r w
    by (intro that [of n2 "(send_value (reg nmbs) (s\<lparr>m_plat := p1\<rparr>))\<lparr>m_plat := sleep_ms 1000 p2\<rparr>"])
      (simp_all add: modbus_round_def modbus_write_def send_value_def sleep_ms_def)
qed

text \<open>
  C36. While the PLC answers, the thread runs on: for every number of iterations, each one signals the
  register's value to the publishing thread and increments the register, modulo 2 to the 16, and no
  connection is closed.
\<close>

theorem modbus_counts:
  assumes "plc_answers api (ucast (plc_register config)) reg"
  shows "\<exists>nmbs' s'. modbus_loop n api config conn nmbs s = Some (False, nmbs', s') \<and>
    reg nmbs' = reg nmbs + word_of_nat n \<and>
    signalled s' = signalled s @ map (\<lambda>i. ucast (reg nmbs + word_of_nat i)) [0..<n] \<and>
    closes (m_plat s') = closes (m_plat s)"
proof (induction n arbitrary: nmbs s)
  case (Suc n)
  obtain n1 s1 where r: "modbus_round api config conn nmbs s = Some (NMBS_ERROR_NONE, n1, s1)"
    "reg n1 = reg nmbs + 1" "signalled s1 = signalled s @ [ucast (reg nmbs)]"
    "closes (m_plat s1) = closes (m_plat s)"
    using modbus_round_answers [OF assms] by metis
  have "map (\<lambda>i. ucast (reg nmbs + word_of_nat i) :: 64 word) [0..<Suc n] =
      ucast (reg nmbs) # map (\<lambda>i. ucast (reg n1 + word_of_nat i)) [0..<n]"
    by (simp add: r(2) upt_conv_Cons map_Suc_upt [symmetric] add.assoc del: upt_Suc)
  then show ?case
    using Suc.IH [of n1 s1] r by (auto simp del: upt_Suc simp: add.assoc)
qed simp

text \<open>A PLC with one register, held in the client state.\<close>

definition example_api :: "u16 nmbs_api" where
  "example_api = \<lparr>nmbs_client_create = (\<lambda>_ p. Some (0, 0, p)), nmbs_error_is_exception = (\<lambda>e. 0 < e \<and> e < 5),
     nmbs_set_read_timeout = (\<lambda>n _. n), nmbs_read_holding_registers = (\<lambda>n _ _ _ p. Some (0, [n], n, p)),
     nmbs_write_multiple_registers = (\<lambda>_ _ _ vs p. Some (0, hd vs, p))\<rparr>"

definition example_modbus_config :: modbus_task_config where
  "example_modbus_config = \<lparr>plc_ip = Null, plc_port = Null, plc_register = 3\<rparr>"

definition example_modbus :: modbus where
  "example_modbus = \<lparr>m_plat = example_plat\<lparr>client_connection := 5\<rparr>, shared_value = 0, signalled = [], r_regs0 = 0\<rparr>"

theorem modbus_counts_witness:
  "\<exists>nmbs' s'. modbus_loop 3 example_api example_modbus_config Client_connection 65535 example_modbus =
     Some (False, nmbs', s') \<and> nmbs' = 2 \<and> signalled s' = [65535, 0, 1]"
proof -
  have "plc_answers example_api (ucast (plc_register example_modbus_config)) (\<lambda>n. n)"
    by (simp add: plc_answers_def example_api_def NMBS_ERROR_NONE_def)
  from modbus_counts [OF this, of 3 Client_connection 65535 example_modbus] show ?thesis
    by (auto simp: example_modbus_def numeral_3_eq_3)
qed

subsection \<open>Errors\<close>

text \<open>
  C37. A transport error of the library, one that is not a Modbus exception, while the register is read:
  the thread closes its connection, leaves the loop and closes the same descriptor a second time.
  Nothing is signalled.
\<close>

theorem modbus_error_closes_twice:
  assumes "open_conn conn (m_plat s)"
    "nmbs_read_holding_registers api nmbs (ucast (plc_register config)) 1 [r_regs0 s] (m_plat s) =
       Some (err, regs, nmbs', p)"
    "err \<noteq> NMBS_ERROR_NONE" "\<not> nmbs_error_is_exception api err" "conn_fd conn p = conn_fd conn (m_plat s)"
  shows "\<exists>s'. modbus_loop (Suc n) api config conn nmbs s = Some (True, nmbs', s') \<and>
    closes (m_plat s') = closes p @ [conn_fd conn p, conn_fd conn p] \<and> signalled s' = signalled s"
proof -
  define p' where "p' = close (conn_fd conn p) (p\<lparr>client_connections := removeAll (conn_fd conn p) (client_connections p)\<rparr>)"
  have r: "0 \<le> conn_fd conn p" "conn_fd conn p < FD_SETSIZE"
    using assms(1,5) by (simp_all add: open_conn_def)
  then have "disconnect conn p = Some p'"
    by (simp add: disconnect_fd p'_def)
  moreover have "\<exists>p''. disconnect conn p' = Some p'' \<and> closes p'' = closes p @ [conn_fd conn p, conn_fd conn p]"
    using r by (simp add: disconnect_fd p'_def) (simp add: close_def)
  ultimately show ?thesis
    using assms(2-4) by (auto simp: modbus_round_def)
qed

text \<open>A PLC that has gone: reading fails with a transport error.\<close>

definition example_api_gone :: "u16 nmbs_api" where
  "example_api_gone = example_api\<lparr>nmbs_read_holding_registers := (\<lambda>n _ _ rs p. Some (- 1, rs, n, p))\<rparr>"

theorem modbus_error_closes_twice_witness:
  "\<exists>s'. modbus_loop (Suc 0) example_api_gone example_modbus_config Client_connection 0 example_modbus = Some (True, 0, s') \<and>
    closes (m_plat s') = [5, 5] \<and> signalled s' = []"
  using modbus_error_closes_twice [of Client_connection example_modbus example_api_gone 0 example_modbus_config "- 1"
      "[0]" 0 "m_plat example_modbus" 0]
  by (simp add: example_modbus_def example_api_gone_def example_api_def open_conn_def FD_SETSIZE_def NMBS_ERROR_NONE_def
      example_plat_def)

end
