(* ===== verification/Mqtt_Task.thy ===== *)
theory Mqtt_Task
  imports Client Packet_Format Modbus_Task
begin

text \<open>
  \<^verbatim>\<open>mqtt_task.c\<close>: the publishing and the subscribing thread. The application state that message handlers
  change is a record \<open>mqtt_app\<close>: the static message buffer, the lines printed by
  \<^verbatim>\<open>MqttMessageArrived\<close> and the requests to sleep. The fields \<^verbatim>\<open>sendbuf\<close> and \<^verbatim>\<open>readbuf\<close> of the client hold
  the contents of the static arrays \<^verbatim>\<open>sndBuffer\<close> and \<^verbatim>\<open>rcvBuffer\<close> throughout.
\<close>

definition MQTT_BUFSIZE :: nat where
  "MQTT_BUFSIZE = 1024"

record mqtt_config =
  broker_ip :: cptr
  broker_port :: cptr
  device_name :: cptr
  topic :: cptr
  ca_cert_file :: cptr
  client_cert_file :: cptr
  client_key_file :: cptr

record mqtt_app =
  msgBuffer :: "byte list"
  printed :: "(int \<times> byte list) list"
  app_naps :: "timespec list"

type_synonym app_world = "mqtt_app world"
type_synonym app_client = "mqtt_app MQTTClient"

text \<open>The buffer is printed with \<^verbatim>\<open>%s\<close>, up to a zero byte.\<close>

definition MqttMessageArrived :: "MessageData \<Rightarrow> mqtt_app \<Rightarrow> mqtt_app option" where
  "MqttMessageArrived msg a = do {
     let message = md_message msg;
     bs \<leftarrow> bytes_at (msg_payload message) (unat (msg_payloadlen message));
     buf \<leftarrow> put (replicate MQTT_BUFSIZE 0) 0 bs;
     s \<leftarrow> format_s (- 1) (Ptr buf);
     Some (a\<lparr>msgBuffer := buf, printed := printed a @ [(size_to_int (msg_payloadlen message), s)]\<rparr>)
   }"

definition broker_connect_data :: MQTTPacket_connectData where
  "broker_connect_data = MQTTPacket_connectData_initializer
     \<lparr>cd_willFlag := 0, cd_MQTTVersion := 3,
      cd_clientID := MQTTString_initializer\<lparr>cstring := Ptr (text_of ''Linux client'' @ [0])\<rparr>,
      cd_keepAliveInterval := 60, cd_cleansession := 1\<rparr>"

definition MqttConnectBroker ::
  "mqtt_config \<Rightarrow> app_client \<Rightarrow> app_world \<Rightarrow> (int \<times> app_client \<times> app_world) option" where
  "MqttConnectBroker config c w = do {
     (ret, w) \<leftarrow> mqtt_network_connect (broker_port config) w;
     if ret \<noteq> MQTT_SUCCESS then do {
       w \<leftarrow> mqtt_network_disconnect w;
       Some (- 1, c, w)
     }
     else do {
       let c = MQTTClientInit c 1000 (sendbuf c) 1024 (readbuf c) 1024;
       (ret, c, w) \<leftarrow> MQTTConnect c (Some broker_connect_data) w;
       if ret \<noteq> MQTT_SUCCESS then do {
         let c = MQTTCloseSession c;
         w \<leftarrow> mqtt_network_disconnect w;
         Some (ret, c, w)
       }
       else do {
         (ret, c, w) \<leftarrow> MQTTSubscribe c (topic config) QOS0 (Some MqttMessageArrived) w;
         if ret \<noteq> MQTT_SUCCESS then do {
           let c = MQTTCloseSession c;
           w \<leftarrow> mqtt_network_disconnect w;
           Some (ret, c, w)
         }
         else Some (MQTT_SUCCESS, c, w)
       }
     }
   }"

definition task_sleep :: "int \<Rightarrow> app_world \<Rightarrow> app_world" where
  "task_sleep milliseconds w = w\<lparr>app := (app w)\<lparr>app_naps := app_naps (app w) @ [sleep_request milliseconds]\<rparr>\<rparr>"

text \<open>The subscribing thread, for \<open>n\<close> iterations of its endless loop.\<close>

fun sub_loop :: "nat \<Rightarrow> app_client \<Rightarrow> app_world \<Rightarrow> (app_client \<times> app_world) option" where
  "sub_loop 0 c w = Some (c, w)"
| "sub_loop (Suc n) c w =
     (if isconnected c = 0 then sub_loop n c (task_sleep 50 w)
      else do {
        (_, c, w) \<leftarrow> MQTTYield c 500 w;
        sub_loop n c (task_sleep 100 w)
      })"

definition mqtt_sub_task :: "nat \<Rightarrow> mqtt_config option \<Rightarrow> app_client \<Rightarrow> app_world \<Rightarrow> (app_client \<times> app_world) option" where
  "mqtt_sub_task n arg c w = (case arg of None \<Rightarrow> Some (c, w) | Some _ \<Rightarrow> sub_loop n c w)"

subsection \<open>Publishing\<close>

text \<open>
  The text of a message, stored into the 256 bytes of \<^verbatim>\<open>str\<close>.
\<close>

definition message_text :: "byte list \<Rightarrow> 64 word \<Rightarrow> byte list" where
  "message_text name v =
     text_of ''{'' @ [10] @ text_of ''  '' @ [34] @ text_of ''device'' @ [34] @ text_of '': '' @ [34] @ name @ [34] @
     text_of '','' @ [10] @ text_of ''  '' @ [34] @ text_of ''data'' @ [34] @ text_of '': '' @ digits (unat v) @
     [10] @ text_of ''}''"

definition compose_message :: "mqtt_config \<Rightarrow> 64 word \<Rightarrow> byte list \<Rightarrow> MQTTMessage \<Rightarrow> (byte list \<times> MQTTMessage) option" where
  "compose_message config v str message = do {
     name \<leftarrow> format_s (- 1) (device_name config);
     (_, str) \<leftarrow> snprintf (str, 0) 256 (message_text name v);
     n \<leftarrow> strlen (Ptr str);
     Some (str, message\<lparr>msg_payload := Ptr str, msg_payloadlen := word_of_int n\<rparr>)
   }"

text \<open>
  One round of the inner loop after the wake-up: the result is \<^verbatim>\<open>error\<close>, \<^verbatim>\<open>str\<close>, the message, the client and
  the world. The message is only partly initialized before the first round.
\<close>

definition pub_round ::
  "mqtt_config \<Rightarrow> 64 word \<Rightarrow> byte list \<Rightarrow> MQTTMessage \<Rightarrow> app_client \<Rightarrow> app_world \<Rightarrow>
     (int \<times> byte list \<times> MQTTMessage \<times> app_client \<times> app_world) option" where
  "pub_round config v str message c w = do {
     (str, message) \<leftarrow> compose_message config v str message;
     (rc, message, c, w) \<leftarrow> MQTTPublish c (topic config) message w;
     if rc \<noteq> MQTT_SUCCESS then do {
       let c = MQTTCloseSession c;
       w \<leftarrow> mqtt_network_disconnect w;
       Some (1, str, message, c, w)
     }
     else Some (0, str, message, c, task_sleep 1000 w)
   }"

definition message_junk :: "app_world \<Rightarrow> MQTTMessage" where
  "message_junk w = \<lparr>msg_qos = junk_int w, msg_retained = junk_byte w, msg_dup = junk_byte w, msg_id = junk_u16 w,
     msg_payload = junk_payload w, msg_payloadlen = word_of_int (junk_int w)\<rparr>"

text \<open>
  A wake-up is a result of \<^verbatim>\<open>pthread_cond_wait\<close> with the value of \<^verbatim>\<open>shared_value\<close> at that time. When none is
  left, the thread waits: \<open>pub_loop\<close> returns \<open>None\<close> in its first component.
\<close>

fun pub_loop ::
  "(int \<times> 64 word) list \<Rightarrow> mqtt_config \<Rightarrow> byte list \<Rightarrow> MQTTMessage \<Rightarrow> app_client \<Rightarrow> app_world \<Rightarrow>
     ((int \<times> 64 word) list option \<times> app_client \<times> app_world) option" where
  "pub_loop [] config str message c w = Some (None, c, w)"
| "pub_loop ((rc, v) # wakes) config str message c w =
     (if rc \<noteq> 0 then pub_loop wakes config str message c w
      else do {
        (err, str, message, c, w) \<leftarrow> pub_round config v str message c w;
        if isconnected c \<noteq> 0 \<and> err = 0 then pub_loop wakes config str message c w
        else Some (Some wakes, c, w)
      })"

text \<open>At most \<open>n\<close> attempts to connect to the broker.\<close>

fun broker_attempts :: "nat \<Rightarrow> mqtt_config \<Rightarrow> app_client \<Rightarrow> app_world \<Rightarrow> (int \<times> app_client \<times> app_world) option" where
  "broker_attempts 0 config c w = Some (FAILURE, c, w)"
| "broker_attempts (Suc n) config c w = do {
     (ret, c, w) \<leftarrow> MqttConnectBroker config c w;
     if ret \<noteq> MQTT_SUCCESS \<and> n > 0 then broker_attempts n config c w
     else Some (ret, c, w)
   }"

lemma pub_loop_shorter: "pub_loop wakes config str message c w = Some (Some wakes', r) \<Longrightarrow> length wakes' < length wakes"
proof (induction wakes arbitrary: str message c w)
  case (Cons e wakes)
  then show ?case
    by (cases e) (force simp: bind_eq_Some_conv split: if_splits)
qed simp

text \<open>The endless loop of the publishing thread; the result tells whether the thread has ended.\<close>

function pub_task_loop ::
  "(int \<times> 64 word) list \<Rightarrow> mqtt_config \<Rightarrow> app_client \<Rightarrow> app_world \<Rightarrow> (bool \<times> app_client \<times> app_world) option" where
  "pub_task_loop wakes config c w =
     (case broker_attempts 10 config c w of
        None \<Rightarrow> None
      | Some (ret, c, w) \<Rightarrow>
          if ret \<noteq> MQTT_SUCCESS then Some (True, c, w)
          else case pub_loop wakes config (replicate 256 0) (message_junk w) c w of
              None \<Rightarrow> None
            | Some (None, c, w) \<Rightarrow> Some (False, c, w)
            | Some (Some wakes, c, w) \<Rightarrow> pub_task_loop wakes config c w)"
  by pat_completeness auto

termination
  by (relation "measure (\<lambda>(wakes, _). length wakes)") (auto dest: pub_loop_shorter)

declare pub_task_loop.simps [simp del]

definition mqtt_pub_task ::
  "(int \<times> 64 word) list \<Rightarrow> mqtt_config option \<Rightarrow> app_client \<Rightarrow> app_world \<Rightarrow> (bool \<times> app_client \<times> app_world) option" where
  "mqtt_pub_task wakes arg c w = (case arg of None \<Rightarrow> Some (True, c, w) | Some config \<Rightarrow> pub_task_loop wakes config c w)"

end
