(* ===== verification/Main_Config.thy ===== *)
theory Main_Config
  imports Mqtt_Task
begin

text \<open>
  \<^verbatim>\<open>main.c\<close> and \<^verbatim>\<open>config.h\<close>: the command line, the start of the three threads and the signal handler. An
  argument string is the list of its bytes without the final zero. \<^verbatim>\<open>getopt_long\<close> is the one of the GNU C
  library with \<^verbatim>\<open>POSIXLY_CORRECT\<close> unset: operands are skipped, \<open>--\<close> ends the options, an
  unambiguous prefix of an option's name stands for it.
\<close>

record config_t =
  cfg_ca_cert_file :: cptr
  cfg_client_cert_file :: cptr
  cfg_client_key_file :: cptr
  cfg_modbus_plc_ip :: cptr
  cfg_modbus_plc_port :: cptr
  cfg_modbus_plc_register :: int
  cfg_mqtt_broker_ip :: cptr
  cfg_mqtt_broker_port :: cptr
  cfg_mqtt_device_name :: cptr
  cfg_mqtt_topic :: cptr

subsection \<open>The command line\<close>

text \<open>The table \<^verbatim>\<open>long_opts\<close>; every option requires an argument.\<close>

definition long_opts :: "(byte list \<times> char) list" where
  "long_opts = map (map_prod text_of id)
     [(''ca-cert'', CHR ''1''), (''client-cert'', CHR ''2''), (''client-key'', CHR ''3''),
      (''modbus-ip'', CHR ''4''), (''modbus-port'', CHR ''5''), (''modbus-register'', CHR ''6''),
      (''mqtt-broker'', CHR ''7''), (''mqtt-port'', CHR ''8''), (''mqtt-device-name'', CHR ''9''),
      (''mqtt-topic'', CHR ''a'')]"

text \<open>The option that a name stands for: an exact match, or the only option with that prefix.\<close>

definition find_option :: "byte list \<Rightarrow> char option" where
  "find_option name = (case map_of long_opts name of
     Some v \<Rightarrow> Some v
   | None \<Rightarrow> (case filter (\<lambda>(n, _). take (length name) n = name) long_opts of
       [(_, v)] \<Rightarrow> Some v
     | _ \<Rightarrow> None))"

text \<open>
  A call of \<^verbatim>\<open>getopt_long\<close>: the end of the options, an error (\<^verbatim>\<open>'?'\<close>), or an option with its argument and the
  arguments left.
\<close>

datatype getopt = Opt_end | Opt_error | Opt char "byte list" "byte list list"

fun getopt_long :: "byte list list \<Rightarrow> getopt" where
  "getopt_long [] = Opt_end"
| "getopt_long (a # args) =
     (if a = text_of ''--'' then Opt_end
      else if take 2 a = text_of ''--'' then
        (let name = takeWhile (\<lambda>b. b \<noteq> 61) (drop 2 a); rest = dropWhile (\<lambda>b. b \<noteq> 61) (drop 2 a) in
         case find_option name of
           None \<Rightarrow> Opt_error
         | Some v \<Rightarrow>
             if rest \<noteq> [] then Opt v (tl rest) args
             else (case args of [] \<Rightarrow> Opt_error | arg # args \<Rightarrow> Opt v arg args))
      else if take 1 a = text_of ''-'' \<and> length a > 1 then Opt_error
      else getopt_long args)"

lemma getopt_long_shorter: "getopt_long args = Opt v arg args' \<Longrightarrow> length args' < length args"
  by (induction args) (auto simp: Let_def split: if_splits option.splits list.splits)

text \<open>The switch on an option; the argument is a C string.\<close>

definition set_option :: "char \<Rightarrow> byte list \<Rightarrow> config_t \<Rightarrow> config_t option" where
  "set_option opt arg config = (let optarg = Ptr (arg @ [0]) in
     if opt = CHR ''1'' then Some (config\<lparr>cfg_ca_cert_file := optarg\<rparr>)
     else if opt = CHR ''2'' then Some (config\<lparr>cfg_client_cert_file := optarg\<rparr>)
     else if opt = CHR ''3'' then Some (config\<lparr>cfg_client_key_file := optarg\<rparr>)
     else if opt = CHR ''4'' then Some (config\<lparr>cfg_modbus_plc_ip := optarg\<rparr>)
     else if opt = CHR ''5'' then Some (config\<lparr>cfg_modbus_plc_port := optarg\<rparr>)
     else if opt = CHR ''6'' then do { n \<leftarrow> atoi optarg; Some (config\<lparr>cfg_modbus_plc_register := n\<rparr>) }
     else if opt = CHR ''7'' then Some (config\<lparr>cfg_mqtt_broker_ip := optarg\<rparr>)
     else if opt = CHR ''8'' then Some (config\<lparr>cfg_mqtt_broker_port := optarg\<rparr>)
     else if opt = CHR ''9'' then Some (config\<lparr>cfg_mqtt_device_name := optarg\<rparr>)
     else Some (config\<lparr>cfg_mqtt_topic := optarg\<rparr>))"

text \<open>The loop over the options; \<open>Inl\<close> is the exit after the usage message.\<close>

definition EXIT_FAILURE :: int where
  "EXIT_FAILURE = 1"

function options_loop :: "byte list list \<Rightarrow> config_t \<Rightarrow> (int + config_t) option" where
  "options_loop args config =
     (case getopt_long args of
        Opt_end \<Rightarrow> Some (Inr config)
      | Opt_error \<Rightarrow> Some (Inl EXIT_FAILURE)
      | Opt v arg args' \<Rightarrow> (case set_option v arg config of
          None \<Rightarrow> None
        | Some config \<Rightarrow> options_loop args' config))"
  by pat_completeness auto

termination
  by (relation "measure (\<lambda>(args, _). length args)") (auto dest: getopt_long_shorter)

declare options_loop.simps [simp del]

definition config_complete :: "config_t \<Rightarrow> bool" where
  "config_complete config \<longleftrightarrow>
     cfg_ca_cert_file config \<noteq> Null \<and> cfg_client_cert_file config \<noteq> Null \<and> cfg_client_key_file config \<noteq> Null \<and>
     cfg_modbus_plc_ip config \<noteq> Null \<and> cfg_modbus_plc_port config \<noteq> Null \<and> cfg_modbus_plc_register config \<noteq> 0 \<and>
     cfg_mqtt_broker_ip config \<noteq> Null \<and> cfg_mqtt_broker_port config \<noteq> Null \<and>
     cfg_mqtt_device_name config \<noteq> Null \<and> cfg_mqtt_topic config \<noteq> Null"

text \<open>The argument \<open>config\<close> is the structure before the call, which \<^verbatim>\<open>main\<close> does not initialize.\<close>

definition load_config_from_command_line_args :: "byte list list \<Rightarrow> config_t \<Rightarrow> (int + config_t) option" where
  "load_config_from_command_line_args argv config = do {
     r \<leftarrow> options_loop (tl argv) config;
     case r of
       Inl e \<Rightarrow> Some (Inl e)
     | Inr config \<Rightarrow> if config_complete config then Some (Inr config) else Some (Inl EXIT_FAILURE)
   }"

subsection \<open>Signals\<close>

text \<open>
  The process: the structure \<^verbatim>\<open>sigact\<close>, the handler installed for \<^verbatim>\<open>SIGINT\<close>, the handler of
  \<^verbatim>\<open>atexit\<close>, the output to \<^verbatim>\<open>stderr\<close> and the exit code.
\<close>

datatype sig_handler = Sig_default | Sig_handler

definition SIGINT :: int where
  "SIGINT = 2"

record process =
  sa_handler :: sig_handler
  sa_mask :: "int list"
  sa_flags :: int
  installed :: "(int \<times> sig_handler) list"
  at_exit :: bool
  stderr :: "byte list"
  exit_code :: "int option"

definition init_signals :: "process \<Rightarrow> process" where
  "init_signals s = s\<lparr>sa_handler := Sig_handler, sa_mask := [], sa_flags := 0, installed := (SIGINT, Sig_handler) # installed s\<rparr>"

definition cleanup :: "process \<Rightarrow> process" where
  "cleanup s = s\<lparr>sa_mask := []\<rparr>"

definition exit :: "int \<Rightarrow> process \<Rightarrow> process" where
  "exit code s = (if at_exit s then cleanup s else s)\<lparr>exit_code := Some code\<rparr>"

text \<open>\<open>panic\<close> is given the formatted text, which goes through a buffer of 150 bytes.\<close>

definition panic :: "byte list \<Rightarrow> process \<Rightarrow> process option" where
  "panic s p = do {
     (buf, _) \<leftarrow> emit (s @ [0]) (replicate 150 0, 0);
     out \<leftarrow> format_s (- 1) (Ptr buf);
     Some (exit (- 1) (p\<lparr>stderr := stderr p @ out\<rparr>))
   }"

definition signal_handler :: "int \<Rightarrow> process \<Rightarrow> process option" where
  "signal_handler sig p =
     (if sig = SIGINT then panic ([10] @ text_of ''Caught signal for Ctrl+C'' @ [10]) p else Some p)"

subsection \<open>The program\<close>

text \<open>
  \<open>main\<close> gets the results of the three calls of \<^verbatim>\<open>pthread_create\<close> and returns the exit code with the threads
  it has started, in order, and their arguments.
\<close>

datatype thread = Modbus_thread modbus_task_config | Sub_thread mqtt_config | Pub_thread mqtt_config

definition modbus_config_of :: "config_t \<Rightarrow> modbus_task_config" where
  "modbus_config_of config = \<lparr>plc_ip = cfg_modbus_plc_ip config, plc_port = cfg_modbus_plc_port config,
     plc_register = word_of_int (cfg_modbus_plc_register config)\<rparr>"

definition mqtt_config_of :: "config_t \<Rightarrow> mqtt_config" where
  "mqtt_config_of config = \<lparr>broker_ip = cfg_mqtt_broker_ip config, broker_port = cfg_mqtt_broker_port config,
     device_name = cfg_mqtt_device_name config, topic = cfg_mqtt_topic config,
     ca_cert_file = cfg_ca_cert_file config, client_cert_file = cfg_client_cert_file config,
     client_key_file = cfg_client_key_file config\<rparr>"

definition main :: "byte list list \<Rightarrow> config_t \<Rightarrow> int \<Rightarrow> int \<Rightarrow> int \<Rightarrow> process \<Rightarrow> (int \<times> thread list \<times> process) option" where
  "main argv config ret1 ret2 ret3 p = do {
     let p = init_signals (p\<lparr>at_exit := True\<rparr>);
     r \<leftarrow> load_config_from_command_line_args argv config;
     case r of
       Inl code \<Rightarrow> Some (code, [], exit code p)
     | Inr config \<Rightarrow>
         let t1 = Modbus_thread (modbus_config_of config);
             t2 = Sub_thread (mqtt_config_of config);
             t3 = Pub_thread (mqtt_config_of config) in
         if ret1 \<noteq> 0 then Some (- 1, [], exit (- 1) p)
         else if ret2 \<noteq> 0 then Some (- 1, [t1], exit (- 1) p)
         else if ret3 \<noteq> 0 then Some (- 1, [t1, t2], exit (- 1) p)
         else Some (0, [t1, t2, t3], exit 0 p)
   }"

subsection \<open>Reading back a command line\<close>

text \<open>
  A command line is written as a list of options with their arguments: texts, and for the register
  a number in decimal. Options can come in any order, be repeated or left out.
\<close>

datatype argument = Text "byte list" | Number int

fun argument_text :: "argument \<Rightarrow> byte list" where
  "argument_text (Text a) = a"
| "argument_text (Number n) = format_d n"

fun command_args :: "(string \<times> argument) list \<Rightarrow> byte list list" where
  "command_args [] = []"
| "command_args ((name, a) # opts) = text_of (CHR ''-'' # CHR ''-'' # name) # argument_text a # command_args opts"

text \<open>The string fields of the configuration with the options that set them.\<close>

definition string_fields :: "(string \<times> (config_t \<Rightarrow> cptr)) list" where
  "string_fields =
     [(''ca-cert'', cfg_ca_cert_file), (''client-cert'', cfg_client_cert_file), (''client-key'', cfg_client_key_file),
      (''modbus-ip'', cfg_modbus_plc_ip), (''modbus-port'', cfg_modbus_plc_port),
      (''mqtt-broker'', cfg_mqtt_broker_ip), (''mqtt-port'', cfg_mqtt_broker_port),
      (''mqtt-device-name'', cfg_mqtt_device_name), (''mqtt-topic'', cfg_mqtt_topic)]"

fun option_ok :: "string \<times> argument \<Rightarrow> bool" where
  "option_ok (name, Text a) = (name \<in> fst ` set string_fields)"
| "option_ok (name, Number n) = (name = ''modbus-register'' \<and> - 2147483648 \<le> n \<and> n < 2147483648)"

text \<open>The last argument given for an option counts; without one the field keeps its value.\<close>

definition given :: "(string \<times> argument) list \<Rightarrow> string \<Rightarrow> argument option" where
  "given opts name = map_of (rev opts) name"

fun text_field :: "cptr \<Rightarrow> argument option \<Rightarrow> cptr" where
  "text_field old None = old"
| "text_field old (Some a) = Ptr (argument_text a @ [0])"

fun number_field :: "int \<Rightarrow> argument option \<Rightarrow> int" where
  "number_field old (Some (Number n)) = n"
| "number_field old (Some (Text a)) = 0"
| "number_field old None = old"

definition configured :: "(string \<times> argument) list \<Rightarrow> config_t \<Rightarrow> config_t" where
  "configured opts c = \<lparr>
     cfg_ca_cert_file = text_field (cfg_ca_cert_file c) (given opts ''ca-cert''),
     cfg_client_cert_file = text_field (cfg_client_cert_file c) (given opts ''client-cert''),
     cfg_client_key_file = text_field (cfg_client_key_file c) (given opts ''client-key''),
     cfg_modbus_plc_ip = text_field (cfg_modbus_plc_ip c) (given opts ''modbus-ip''),
     cfg_modbus_plc_port = text_field (cfg_modbus_plc_port c) (given opts ''modbus-port''),
     cfg_modbus_plc_register = number_field (cfg_modbus_plc_register c) (given opts ''modbus-register''),
     cfg_mqtt_broker_ip = text_field (cfg_mqtt_broker_ip c) (given opts ''mqtt-broker''),
     cfg_mqtt_broker_port = text_field (cfg_mqtt_broker_port c) (given opts ''mqtt-port''),
     cfg_mqtt_device_name = text_field (cfg_mqtt_device_name c) (given opts ''mqtt-device-name''),
     cfg_mqtt_topic = text_field (cfg_mqtt_topic c) (given opts ''mqtt-topic'')\<rparr>"

definition unset :: "config_t \<Rightarrow> bool" where
  "unset c \<longleftrightarrow> (\<exists>(name, sel) \<in> set string_fields. sel c = Null) \<or> cfg_modbus_plc_register c = 0"

lemma options_step:
  assumes "find_option (text_of name) = Some v" "61 \<notin> set (text_of name)" "name \<noteq> []" "set_option v arg config = Some config'"
  shows "options_loop (text_of (CHR ''-'' # CHR ''-'' # name) # arg # args) config = options_loop args config'"
proof -
  have t: "takeWhile (\<lambda>b. b \<noteq> 61) (text_of name) = text_of name" "dropWhile (\<lambda>b. b \<noteq> 61) (text_of name) = []"
    using assms(2) by (auto simp: takeWhile_eq_all_conv dropWhile_eq_Nil_conv)
  have "text_of (CHR ''-'' # CHR ''-'' # name) = 45 # 45 # text_of name" "text_of ''--'' = [45, 45]"
    "text_of name \<noteq> []"
    using assms(3) by (simp_all add: text_of_def)
  then have "getopt_long (text_of (CHR ''-'' # CHR ''-'' # name) # arg # args) = Opt v arg args"
    using assms(1) by (simp add: Let_def t del: takeWhile_eq_all_conv dropWhile_eq_Nil_conv)
  then show ?thesis
    using assms(4) by (simp add: options_loop.simps [of "_ # _"])
qed

lemma find_options:
  "find_option (text_of ''ca-cert'') = Some (CHR ''1'')"
  "find_option (text_of ''client-cert'') = Some (CHR ''2'')"
  "find_option (text_of ''client-key'') = Some (CHR ''3'')"
  "find_option (text_of ''modbus-ip'') = Some (CHR ''4'')"
  "find_option (text_of ''modbus-port'') = Some (CHR ''5'')"
  "find_option (text_of ''modbus-register'') = Some (CHR ''6'')"
  "find_option (text_of ''mqtt-broker'') = Some (CHR ''7'')"
  "find_option (text_of ''mqtt-port'') = Some (CHR ''8'')"
  "find_option (text_of ''mqtt-device-name'') = Some (CHR ''9'')"
  "find_option (text_of ''mqtt-topic'') = Some (CHR ''a'')"
  by (simp_all add: find_option_def long_opts_def text_of_def)

lemma given_Nil [simp]: "given [] name = None"
  by (simp add: given_def)

lemma given_Cons:
  "given ((name, a) # opts) m = (case given opts m of None \<Rightarrow> if m = name then Some a else None | Some b \<Rightarrow> Some b)"
  by (auto simp: given_def map_add_def split: option.split)

lemma field_Cons:
  "text_field old (given ((name, a) # opts) m) = text_field (if m = name then text_field old (Some a) else old) (given opts m)"
  "number_field k (given ((name, a) # opts) m) = number_field (if m = name then number_field k (Some a) else k) (given opts m)"
  by (auto simp: given_Cons split: option.split argument.split)
    (metis number_field.simps argument.exhaust)+

lemma text_option:
  assumes "name \<in> fst ` set string_fields"
  shows "\<exists>v. find_option (text_of name) = Some v \<and> set_option v t c = Some (configured [(name, Text t)] c)"
proof -
  have "name = ''ca-cert'' \<or> name = ''client-cert'' \<or> name = ''client-key'' \<or> name = ''modbus-ip'' \<or> name = ''modbus-port'' \<or>
      name = ''mqtt-broker'' \<or> name = ''mqtt-port'' \<or> name = ''mqtt-device-name'' \<or> name = ''mqtt-topic''"
    using assms by (simp add: string_fields_def)
  then show ?thesis
    by (elim disjE) (simp_all add: find_options set_option_def configured_def given_Cons Let_def)
qed

lemma option_name: "option_ok (name, a) \<Longrightarrow> 61 \<notin> set (text_of name) \<and> name \<noteq> []"
  by (cases a) (auto simp: string_fields_def text_of_def)

lemma option_step:
  assumes "option_ok (name, a)"
  shows "options_loop (command_args ((name, a) # opts)) c = options_loop (command_args opts) (configured [(name, a)] c)"
proof (cases a)
  case (Text t)
  then obtain v where "find_option (text_of name) = Some v" "set_option v t c = Some (configured [(name, a)] c)"
    using assms text_option [of name t c] by auto
  then show ?thesis
    using Text option_name [OF assms] by (simp add: options_step)
next
  case (Number n)
  have "atoi (Ptr (format_d n @ [0])) = Some n"
    using assms Number by (intro atoi_format_d) simp_all
  then have "set_option (CHR ''6'') (format_d n) c = Some (configured [(name, a)] c)"
    using assms Number by (simp add: set_option_def configured_def given_Cons Let_def del: atoi.simps)
  then show ?thesis
    using assms Number options_step [OF find_options(6)] option_name [OF assms] by simp
qed

lemma configured_Cons: "configured ((name, a) # opts) c = configured opts (configured [(name, a)] c)"
  by (simp add: configured_def field_Cons)

lemma options_loop_configured:
  "list_all option_ok opts \<Longrightarrow> options_loop (command_args opts) c = Some (Inr (configured opts c))"
proof (induction opts arbitrary: c)
  case Nil
  then show ?case
    by (simp add: options_loop.simps [of "[]"] configured_def)
next
  case (Cons x opts)
  obtain name a where x: "x = (name, a)"
    by fastforce
  from Cons show ?case
    using option_step [of name a opts c] unfolding x configured_Cons [of name a opts c] by (simp del: command_args.simps)
qed

lemma string_field_configured:
  "(name, sel) \<in> set string_fields \<Longrightarrow> sel (configured opts c) = text_field (sel c) (given opts name)"
  by (simp add: string_fields_def, elim disjE conjE) (simp_all add: configured_def)

lemma string_field_unique: "(name, sel) \<in> set string_fields \<Longrightarrow> (name, sel') \<in> set string_fields \<Longrightarrow> sel' = sel"
  by (rule eq_key_imp_eq_value [of string_fields]) (simp_all add: string_fields_def)

lemma config_complete_unset: "config_complete c \<longleftrightarrow> \<not> unset c"
  by (auto simp: config_complete_def unset_def string_fields_def)

text \<open>
  C38. A command line that gives options with arguments in any order is read back, whatever the structure
  contained before: a field has the last argument given for it, the register number by its value. A
  field whose option is left out keeps what it contained. The program is refused exactly if then a
  string field is null or the register is 0, so a complete command line is refused if and only if it asks for
  register 0.
\<close>

theorem command_line_roundtrip:
  assumes "list_all option_ok opts"
  shows "load_config_from_command_line_args (prog # command_args opts) config =
    Some (if unset (configured opts config) then Inl EXIT_FAILURE else Inr (configured opts config))"
  using options_loop_configured [OF assms]
  by (simp add: load_config_from_command_line_args_def config_complete_unset)

definition example_junk :: config_t where
  "example_junk = \<lparr>cfg_ca_cert_file = Wild, cfg_client_cert_file = Wild, cfg_client_key_file = Wild, cfg_modbus_plc_ip = Wild,
     cfg_modbus_plc_port = Wild, cfg_modbus_plc_register = 1, cfg_mqtt_broker_ip = Wild, cfg_mqtt_broker_port = Wild,
     cfg_mqtt_device_name = Wild, cfg_mqtt_topic = Wild\<rparr>"

definition example_process :: process where
  "example_process = \<lparr>sa_handler = Sig_default, sa_mask = [], sa_flags = 0, installed = [], at_exit = False, stderr = [],
     exit_code = None\<rparr>"

definition example_options :: "int \<Rightarrow> (string \<times> argument) list" where
  "example_options reg = [(''mqtt-topic'', Text [1]), (''ca-cert'', Text [1]), (''client-cert'', Text [2]), (''client-key'', Text [3]),
     (''modbus-ip'', Text [4]), (''modbus-port'', Text [5]), (''modbus-register'', Number reg), (''mqtt-broker'', Text [6]),
     (''mqtt-port'', Text [7]), (''mqtt-device-name'', Text [8]), (''mqtt-topic'', Text [9])]"

text \<open>All options are given, the topic twice. The register 40001 is accepted, the register 0 is not.\<close>

theorem command_line_roundtrip_witness:
  "\<exists>c. load_config_from_command_line_args ([112] # command_args (example_options 40001)) example_junk = Some (Inr c) \<and>
     cfg_modbus_plc_register c = 40001 \<and> cfg_ca_cert_file c = Ptr [1, 0] \<and> cfg_mqtt_topic c = Ptr [9, 0] \<and>
     load_config_from_command_line_args ([112] # command_args (example_options 0)) example_junk = Some (Inl 1)"
  using command_line_roundtrip [of "example_options 40001" "[112]" example_junk]
    command_line_roundtrip [of "example_options 0" "[112]" example_junk]
  by (simp add: example_options_def string_fields_def unset_def configured_def given_def EXIT_FAILURE_def)



definition thread_configured :: "thread \<Rightarrow> bool" where
  "thread_configured t = (case t of
     Modbus_thread m \<Rightarrow> plc_ip m \<noteq> Null \<and> plc_port m \<noteq> Null
   | Sub_thread m \<Rightarrow> broker_ip m \<noteq> Null \<and> broker_port m \<noteq> Null \<and> device_name m \<noteq> Null \<and> topic m \<noteq> Null \<and>
       ca_cert_file m \<noteq> Null \<and> client_cert_file m \<noteq> Null \<and> client_key_file m \<noteq> Null
   | Pub_thread m \<Rightarrow> broker_ip m \<noteq> Null \<and> broker_port m \<noteq> Null \<and> device_name m \<noteq> Null \<and> topic m \<noteq> Null \<and>
       ca_cert_file m \<noteq> Null \<and> client_cert_file m \<noteq> Null \<and> client_key_file m \<noteq> Null)"

lemma options_loop_error: "options_loop args config = Some (Inl e) \<Longrightarrow> e = EXIT_FAILURE"
proof (induction args config rule: options_loop.induct)
  case (1 args config)
  from 1(2) show ?case
    by (subst (asm) options_loop.simps) (auto split: getopt.splits option.splits intro: "1.IH")
qed

lemma load_config_cases:
  assumes "load_config_from_command_line_args argv config = Some r"
  obtains "r = Inl EXIT_FAILURE" | config' where "r = Inr config'" "config_complete config'"
proof -
  obtain q where "options_loop (tl argv) config = Some q"
    using assms by (auto simp: load_config_from_command_line_args_def bind_eq_Some_conv)
  with assms that options_loop_error show thesis
    by (cases q) (auto simp: load_config_from_command_line_args_def split: if_splits)
qed

text \<open>
  C39. Whatever the command line is, a thread is only started with a configuration in which no pointer
  is null, and the program exits with code 0 only after all three threads have been started.
\<close>

theorem main_starts_configured:
  assumes "main argv junk ret1 ret2 ret3 p = Some (code, ts, p')"
  shows "(\<forall>t \<in> set ts. thread_configured t) \<and> exit_code p' = Some code \<and> (code = 0 \<longleftrightarrow> length ts = 3)"
proof -
  obtain r where r: "load_config_from_command_line_args argv junk = Some r"
    using assms by (auto simp: main_def Let_def bind_eq_Some_conv)
  from r show ?thesis
  proof (cases rule: load_config_cases)
    case 1
    then show ?thesis
      using assms r by (auto simp: main_def Let_def exit_def EXIT_FAILURE_def)
  next
    case (2 c)
    then have "thread_configured (Modbus_thread (modbus_config_of c))" "thread_configured (Sub_thread (mqtt_config_of c))"
      "thread_configured (Pub_thread (mqtt_config_of c))"
      by (simp_all add: thread_configured_def config_complete_def modbus_config_of_def mqtt_config_of_def)
    then show ?thesis
      using 2 assms r by (auto simp: main_def Let_def exit_def split: if_splits)
  qed
qed

theorem main_starts_configured_witness:
  "\<exists>ts p'. main [[112]] example_junk 0 0 0 example_process = Some (0, ts, p') \<and>
     thread_configured (ts ! 2) \<and> exit_code p' = Some 0 \<and> length ts = 3"
proof -
  obtain ts p' where m: "main [[112]] example_junk 0 0 0 example_process = Some (0, ts, p')"
    by (simp add: main_def load_config_from_command_line_args_def options_loop.simps config_complete_def example_junk_def)
  from main_starts_configured [OF this] show ?thesis
    using m by (auto intro: nth_mem)
qed

end
