(* ===== verification/Handler_Table.thy ===== *)
theory Handler_Table
  imports Client
begin

text \<open>
  The message handlers of the client as a table with room for five entries: \<^verbatim>\<open>MQTTSetMessageHandler\<close>
  implements the update and the deletion of a finite map from topic filters to handlers.
\<close>

subsection \<open>Tables with a capacity\<close>

text \<open>
  What a table promises: \<open>lookup\<close> is its content, \<open>put\<close> enters or removes (\<open>None\<close>) a key. A new key is refused if
  the table is full, the removal of a missing key is refused too; a refused operation changes
  nothing. \<open>good\<close> are the keys the operation is made for.
\<close>

definition accepts :: "nat \<Rightarrow> ('k \<rightharpoonup> 'v) \<Rightarrow> 'k \<Rightarrow> 'v option \<Rightarrow> bool" where
  "accepts cap m k v \<longleftrightarrow> k \<in> dom m \<or> v \<noteq> None \<and> card (dom m) < cap"

definition table_step :: "nat \<Rightarrow> ('k \<times> 'v option) \<Rightarrow> ('k \<rightharpoonup> 'v) \<Rightarrow> ('k \<rightharpoonup> 'v)" where
  "table_step cap = (\<lambda>(k, v) m. if accepts cap m k v then m(k := v) else m)"

locale bounded_table =
  fixes inv :: "'s \<Rightarrow> bool"
    and lookup :: "'s \<Rightarrow> ('k \<rightharpoonup> 'v)"
    and key :: "'p \<Rightarrow> 'k \<Rightarrow> bool"
    and put :: "'s \<Rightarrow> 'p \<Rightarrow> 'v option \<Rightarrow> (bool \<times> 's) option"
    and cap :: nat
  assumes put_ok: "inv s \<Longrightarrow> key p k \<Longrightarrow> accepts cap (lookup s) k v \<Longrightarrow>
      \<exists>s'. put s p v = Some (True, s') \<and> inv s' \<and> lookup s' = (lookup s)(k := v)"
    and put_full: "inv s \<Longrightarrow> key p k \<Longrightarrow> \<not> accepts cap (lookup s) k v \<Longrightarrow> put s p v = Some (False, s)"
    and bounded: "inv s \<Longrightarrow> finite (dom (lookup s)) \<and> card (dom (lookup s)) \<le> cap"
begin

text \<open>Any sequence of operations; the results are not needed by the caller.\<close>

fun puts :: "'s \<Rightarrow> ('p \<times> 'v option) list \<Rightarrow> 's option" where
  "puts s [] = Some s"
| "puts s ((p, v) # ops) = (case put s p v of None \<Rightarrow> None | Some (_, s) \<Rightarrow> puts s ops)"

lemma puts_refine:
  "inv s \<Longrightarrow> list_all2 (\<lambda>(p, v) (k, v'). key p k \<and> v' = v) ops kops \<Longrightarrow>
   \<exists>s'. puts s ops = Some s' \<and> inv s' \<and> lookup s' = fold (table_step cap) kops (lookup s)"
proof (induction ops arbitrary: s kops)
  case (Cons op ops)
  obtain p v where op: "op = (p, v)" by (cases op)
  with Cons.prems(2) obtain k kops' where k: "kops = (k, v) # kops'" "key p k"
    "list_all2 (\<lambda>(p, v) (k, v'). key p k \<and> v' = v) ops kops'"
    by (auto simp: list_all2_Cons1)
  obtain r s1 where s1: "put s p v = Some (r, s1)" "inv s1" "lookup s1 = table_step cap (k, v) (lookup s)"
    using put_ok [OF Cons.prems(1) k(2), of v] put_full [OF Cons.prems(1) k(2), of v] Cons.prems(1)
    by (cases "accepts cap (lookup s) k v") (auto simp: table_step_def)
  from Cons.IH [OF s1(2) k(3)] show ?case
    by (auto simp: op k(1) s1)
qed simp

end

subsection \<open>The handler slots\<close>

definition text_at :: "cptr \<Rightarrow> byte list option" where
  "text_at p = (case p of Ptr bs \<Rightarrow> if 0 \<in> set bs then Some (takeWhile (\<lambda>b. b \<noteq> 0) bs) else None | _ \<Rightarrow> None)"

lemma text_at_iff: "text_at p = Some s \<longleftrightarrow> cstring_of p s"
proof
  assume "text_at p = Some s"
  then have "strlen p = Some (int (length s))"
    by (cases p) (auto simp: text_at_def split: if_splits)
  then obtain s' where "cstring_of p s'"
    by (rule strlen_SomeD)
  moreover from this have "text_at p = Some s'"
    by (auto simp: text_at_def cstring_of_def)
  ultimately show "cstring_of p s"
    using \<open>text_at p = Some s\<close> by simp
qed (auto simp: text_at_def cstring_of_def)

definition slot_key :: "'app MessageHandlers \<Rightarrow> byte list option" where
  "slot_key h = text_at (topicFilter h)"

definition handlers_inv :: "'app MessageHandlers list \<Rightarrow> bool" where
  "handlers_inv hs \<longleftrightarrow> length hs = MAX_MESSAGE_HANDLERS \<and>
     (\<forall>i < length hs. topicFilter (hs ! i) \<noteq> Null \<longrightarrow> slot_key (hs ! i) \<noteq> None \<and> fp (hs ! i) \<noteq> None) \<and>
     (\<forall>i < length hs. \<forall>j < length hs. \<forall>s. slot_key (hs ! i) = Some s \<longrightarrow> slot_key (hs ! j) = Some s \<longrightarrow> i = j)"

lemma handlers_invD:
  assumes "handlers_inv hs"
  shows "length hs = MAX_MESSAGE_HANDLERS"
    "i < length hs \<Longrightarrow> topicFilter (hs ! i) \<noteq> Null \<Longrightarrow> slot_key (hs ! i) \<noteq> None \<and> fp (hs ! i) \<noteq> None"
    "i < length hs \<Longrightarrow> j < length hs \<Longrightarrow> slot_key (hs ! i) = Some s \<Longrightarrow> slot_key (hs ! j) = Some s \<Longrightarrow> i = j"
  using assms unfolding handlers_inv_def by blast+

lemma slot_key_empty: "topicFilter h = Null \<Longrightarrow> slot_key h = None"
  by (simp add: slot_key_def text_at_def)

lemma slot_key_Null: "slot_key h \<noteq> None \<Longrightarrow> topicFilter h \<noteq> Null"
  by (auto simp: slot_key_def text_at_def)

definition handler_of :: "'app MessageHandlers list \<Rightarrow> byte list \<rightharpoonup> 'app messageHandler" where
  "handler_of hs s = Option.bind (find (\<lambda>h. slot_key h = Some s) hs) fp"

fun first_index :: "('a \<Rightarrow> bool) \<Rightarrow> 'a list \<Rightarrow> nat option" where
  "first_index P [] = None"
| "first_index P (x # xs) = (if P x then Some 0 else map_option Suc (first_index P xs))"

lemma first_index_Some: "first_index P xs = Some i \<Longrightarrow> i < length xs \<and> P (xs ! i)"
  by (induction xs arbitrary: i) (auto split: if_splits)

lemma first_index_None: "first_index P xs = None \<longleftrightarrow> (\<forall>i < length xs. \<not> P (xs ! i))"
  by (induction xs) (auto simp: less_Suc_eq_0_disj)

lemma handler_of_iff:
  assumes "handlers_inv hs"
  shows "handler_of hs s = Some f \<longleftrightarrow> (\<exists>i < length hs. slot_key (hs ! i) = Some s \<and> fp (hs ! i) = Some f)"
proof
  assume "handler_of hs s = Some f"
  then show "\<exists>i < length hs. slot_key (hs ! i) = Some s \<and> fp (hs ! i) = Some f"
    by (auto simp: handler_of_def bind_eq_Some_conv find_Some_iff)
next
  assume "\<exists>i < length hs. slot_key (hs ! i) = Some s \<and> fp (hs ! i) = Some f"
  then obtain i where i: "i < length hs" "slot_key (hs ! i) = Some s" "fp (hs ! i) = Some f"
    by blast
  then obtain h where "find (\<lambda>h. slot_key h = Some s) hs = Some h"
    by (cases "find (\<lambda>h. slot_key h = Some s) hs") (auto simp: find_None_iff)
  moreover from this obtain j where "j < length hs" "slot_key (hs ! j) = Some s" "h = hs ! j"
    by (auto simp: find_Some_iff)
  ultimately show "handler_of hs s = Some f"
    using handlers_invD(3) [OF assms] i by (auto simp: handler_of_def)
qed

lemma map_option_shift: "map_option ((+) (Suc k)) x = map_option (\<lambda>i. Suc (k + i)) x"
  by (cases x) simp_all

lemma find_filter_index:
  assumes "cstring_of tf s" "\<forall>h \<in> set hs. topicFilter h \<noteq> Null \<longrightarrow> slot_key h \<noteq> None"
  shows "find_filter hs tf k = Some (map_option ((+) k) (first_index (\<lambda>h. slot_key h = Some s) hs))"
  using assms(2)
proof (induction hs arbitrary: k)
  case (Cons h hs)
  show ?case
  proof (cases "topicFilter h = Null")
    case True
    then have "slot_key h = None"
      by (simp add: slot_key_def text_at_def)
    with True Cons show ?thesis
      by (simp add: option.map_comp comp_def map_option_shift)
  next
    case False
    then obtain s' where "cstring_of (topicFilter h) s'" "slot_key h = Some s'"
      using Cons.prems by (auto simp: slot_key_def text_at_iff)
    with False assms(1) Cons show ?thesis
      by (auto simp: strcmp_eq_cstrings option.map_comp comp_def map_option_shift)
  qed
qed simp

lemma find_empty_index: "find_empty hs k = map_option ((+) k) (first_index (\<lambda>h. topicFilter h = Null) hs)"
  by (induction hs arbitrary: k) (auto simp: option.map_comp comp_def map_option_shift)

text \<open>A slot is occupied exactly if its filter is a key of the table.\<close>

lemma occupied_iff: "handlers_inv hs \<Longrightarrow> i < length hs \<Longrightarrow> slot_key (hs ! i) \<noteq> None \<longleftrightarrow> topicFilter (hs ! i) \<noteq> Null"
  using handlers_invD(2) slot_key_Null by blast

lemma dom_handler_of:
  assumes inv: "handlers_inv hs"
  shows "dom (handler_of hs) = {s. \<exists>i < length hs. slot_key (hs ! i) = Some s}"
proof -
  have "\<exists>f. fp (hs ! i) = Some f" if "i < length hs" "slot_key (hs ! i) = Some s" for i s
    using handlers_invD(2) [OF inv that(1)] slot_key_Null [of "hs ! i"] that(2) by auto
  then have "(\<exists>f. handler_of hs s = Some f) \<longleftrightarrow> (\<exists>i < length hs. slot_key (hs ! i) = Some s)" for s
    unfolding handler_of_iff [OF inv] by blast
  then show ?thesis
    unfolding dom_def not_None_eq by (rule Collect_cong)
qed

lemma card_dom_handler_of:
  assumes "handlers_inv hs"
  shows "finite (dom (handler_of hs))" "card (dom (handler_of hs)) = card {i. i < length hs \<and> topicFilter (hs ! i) \<noteq> Null}"
proof -
  let ?I = "{i. i < length hs \<and> topicFilter (hs ! i) \<noteq> Null}"
  define k where "k i = the (slot_key (hs ! i))" for i
  have k: "i < length hs" "slot_key (hs ! i) = Some (k i)" if "i \<in> ?I" for i
    using that occupied_iff [OF assms, of i] by (auto simp: k_def)
  have "inj_on k ?I"
    by (rule inj_onI) (metis k handlers_invD(3) [OF assms])
  moreover have "{s. \<exists>i < length hs. slot_key (hs ! i) = Some s} = k ` ?I"
  proof (intro equalityI subsetI)
    fix s assume "s \<in> {s. \<exists>i < length hs. slot_key (hs ! i) = Some s}"
    then obtain i where i: "i < length hs" "slot_key (hs ! i) = Some s"
      by blast
    then have "i \<in> ?I" "k i = s"
      using slot_key_Null [of "hs ! i"] by (simp_all add: k_def)
    then show "s \<in> k ` ?I"
      by blast
  qed (use k in blast)
  ultimately show "finite (dom (handler_of hs))" "card (dom (handler_of hs)) = card ?I"
    by (simp_all add: card_image dom_handler_of [OF assms])
qed

lemma free_slot_iff:
  assumes "handlers_inv hs"
  shows "(\<exists>i < length hs. topicFilter (hs ! i) = Null) \<longleftrightarrow> card (dom (handler_of hs)) < MAX_MESSAGE_HANDLERS"
proof -
  let ?I = "{i. i < length hs \<and> topicFilter (hs ! i) \<noteq> Null}"
  have c: "card (dom (handler_of hs)) = card ?I" "MAX_MESSAGE_HANDLERS = length hs"
    using assms by (simp_all only: card_dom_handler_of(2) handlers_invD(1))
  show ?thesis
  proof (cases "\<exists>i < length hs. topicFilter (hs ! i) = Null")
    case True
    then have "?I \<subset> {..<length hs}"
      by blast
    then have "card ?I < length hs"
      using psubset_card_mono [OF finite_lessThan] card_lessThan by metis
    with True c show ?thesis
      by simp
  next
    case False
    then have "?I = {..<length hs}"
      by blast
    then have "card ?I = length hs"
      by (simp only: card_lessThan)
    with False c show ?thesis
      by simp
  qed
qed

text \<open>
  Changing a slot that is free or holds the key: \<open>h\<close> is its new content, for the same key or empty.
\<close>

lemma handler_update:
  assumes inv: "handlers_inv hs" and i: "i < length hs"
    and slot: "slot_key (hs ! i) = Some s \<or> slot_key (hs ! i) = None \<and> s \<notin> dom (handler_of hs)"
    and h: "slot_key h = Some s \<and> fp h \<noteq> None \<or> topicFilter h = Null \<and> fp h = None"
  shows "handlers_inv (hs[i := h])" "handler_of (hs[i := h]) = (handler_of hs)(s := fp h)"
proof -
  have other: "slot_key (hs ! j) \<noteq> Some s" if "j < length hs" "j \<noteq> i" for j
    using slot that i handlers_invD(3) [OF inv] by (auto simp: dom_handler_of [OF inv])
  have key: "slot_key (hs[i := h] ! j) = (if j = i then (if fp h = None then None else Some s) else slot_key (hs ! j))"
    "fp (hs[i := h] ! j) = (if j = i then fp h else fp (hs ! j))"
    "topicFilter (hs[i := h] ! j) = (if j = i then topicFilter h else topicFilter (hs ! j))"
    if "j < length hs" for j
    using that h by (auto simp: nth_list_update slot_key_empty)
  show inv': "handlers_inv (hs[i := h])"
    unfolding handlers_inv_def
  proof (intro conjI allI impI)
    show "length (hs[i := h]) = MAX_MESSAGE_HANDLERS"
      using handlers_invD(1) [OF inv] by simp
  next
    fix j assume "j < length (hs[i := h])" "topicFilter (hs[i := h] ! j) \<noteq> Null"
    then show "slot_key (hs[i := h] ! j) \<noteq> None" "fp (hs[i := h] ! j) \<noteq> None"
      using h handlers_invD(2) [OF inv, of j] by (auto simp: key split: if_splits)
  next
    fix j k t assume "j < length (hs[i := h])" "k < length (hs[i := h])"
      "slot_key (hs[i := h] ! j) = Some t" "slot_key (hs[i := h] ! k) = Some t"
    then show "j = k"
      using other handlers_invD(3) [OF inv, of j k t] by (auto simp: key split: if_splits)
  qed
  have *: "handler_of (hs[i := h]) t = Some g \<longleftrightarrow> ((handler_of hs)(s := fp h)) t = Some g" for t g
  proof (cases "t = s")
    case True
    have "(\<exists>j < length hs. slot_key (hs[i := h] ! j) = Some s \<and> fp (hs[i := h] ! j) = Some g) \<longleftrightarrow> fp h = Some g"
      using other i key by (metis option.distinct(1))
    with True show ?thesis
      by (simp add: handler_of_iff [OF inv'])
  next
    case False
    have "slot_key (hs[i := h] ! j) = Some t \<and> fp (hs[i := h] ! j) = Some g \<longleftrightarrow>
        slot_key (hs ! j) = Some t \<and> fp (hs ! j) = Some g" if "j < length hs" for j
      using key [OF that] slot False by (auto split: if_splits)
    with False show ?thesis
      by (simp add: handler_of_iff [OF inv'] handler_of_iff [OF inv]) blast
  qed
  then show "handler_of (hs[i := h]) = (handler_of hs)(s := fp h)"
    by (intro ext) (metis option.exhaust)
qed

subsection \<open>The table of the client\<close>

definition handler_table :: "'app MQTTClient \<Rightarrow> byte list \<rightharpoonup> 'app messageHandler" where
  "handler_table c = handler_of (messageHandlers c)"

definition put_handler ::
  "'app MQTTClient \<Rightarrow> cptr \<Rightarrow> 'app messageHandler option \<Rightarrow> (bool \<times> 'app MQTTClient) option" where
  "put_handler c tf v = map_option (\<lambda>(rc, c). (rc = MQTT_SUCCESS, c)) (MQTTSetMessageHandler c tf v)"

lemma filter_found:
  assumes "handlers_inv (messageHandlers c)" "cstring_of tf s"
  obtains "s \<notin> dom (handler_table c)" "find_filter (messageHandlers c) tf 0 = Some None"
  | i where "s \<in> dom (handler_table c)" "find_filter (messageHandlers c) tf 0 = Some (Some i)"
      "i < length (messageHandlers c)" "slot_key (messageHandlers c ! i) = Some s"
proof -
  let ?i = "first_index (\<lambda>h. slot_key h = Some s) (messageHandlers c)"
  have "\<forall>h \<in> set (messageHandlers c). topicFilter h \<noteq> Null \<longrightarrow> slot_key h \<noteq> None"
    using handlers_invD(2) [OF assms(1)] by (metis in_set_conv_nth)
  then have f: "find_filter (messageHandlers c) tf 0 = Some (map_option ((+) 0) ?i)"
    by (rule find_filter_index [OF assms(2)])
  show thesis
  proof (cases ?i)
    case None
    then have "s \<notin> dom (handler_table c)"
      unfolding handler_table_def dom_handler_of [OF assms(1)] first_index_None by blast
    with f None that(1) show thesis
      by simp
  next
    case (Some i)
    from first_index_Some [OF this] have "i < length (messageHandlers c)" "slot_key (messageHandlers c ! i) = Some s"
      by simp_all
    moreover from this have "s \<in> dom (handler_table c)"
      unfolding handler_table_def dom_handler_of [OF assms(1)] by blast
    ultimately show thesis
      using f Some that(2) by simp
  qed
qed

lemma slot_found:
  assumes "handlers_inv (messageHandlers c)" "card (dom (handler_table c)) < MAX_MESSAGE_HANDLERS"
  obtains i where "find_empty (messageHandlers c) 0 = Some i" "i < length (messageHandlers c)"
    "slot_key (messageHandlers c ! i) = None"
proof (cases "first_index (\<lambda>h. topicFilter h = Null) (messageHandlers c)")
  case None
  then show thesis
    using assms free_slot_iff [OF assms(1)] by (auto simp: first_index_None handler_table_def)
next
  case (Some i)
  with first_index_Some [OF Some] show thesis
    by (intro that [of i]) (simp_all add: find_empty_index slot_key_empty)
qed

lemma slot_missing:
  assumes "handlers_inv (messageHandlers c)" "\<not> card (dom (handler_table c)) < MAX_MESSAGE_HANDLERS"
  shows "find_empty (messageHandlers c) 0 = None"
  using assms free_slot_iff [OF assms(1)] by (simp add: find_empty_index first_index_None handler_table_def)

lemma put_handler_accepted:
  assumes inv: "handlers_inv (messageHandlers c)" and tf: "cstring_of tf s"
    and acc: "accepts MAX_MESSAGE_HANDLERS (handler_table c) s v"
  shows "\<exists>c'. put_handler c tf v = Some (True, c') \<and> handlers_inv (messageHandlers c') \<and>
    handler_table c' = (handler_table c)(s := v)"
proof -
  let ?h = "case v of None \<Rightarrow> \<lparr>topicFilter = Null, fp = None\<rparr> | Some f \<Rightarrow> \<lparr>topicFilter = tf, fp = Some f\<rparr>"
  have h: "slot_key ?h = Some s \<and> fp ?h \<noteq> None \<or> topicFilter ?h = Null \<and> fp ?h = None" "fp ?h = v"
    using tf by (auto simp: slot_key_def text_at_iff split: option.split)
  obtain i where i: "i < length (messageHandlers c)"
    "slot_key (messageHandlers c ! i) = Some s \<or> slot_key (messageHandlers c ! i) = None \<and> s \<notin> dom (handler_table c)"
    "put_handler c tf v = Some (True, c\<lparr>messageHandlers := (messageHandlers c)[i := ?h]\<rparr>)"
    using inv tf
  proof (cases rule: filter_found)
    case 1
    then have v: "v \<noteq> None" "card (dom (handler_table c)) < MAX_MESSAGE_HANDLERS"
      using acc by (auto simp: accepts_def)
    from slot_found [OF inv v(2)] obtain i where "find_empty (messageHandlers c) 0 = Some i"
      "i < length (messageHandlers c)" "slot_key (messageHandlers c ! i) = None" .
    with 1 v(1) show thesis
      by (intro that [of i]) (auto simp: put_handler_def MQTTSetMessageHandler_def)
  next
    case (2 i)
    then show thesis
      by (intro that [of i]) (auto simp: put_handler_def MQTTSetMessageHandler_def split: option.split)
  qed
  show ?thesis
    using handler_update [OF inv i(1) i(2) [unfolded handler_table_def] h(1)] i(3) h(2)
    by (auto simp: handler_table_def)
qed

lemma put_handler_refused:
  assumes inv: "handlers_inv (messageHandlers c)" and tf: "cstring_of tf s"
    and acc: "\<not> accepts MAX_MESSAGE_HANDLERS (handler_table c) s v"
  shows "put_handler c tf v = Some (False, c)"
  using inv tf
proof (cases rule: filter_found)
  case 1
  then show ?thesis
    using acc slot_missing [OF inv]
    by (cases v) (auto simp: accepts_def put_handler_def MQTTSetMessageHandler_def)
qed (use acc in \<open>simp add: accepts_def\<close>)

interpretation handlers: bounded_table "\<lambda>c. handlers_inv (messageHandlers c)" handler_table cstring_of put_handler
  MAX_MESSAGE_HANDLERS
proof
  fix c :: "'a MQTTClient" assume inv: "handlers_inv (messageHandlers c)"
  have "card {i. i < length (messageHandlers c) \<and> topicFilter (messageHandlers c ! i) \<noteq> Null} \<le> card {..<length (messageHandlers c)}"
    by (intro card_mono) auto
  then show "finite (dom (handler_table c)) \<and> card (dom (handler_table c)) \<le> MAX_MESSAGE_HANDLERS"
    using card_dom_handler_of [OF inv] handlers_invD(1) [OF inv] by (simp add: handler_table_def)
qed (fact put_handler_accepted put_handler_refused)+

text \<open>A sequence of calls of \<^verbatim>\<open>MQTTSetMessageHandler\<close>.\<close>

fun set_handlers :: "'app MQTTClient \<Rightarrow> (cptr \<times> 'app messageHandler option) list \<Rightarrow> 'app MQTTClient option" where
  "set_handlers c [] = Some c"
| "set_handlers c ((tf, v) # ops) = do { (_, c) \<leftarrow> MQTTSetMessageHandler c tf v; set_handlers c ops }"

lemma bind_put_handler:
  "(MQTTSetMessageHandler c tf v \<bind> (\<lambda>(_, c). k c)) = (case put_handler c tf v of None \<Rightarrow> None | Some (_, c) \<Rightarrow> k c)"
  by (auto simp: put_handler_def split: Option.bind_split)

lemma set_handlers_puts: "set_handlers c ops = handlers.puts c ops"
proof (induction ops arbitrary: c)
  case (Cons op ops)
  then show ?case
    by (cases op) (simp add: bind_put_handler)
qed simp

text \<open>
  C6. The handler slots implement a bounded map. Starting from slots in which every filter is a C
  string and no two are equal, any sequence of calls of \<^verbatim>\<open>MQTTSetMessageHandler\<close>, for strings that may be
  equal while their pointers differ, has the effect of the same sequence of updates and deletions on
  a finite map with room for five filters, and keeps the slots well-formed.
\<close>

theorem handlers_refine_map:
  assumes "handlers_inv (messageHandlers c)"
    "list_all2 (\<lambda>(tf, v) (s, v'). cstring_of tf s \<and> v' = v) ops kops"
  shows "\<exists>c'. set_handlers c ops = Some c' \<and> handlers_inv (messageHandlers c') \<and>
    handler_table c' = fold (table_step MAX_MESSAGE_HANDLERS) kops (handler_table c)"
  unfolding set_handlers_puts using assms by (rule handlers.puts_refine)

definition example_client :: "'app MQTTClient" where
  "example_client = \<lparr>next_packetid = 1, command_timeout_ms = 1000, buf_size = 64, readbuf_size = 64,
     sendbuf = replicate 64 0, readbuf = replicate 64 0, keepAliveInterval = 60, ping_outstanding = 0, isconnected = 0,
     cleansession = 0, messageHandlers = replicate 5 \<lparr>topicFilter = Null, fp = None\<rparr>, defaultMessageHandler = None,
     last_sent = TimerInit, last_received = TimerInit\<rparr>"

lemma example_client_handlers: "handlers_inv (messageHandlers example_client)"
  by (auto simp: handlers_inv_def example_client_def slot_key_def text_at_def)

theorem handlers_refine_map_witness:
  "\<exists>c'. set_handlers (example_client :: unit MQTTClient) [(Ptr [97, 0], Some (\<lambda>_. Some)), (Ptr [97, 0, 1], None)] = Some c' \<and>
    handlers_inv (messageHandlers c') \<and>
    handler_table c' = fold (table_step MAX_MESSAGE_HANDLERS) [([97], Some (\<lambda>_. Some)), ([97], None)]
      (handler_table (example_client :: unit MQTTClient))"
  by (rule handlers_refine_map [OF example_client_handlers]) (simp add: cstring_of_def)

end
