(* ===== verification/Client_Inv.thy ===== *)
theory Client_Inv
  imports Handler_Table
begin

text \<open>
  The invariant of the client: the buffers have the sizes the client records, packet identifiers are
  in range and the handler slots are well-formed. Every function of the client keeps it, whatever
  the network delivers.
\<close>

subsection \<open>Serializers stay inside the buffer\<close>

text \<open>A write keeps the length of the buffer and its cursor inside.\<close>

definition in_buffer :: "wptr \<Rightarrow> wptr \<Rightarrow> bool" where
  "in_buffer w w' \<longleftrightarrow> length (fst w') = length (fst w) \<and> snd w' \<le> length (fst w')"

named_theorems in_buffers

lemma in_buffer_trans: "in_buffer w w' \<Longrightarrow> in_buffer w' w'' \<Longrightarrow> in_buffer w w''"
  by (simp add: in_buffer_def)

lemma in_buffer_emit [in_buffers]: "emit bs w = Some w' \<Longrightarrow> in_buffer w w'"
  by (auto simp: emit_def in_buffer_def split: if_splits)

lemma in_buffer_writeChar [in_buffers]: "writeChar w c = Some w' \<Longrightarrow> in_buffer w w'"
  by (auto simp: writeChar_emit in_buffers)

lemma in_buffer_writeInt [in_buffers]: "writeInt w n = Some w' \<Longrightarrow> in_buffer w w'"
  unfolding writeInt_def bind_eq_Some_conv by (blast intro: in_buffer_trans in_buffers)

lemma in_buffer_memcpy [in_buffers]: "memcpy w src n = Some w' \<Longrightarrow> in_buffer w w'"
  by (auto simp: memcpy_def bind_eq_Some_conv in_buffers split: if_splits)

lemma in_buffer_writeCString [in_buffers]: "writeCString w p = Some w' \<Longrightarrow> in_buffer w w'"
  unfolding writeCString_def bind_eq_Some_conv Let_def by (blast intro: in_buffer_trans in_buffers)

lemma in_buffer_writeMQTTString [in_buffers]: "writeMQTTString w m = Some w' \<Longrightarrow> in_buffer w w'"
  unfolding writeMQTTString_def bind_eq_Some_conv
  by (auto intro: in_buffer_trans in_buffers simp: bind_eq_Some_conv split: if_splits)

lemma encode_loop_length: "encode_loop buf p rc n = Some (rc', buf') \<Longrightarrow> 0 \<le> rc \<Longrightarrow>
    length buf' = length buf \<and> rc < rc' \<and> p + nat rc' \<le> length buf"
proof (induction buf p rc n rule: encode_loop.induct)
  case (1 buf p rc n)
  define d :: byte where "d = (if n sdiv 128 > 0 then word_of_int (n smod 128) OR 128 else word_of_int (n smod 128))"
  from 1(2) have s: "p + nat rc < length buf" and
    r: "(if n sdiv 128 > 0 then encode_loop (buf[p + nat rc := d]) p (rc + 1) (n sdiv 128)
         else Some (rc + 1, buf[p + nat rc := d])) = Some (rc', buf')"
    by (subst (asm) encode_loop.simps; auto simp: Let_def bind_eq_Some_conv store_eq_Some_iff d_def)+
  show ?case
  proof (cases "n sdiv 128 > 0")
    case True
    have "length buf' = length (buf[p + nat rc := d]) \<and> rc + 1 < rc' \<and> p + nat rc' \<le> length (buf[p + nat rc := d])"
      using True r s 1(3) by (intro "1.IH") (auto simp: d_def)
    then show ?thesis
      by simp
  next
    case False
    with r s 1(3) show ?thesis
      by auto
  qed
qed

lemma encode_length: "MQTTPacket_encode w n = Some (k, buf) \<Longrightarrow>
    length buf = length (fst w) \<and> 0 < k \<and> snd w + nat k \<le> length (fst w)"
  by (auto simp: MQTTPacket_encode_def dest: encode_loop_length)

lemma in_buffer_encode_at [in_buffers]: "encode_at w n = Some w' \<Longrightarrow> in_buffer w w'"
  by (auto simp: encode_at_def bind_eq_Some_conv in_buffer_def dest: encode_length)

lemma in_buffer_subscribe_loop [in_buffers]:
  "subscribe_write_loop n ts qs w = Some w' \<Longrightarrow> in_buffer w0 w \<Longrightarrow> in_buffer w0 w'"
proof (induction n ts qs w rule: subscribe_write_loop.induct)
  case (2 n t ts q qs w)
  then show ?case
    unfolding subscribe_write_loop.simps bind_eq_Some_conv
    by (metis in_buffer_trans in_buffer_writeChar in_buffer_writeMQTTString)
qed simp_all

lemma in_buffer_unsubscribe_loop [in_buffers]:
  "unsubscribe_write_loop n ts w = Some w' \<Longrightarrow> in_buffer w0 w \<Longrightarrow> in_buffer w0 w'"
proof (induction n ts w rule: unsubscribe_write_loop.induct)
  case (3 n t ts w)
  then show ?case
    unfolding unsubscribe_write_loop.simps bind_eq_Some_conv
    by (metis in_buffer_trans in_buffer_writeMQTTString)
qed simp_all

text \<open>What the client needs to know of a serializer: \<open>inside buf r\<close>.\<close>

definition inside :: "byte list \<Rightarrow> (int \<times> byte list) option \<Rightarrow> bool" where
  "inside buf r \<longleftrightarrow> (\<forall>n b. r = Some (n, b) \<longrightarrow> length b = length buf \<and> n \<le> int (length buf))"

lemma insideD: "inside buf r \<Longrightarrow> r = Some (n, b) \<Longrightarrow> length b = length buf \<and> n \<le> int (length buf)"
  by (simp add: inside_def)

named_theorems insides

lemma inside_short [insides]: "inside buf (Some (MQTTPACKET_BUFFER_TOO_SHORT, buf))"
  by (simp add: inside_def MQTTPACKET_BUFFER_TOO_SHORT_def)

text \<open>Sequences of writes, from the start of the buffer \<open>w0\<close>.\<close>

definition keeps :: "wptr \<Rightarrow> wptr option \<Rightarrow> bool" where
  "keeps w0 r \<longleftrightarrow> (\<forall>w. r = Some w \<longrightarrow> in_buffer w0 w)"

lemma inside_bind:
  "keeps (buf, 0) r \<Longrightarrow> (\<And>w. in_buffer (buf, 0) w \<Longrightarrow> inside buf (k w)) \<Longrightarrow> inside buf (r \<bind> k)"
  by (cases r) (simp_all add: keeps_def inside_def)

lemma keeps_bind: "keeps w0 r \<Longrightarrow> (\<And>w. in_buffer w0 w \<Longrightarrow> keeps w0 (k w)) \<Longrightarrow> keeps w0 (r \<bind> k)"
  by (cases r) (simp_all add: keeps_def)

lemma keeps_if: "keeps w0 r \<Longrightarrow> keeps w0 r' \<Longrightarrow> keeps w0 (if b then r else r')"
  by simp

lemma keeps_Some: "in_buffer w0 w \<Longrightarrow> keeps w0 (Some w)"
  by (simp add: keeps_def)

lemma keeps_start: "keeps (buf, 0) (writeChar (buf, 0) c)"
  by (simp add: keeps_def in_buffers)

lemma keeps_step: "in_buffer w0 w \<Longrightarrow> (\<And>w'. r = Some w' \<Longrightarrow> in_buffer w w') \<Longrightarrow> keeps w0 r"
  by (auto simp: keeps_def intro: in_buffer_trans)

lemma keeps_writes:
  assumes "in_buffer w0 w"
  shows "keeps w0 (writeChar w c)"
    "keeps w0 (writeInt w n)"
    "keeps w0 (encode_at w n)"
    "keeps w0 (memcpy w p n)"
    "keeps w0 (writeCString w p)"
    "keeps w0 (writeMQTTString w m)"
  by (rule keeps_step [OF assms], erule in_buffers; fail)+

lemma keeps_loops:
  assumes "in_buffer w0 w"
  shows "keeps w0 (subscribe_write_loop k ts qs w)" "keeps w0 (unsubscribe_write_loop k ts w)"
  using assms by (auto simp: keeps_def dest: in_buffer_subscribe_loop in_buffer_unsubscribe_loop)

lemma inside_final: "in_buffer (buf, 0) w \<Longrightarrow> inside buf (Some (int (snd w), fst w))"
  by (simp add: inside_def in_buffer_def)

lemma inside_if: "(b \<Longrightarrow> inside buf r) \<Longrightarrow> (\<not> b \<Longrightarrow> inside buf r') \<Longrightarrow> inside buf (if b then r else r')"
  by simp

lemma inside_let: "(\<And>x. inside buf (k x)) \<Longrightarrow> inside buf (Let a k)"
  by simp

lemma inside_length: "(\<And>l. inside buf (k l)) \<Longrightarrow> inside buf ((f :: int option) \<bind> k)"
  by (cases f) (simp_all add: inside_def)

lemmas inside_rules = inside_length inside_bind inside_short inside_final inside_if inside_let keeps_start keeps_writes keeps_loops
  keeps_bind keeps_if keeps_Some

lemma inside_zero [insides]: "inside buf (MQTTSerialize_zero buf buflen t)"
  unfolding MQTTSerialize_zero_def by (intro inside_rules) assumption+

lemma inside_pingreq [insides]: "inside buf (MQTTSerialize_pingreq buf buflen)"
  by (simp add: MQTTSerialize_pingreq_def insides)

lemma inside_disconnect [insides]: "inside buf (MQTTSerialize_disconnect buf buflen)"
  by (simp add: MQTTSerialize_disconnect_def insides)

lemma inside_ack [insides]: "inside buf (MQTTSerialize_ack buf buflen a)"
  unfolding MQTTSerialize_ack_def split_beta by (intro inside_rules) assumption+

lemma inside_publish [insides]: "inside buf (MQTTSerialize_publish buf buflen a)"
  unfolding MQTTSerialize_publish_def by (intro inside_rules) assumption+

lemma inside_subscribe [insides]: "inside buf (MQTTSerialize_subscribe buf buflen a)"
  unfolding MQTTSerialize_subscribe_def by (intro inside_rules) assumption+

lemma inside_unsubscribe [insides]: "inside buf (MQTTSerialize_unsubscribe buf buflen a)"
  unfolding MQTTSerialize_unsubscribe_def by (intro inside_rules) assumption+

lemma inside_connect [insides]: "inside buf (MQTTSerialize_connect buf buflen a)"
  unfolding MQTTSerialize_connect_def by (intro inside_rules) assumption+

subsection \<open>The invariant\<close>

definition client_inv :: "'app MQTTClient \<Rightarrow> bool" where
  "client_inv c \<longleftrightarrow> length (sendbuf c) = unat (buf_size c) \<and> length (readbuf c) = unat (readbuf_size c) \<and>
     handlers_inv (messageHandlers c) \<and> 1 \<le> uint (next_packetid c) \<and> uint (next_packetid c) \<le> MAX_PACKET_ID"

text \<open>\<open>leads P r\<close>: if the computation \<open>r\<close> returns, its result satisfies \<open>P\<close>.\<close>

definition leads :: "('a \<Rightarrow> bool) \<Rightarrow> 'a option \<Rightarrow> bool" where
  "leads P r \<longleftrightarrow> (\<forall>y. r = Some y \<longrightarrow> P y)"

lemma leads_Some [simp]: "leads P (Some y) \<longleftrightarrow> P y"
  by (simp add: leads_def)

lemma leads_None [simp]: "leads P None"
  by (simp add: leads_def)

lemma leads_bind: "leads Q r \<Longrightarrow> (\<And>y. Q y \<Longrightarrow> leads P (k y)) \<Longrightarrow> leads P (r \<bind> k)"
  by (cases r) simp_all

lemma leads_any: "(\<And>y. leads P (k y)) \<Longrightarrow> leads P (r \<bind> k)"
  by (cases r) simp_all

lemma leadsD: "leads P r \<Longrightarrow> r = Some y \<Longrightarrow> P y"
  by (simp add: leads_def)

abbreviation keeps_inv :: "('x \<times> 'app MQTTClient \<times> 'app world) option \<Rightarrow> bool" where
  "keeps_inv \<equiv> leads (\<lambda>(_, c, _). client_inv c)"

lemma client_inv_update [simp]:
  "client_inv (c\<lparr>last_sent := t\<rparr>) = client_inv c" "client_inv (c\<lparr>last_received := t\<rparr>) = client_inv c"
  "client_inv (c\<lparr>ping_outstanding := i\<rparr>) = client_inv c" "client_inv (c\<lparr>isconnected := i\<rparr>) = client_inv c"
  "client_inv (c\<lparr>keepAliveInterval := k\<rparr>) = client_inv c" "client_inv (c\<lparr>cleansession := i\<rparr>) = client_inv c"
  by (simp_all add: client_inv_def)

lemma client_inv_buffers:
  "client_inv c \<Longrightarrow> length b = length (sendbuf c) \<Longrightarrow> client_inv (c\<lparr>sendbuf := b\<rparr>)"
  "client_inv c \<Longrightarrow> length b = length (readbuf c) \<Longrightarrow> client_inv (c\<lparr>readbuf := b\<rparr>)"
  by (simp_all add: client_inv_def)

lemma leads_inside: "inside buf r \<Longrightarrow> leads (\<lambda>(n, b). length b = length buf \<and> n \<le> int (length buf)) r"
  by (auto simp: inside_def leads_def)

lemmas leads_serializers = insides [THEN leads_inside, THEN leads_bind]

lemmas leads_reads = leads_any [of _ _ "ipstack_read n w" for n w] leads_any [of _ _ "decodePacket w" for w]
  leads_any [of _ _ "fetch bs i" for bs i] leads_any [of _ _ "sendPacket_loop bs n s t w" for bs n s t w]
  leads_any [of _ _ "deliverMessage c m x w" for c m x w] leads_any [of _ _ "MQTTDeserialize_publish p b" for p b]
  leads_any [of _ _ "MQTTDeserialize_ack p b" for p b] leads_any [of _ _ "MQTTDeserialize_connack p b" for p b]
  leads_any [of _ _ "MQTTDeserialize_suback n p b" for n p b] leads_any [of _ _ "MQTTDeserialize_unsuback p b" for p b]

lemma getNextPacketId_inv:
  assumes "client_inv c" "getNextPacketId c = (i, c')"
  shows "client_inv c'" "1 \<le> i" "i \<le> MAX_PACKET_ID"
proof -
  define n where "n = uint (next_packetid c)"
  have n: "1 \<le> n" "n \<le> 65535" "uint (next_packetid c + 1) = n + 1" if "n \<noteq> 65535"
    using assms(1) that by (auto simp: client_inv_def n_def uint_word_ariths)
  show "client_inv c'" "1 \<le> i" "i \<le> MAX_PACKET_ID"
    using assms n by (auto simp: getNextPacketId_def Let_def client_inv_def n_def split: if_splits)
qed

lemma sendPacket_inv: "client_inv c \<Longrightarrow> keeps_inv (sendPacket c n timer w)"
  by (auto simp: sendPacket_def Let_def split: prod.split intro!: leads_reads)

lemma leads_put: "leads (\<lambda>b. length b = length buf) (put buf p bs)"
  by (simp add: put_def)

lemma leads_encode: "leads (\<lambda>(k, b). length b = length (fst w)) (MQTTPacket_encode w n)"
  by (auto simp: leads_def dest: encode_length)

lemma readPacket_done_inv: "client_inv c \<Longrightarrow> keeps_inv (readPacket_done c w)"
  by (auto simp: readPacket_done_def Let_def split: prod.split intro!: leads_reads)

lemma readPacket_body_inv: "client_inv c \<Longrightarrow> keeps_inv (readPacket_body c n rlen timer w)"
  by (auto simp: readPacket_body_def Let_def split: prod.split
      intro!: leads_reads leads_bind [OF leads_put] readPacket_done_inv client_inv_buffers)

lemma readPacket_inv: "client_inv c \<Longrightarrow> keeps_inv (readPacket c timer w)"
  by (auto simp: readPacket_def Let_def split: prod.split
      intro!: leads_reads leads_bind [OF leads_put] leads_bind [OF leads_encode] readPacket_body_inv client_inv_buffers)

lemma handlers_inv_clean: "length hs = MAX_MESSAGE_HANDLERS \<Longrightarrow> handlers_inv (map (\<lambda>h. h\<lparr>topicFilter := Null\<rparr>) hs)"
  by (auto simp: handlers_inv_def slot_key_empty)

lemma MQTTCloseSession_inv: "client_inv c \<Longrightarrow> client_inv (MQTTCloseSession c)"
  using handlers_inv_clean [of "messageHandlers c"] handlers_invD(1)
  by (auto simp: MQTTCloseSession_def MQTTCleanSession_def client_inv_def Let_def)

lemma close_on_failure_inv: "client_inv c \<Longrightarrow> client_inv (close_on_failure rc c)"
  by (simp add: close_on_failure_def MQTTCloseSession_inv)

lemma keepalive_ping_inv: "client_inv c \<Longrightarrow> keeps_inv (keepalive_ping c w)"
  by (auto simp: keepalive_ping_def Let_def split: prod.split
      intro!: leads_serializers leads_bind [OF sendPacket_inv] client_inv_buffers)

lemma keepalive_inv: "client_inv c \<Longrightarrow> keeps_inv (keepalive c w)"
  by (auto simp: keepalive_def Let_def split: prod.split intro!: keepalive_ping_inv)

lemma cycle_send_ack_inv: "client_inv c \<Longrightarrow> keeps_inv (cycle_send_ack c t i timer w)"
  by (auto simp: cycle_send_ack_def Let_def split: prod.split
      intro!: leads_serializers sendPacket_inv client_inv_buffers)

abbreviation keeps_inv_branch :: "'app branch \<Rightarrow> bool" where
  "keeps_inv_branch \<equiv> leads (\<lambda>(_, _, c, _). client_inv c)"

lemma cycle_publish_inv: "client_inv c \<Longrightarrow> keeps_inv_branch (cycle_publish c timer w)"
  by (auto simp: cycle_publish_def Let_def split: prod.split
      intro!: leads_reads leads_bind [OF cycle_send_ack_inv])

lemma cycle_pubrec_pubrel_inv: "client_inv c \<Longrightarrow> keeps_inv_branch (cycle_pubrec_pubrel t c timer w)"
  by (auto simp: cycle_pubrec_pubrel_def Let_def split: prod.split
      intro!: leads_reads leads_bind [OF cycle_send_ack_inv])

lemma cycle_dispatch_inv: "client_inv c \<Longrightarrow> keeps_inv_branch (cycle_dispatch t c timer w)"
  by (auto simp: cycle_dispatch_def intro!: cycle_publish_inv cycle_pubrec_pubrel_inv)

lemma cycle_inv: "client_inv c \<Longrightarrow> keeps_inv (cycle c timer w)"
  by (auto simp: cycle_def split: prod.split
      intro!: leads_bind [OF readPacket_inv] leads_bind [OF cycle_dispatch_inv] leads_bind [OF keepalive_inv]
        MQTTCloseSession_inv)

lemma yield_loop_inv: "client_inv c \<Longrightarrow> keeps_inv (yield_loop c timer w)"
proof (induction c timer w rule: yield_loop.induct)
  case (1 c timer w)
  then show ?case
    using leadsD [OF cycle_inv [OF "1.prems"]]
    by (subst yield_loop.simps) (auto split: option.split prod.split)
qed

lemma MQTTYield_inv: "client_inv c \<Longrightarrow> keeps_inv (MQTTYield c t w)"
  by (simp add: MQTTYield_def yield_loop_inv split: prod.split)

lemma waitfor_loop_inv: "client_inv c \<Longrightarrow> keeps_inv (waitfor_loop c t timer rc w)"
proof (induction c t timer rc w rule: waitfor_loop.induct)
  case (1 c t timer rc w)
  then show ?case
    using leadsD [OF cycle_inv [OF "1.prems"]]
    by (subst waitfor_loop.simps) (auto split: option.split prod.split)
qed

lemma waitfor_inv: "client_inv c \<Longrightarrow> keeps_inv (waitfor c t timer w)"
  by (simp add: waitfor_def waitfor_loop_inv)

subsection \<open>The interface functions\<close>

abbreviation keeps_inv_results :: "(int \<times> 'x \<times> 'app MQTTClient \<times> 'app world) option \<Rightarrow> bool" where
  "keeps_inv_results \<equiv> leads (\<lambda>(_, _, c, _). client_inv c)"

lemma getNextPacketId_keeps: "getNextPacketId c = (i, c') \<Longrightarrow> client_inv c \<Longrightarrow> client_inv c'"
  by (rule getNextPacketId_inv)

lemma MQTTSetMessageHandler_inv:
  assumes "client_inv c" "cstring_of tf s"
  shows "leads (\<lambda>(_, c). client_inv c) (MQTTSetMessageHandler c tf v)"
proof -
  have inv: "handlers_inv (messageHandlers c)"
    using assms(1) by (simp add: client_inv_def)
  show ?thesis
    unfolding leads_def
  proof (intro allI impI)
    fix y assume y: "MQTTSetMessageHandler c tf v = Some y"
    obtain rc c' where rc: "y = (rc, c')" by (cases y)
    have "handlers_inv (messageHandlers c')"
    proof (cases "accepts MAX_MESSAGE_HANDLERS (handler_table c) s v")
      case True
      from put_handler_accepted [OF inv assms(2) True] y rc show ?thesis
        by (auto simp: put_handler_def)
    next
      case False
      from put_handler_refused [OF inv assms(2) False] y rc inv show ?thesis
        by (auto simp: put_handler_def)
    qed
    moreover obtain found where "find_filter (messageHandlers c) tf 0 = Some found"
      using y by (auto simp: MQTTSetMessageHandler_def bind_eq_Some_conv)
    then have "sendbuf c' = sendbuf c \<and> buf_size c' = buf_size c \<and> readbuf c' = readbuf c \<and>
        readbuf_size c' = readbuf_size c \<and> next_packetid c' = next_packetid c"
      using y rc
      by (cases v; cases found; cases "find_empty (messageHandlers c) 0") (auto simp: MQTTSetMessageHandler_def)
    ultimately show "case y of (_, c) \<Rightarrow> client_inv c"
      using assms(1) rc by (simp add: client_inv_def)
  qed
qed

lemma MQTTConnectWithResults_inv: "client_inv c \<Longrightarrow> keeps_inv_results (MQTTConnectWithResults c options dat w)"
  by (auto simp: MQTTConnectWithResults_def Let_def split: prod.split
      intro!: leads_serializers leads_bind [OF sendPacket_inv] leads_bind [OF waitfor_inv] leads_reads client_inv_buffers)

lemma MQTTConnect_inv: "client_inv c \<Longrightarrow> keeps_inv (MQTTConnect c options w)"
  by (auto simp: MQTTConnect_def split: prod.split intro!: leads_bind [OF MQTTConnectWithResults_inv])

lemma MQTTSubscribeWithResults_inv:
  "client_inv c \<Longrightarrow> cstring_of tf s \<Longrightarrow> keeps_inv_results (MQTTSubscribeWithResults c tf qos handler g w)"
  by (auto simp: MQTTSubscribeWithResults_def Let_def split: prod.split
      intro!: leads_serializers leads_bind [OF sendPacket_inv] leads_bind [OF waitfor_inv] leads_reads
        leads_bind [OF MQTTSetMessageHandler_inv] client_inv_buffers close_on_failure_inv)
    (erule (1) getNextPacketId_keeps)+

lemma MQTTSubscribe_inv: "client_inv c \<Longrightarrow> cstring_of tf s \<Longrightarrow> keeps_inv (MQTTSubscribe c tf qos handler w)"
  by (auto simp: MQTTSubscribe_def split: prod.split intro!: leads_bind [OF MQTTSubscribeWithResults_inv])

lemma MQTTUnsubscribe_inv: "client_inv c \<Longrightarrow> cstring_of tf s \<Longrightarrow> keeps_inv (MQTTUnsubscribe c tf w)"
  by (auto simp: MQTTUnsubscribe_def Let_def split: prod.split
      intro!: leads_serializers leads_bind [OF sendPacket_inv] leads_bind [OF waitfor_inv] leads_reads
        leads_bind [OF MQTTSetMessageHandler_inv] client_inv_buffers close_on_failure_inv)
    (erule (1) getNextPacketId_keeps)+

lemma publish_wait_inv: "client_inv c \<Longrightarrow> keeps_inv (publish_wait c t timer w)"
  by (auto simp: publish_wait_def split: prod.split intro!: leads_bind [OF waitfor_inv] leads_reads)

lemma MQTTPublish_inv: "client_inv c \<Longrightarrow> keeps_inv_results (MQTTPublish c topicName message w)"
  by (auto simp: MQTTPublish_def Let_def split: prod.split
      intro!: leads_serializers leads_bind [OF sendPacket_inv] leads_bind [OF publish_wait_inv]
        client_inv_buffers close_on_failure_inv)
    (erule (1) getNextPacketId_keeps)+

lemma MQTTDisconnect_inv: "client_inv c \<Longrightarrow> keeps_inv (MQTTDisconnect c w)"
  by (auto simp: MQTTDisconnect_def Let_def split: prod.split
      intro!: leads_serializers leads_bind [OF sendPacket_inv] client_inv_buffers MQTTCloseSession_inv)

lemma MQTTClientInit_inv:
  "length (messageHandlers c) = MAX_MESSAGE_HANDLERS \<Longrightarrow> length sbuf = unat ssize \<Longrightarrow> length rbuf = unat rsize \<Longrightarrow>
   client_inv (MQTTClientInit c timeout sbuf ssize rbuf rsize)"
  using handlers_inv_clean [of "messageHandlers c"] by (simp add: MQTTClientInit_def client_inv_def)

subsection \<open>Runs of the client\<close>

text \<open>
  A run: the functions of the interface in any order and with any arguments, as long as topic filters
  are C strings, and between them whatever the environment does.
\<close>

inductive client_step :: "'app MQTTClient \<times> 'app world \<Rightarrow> 'app MQTTClient \<times> 'app world \<Rightarrow> bool" where
  step_connect: "MQTTConnect c options w = Some (rc, c', w') \<Longrightarrow> client_step (c, w) (c', w')"
| step_subscribe: "MQTTSubscribe c tf qos handler w = Some (rc, c', w') \<Longrightarrow> cstring_of tf s \<Longrightarrow> client_step (c, w) (c', w')"
| step_unsubscribe: "MQTTUnsubscribe c tf w = Some (rc, c', w') \<Longrightarrow> cstring_of tf s \<Longrightarrow> client_step (c, w) (c', w')"
| step_publish: "MQTTPublish c t m w = Some (rc, m', c', w') \<Longrightarrow> client_step (c, w) (c', w')"
| step_disconnect: "MQTTDisconnect c w = Some (rc, c', w') \<Longrightarrow> client_step (c, w) (c', w')"
| step_yield: "MQTTYield c ms w = Some (rc, c', w') \<Longrightarrow> client_step (c, w) (c', w')"
| step_handler: "MQTTSetMessageHandler c tf v = Some (rc, c') \<Longrightarrow> cstring_of tf s \<Longrightarrow> client_step (c, w) (c', w)"
| step_close: "client_step (c, w) (MQTTCloseSession c, w)"
| step_environment: "client_step (c, w) (c, w')"

inductive_cases client_stepE: "client_step (c, w) (c', w')"

inductive client_run :: "'app MQTTClient \<times> 'app world \<Rightarrow> 'app MQTTClient \<times> 'app world \<Rightarrow> bool" for s where
  run_start: "client_run s s"
| run_step: "client_run s s' \<Longrightarrow> client_step s' s'' \<Longrightarrow> client_run s s''"

lemma client_step_inv: "client_step (c, w) (c', w') \<Longrightarrow> client_inv c \<Longrightarrow> client_inv c'"
  by (erule client_stepE)
    (auto dest: leadsD [OF MQTTConnect_inv] leadsD [OF MQTTSubscribe_inv] leadsD [OF MQTTUnsubscribe_inv]
      leadsD [OF MQTTPublish_inv] leadsD [OF MQTTDisconnect_inv] leadsD [OF MQTTYield_inv]
      leadsD [OF MQTTSetMessageHandler_inv] intro: MQTTCloseSession_inv)

lemma client_run_inv: "client_run s s' \<Longrightarrow> client_inv (fst s) \<Longrightarrow> client_inv (fst s')"
  by (induction rule: client_run.induct) (auto intro: client_step_inv)

text \<open>
  C1. In every state that a client reaches from its initialization, by any sequence of calls of its
  functions and whatever the network delivers in between: the send and the receive buffer have
  the sizes the client records for them, the packet identifier is between 1 and 65535, every occupied
  handler slot has a C string as filter and a handler, and no two slots have equal filters.
\<close>

theorem client_invariant:
  assumes "length (messageHandlers c0) = MAX_MESSAGE_HANDLERS" "length sbuf = unat ssize" "length rbuf = unat rsize"
    "client_run (MQTTClientInit c0 timeout sbuf ssize rbuf rsize, w0) (c, w)"
  shows "length (sendbuf c) = unat (buf_size c) \<and> length (readbuf c) = unat (readbuf_size c) \<and>
    handlers_inv (messageHandlers c) \<and> 1 \<le> uint (next_packetid c) \<and> uint (next_packetid c) \<le> MAX_PACKET_ID"
  using client_run_inv [OF assms(4)] MQTTClientInit_inv [OF assms(1-3)] by (simp add: client_inv_def)

theorem client_invariant_witness:
  "let c = MQTTCloseSession (MQTTClientInit (example_client :: unit MQTTClient) 1000 (replicate 64 0) 64 (replicate 32 0) 32) in
   length (sendbuf c) = unat (buf_size c) \<and> length (readbuf c) = unat (readbuf_size c) \<and>
    handlers_inv (messageHandlers c) \<and> 1 \<le> uint (next_packetid c) \<and> uint (next_packetid c) \<le> MAX_PACKET_ID"
  unfolding Let_def
  by (rule client_invariant [OF _ _ _ run_step [OF run_start step_close [of _ example_world]]])
    (simp_all add: example_client_def)

end
