(* ===== verification/Client_Exchange.thy ===== *)
theory Client_Exchange
  imports Client_Inv
begin

text \<open>
  What the client sends and how it reacts to the packets it receives: the exact bytes of a
  published message, the packets taken from the stream, the delivery of a message from one client to
  the handler of another, and the outcome of a connection attempt.
\<close>

subsection \<open>Sending\<close>

definition online :: "'app world \<Rightarrow> bool" where
  "online w \<longleftrightarrow> ssl w = Live \<and> functions_set w"

lemma online_frame: "frame w w' \<Longrightarrow> online w' \<longleftrightarrow> online w"
  by (simp add: online_def functions_set_def frame_sel)

text \<open>\<open>w'\<close> differs from \<open>w\<close> by the bytes \<open>bs\<close> sent and the time that has passed.\<close>

definition sends :: "'app world \<Rightarrow> byte list \<Rightarrow> 'app world \<Rightarrow> bool" where
  "sends w bs w' \<longleftrightarrow> (\<exists>t x. ticks w \<le> t \<and> w' = w\<lparr>ticks := t, tx := x, sent := sent w @ bs\<rparr>)"

lemma sendsI: "ticks w \<le> t \<Longrightarrow> w' = w\<lparr>ticks := t, tx := x, sent := sent w @ bs\<rparr> \<Longrightarrow> sends w bs w'"
  unfolding sends_def by blast

lemma sends_sel:
  assumes "sends w bs w'"
  shows "sent w' = sent w @ bs" "app w' = app w" "rx w' = rx w" "readable w' = readable w" "online w' \<longleftrightarrow> online w"
    "clock w' = clock w" "mqttNet w' = mqttNet w" "ssl w' = ssl w" "ticks w \<le> ticks w'"
  using assms by (auto simp: sends_def readable_def pending_def online_def functions_set_def)

lemma sends_trans: "sends w bs w' \<Longrightarrow> sends w' cs w'' \<Longrightarrow> sends w (bs @ cs) w''"
  unfolding sends_def by (elim exE conjE, intro exI conjI) (rule order_trans, simp_all)

lemma sends_ticks: "ticks w \<le> t \<Longrightarrow> sends w [] (w\<lparr>ticks := t\<rparr>)"
  by (rule sendsI [where t = t and x = "tx w"]) simp_all

lemma sends_timer:
  "TimerIsExpired timer w = (b, w') \<Longrightarrow> sends w [] w'"
  "TimerLeftMS timer w = (n, w') \<Longrightarrow> sends w [] w'"
  "TimerCountdown u w = (t, w') \<Longrightarrow> sends w [] w'"
  "TimerCountdownMS u w = (t, w') \<Longrightarrow> sends w [] w'"
  using timer_frame(1,4) [of timer w] timer_frame(2,3) [of u w] sends_ticks [of w "ticks w + 1"]
  by (metis le_add1 snd_conv)+

lemma ipstack_write_spec:
  assumes "online w" "0 \<le> n" "n \<le> int (length bs)"
  obtains w' where "ipstack_write (Ptr bs) n w = Some (n, w')" "sends w (take (nat n) bs) w'"
  | w' k where "ipstack_write (Ptr bs) n w = Some (- 1, w')" "sends w (take k bs) w'" "int k < n"
proof -
  from assms have live: "ssl w = Live" and fn: "net_mqttwrite (mqttNet w) = Fn_network_write"
    by (auto simp: online_def functions_set_def)
  from mqtt_network_write_spec [OF live assms(2,3)] obtain es k where
    r: "let w' = w\<lparr>tx := es, sent := sent w @ take k bs\<rparr> in length es \<le> length (tx w) \<and>
      (mqtt_network_write (Ptr bs) n w = Some (n, w') \<and> int k = n \<or>
       mqtt_network_write (Ptr bs) n w = Some (- 1, w') \<and> int k < n)"
    by blast
  define w' where "w' = w\<lparr>tx := es, sent := sent w @ take k bs\<rparr>"
  have s: "sends w (take k bs) w'"
    by (rule sendsI [where t = "ticks w" and x = es]) (simp_all add: w'_def)
  from r show thesis
    unfolding Let_def w'_def [symmetric]
  proof (elim conjE disjE)
    assume "mqtt_network_write (Ptr bs) n w = Some (n, w')" "int k = n"
    with s fn show thesis
      by (intro that(1) [of w']) (auto simp: ipstack_write_def)
  next
    assume "mqtt_network_write (Ptr bs) n w = Some (- 1, w')" "int k < n"
    with s fn show thesis
      by (intro that(2) [of w' k]) (auto simp: ipstack_write_def)
  qed
qed

lemma sendPacket_loop_spec:
  assumes "online w" "0 < n" "n \<le> int (length bs)"
  obtains w' where "sendPacket_loop bs n 0 timer w = Some (nat n, w')" "sends w (take (nat n) bs) w'"
  | w' k where "sendPacket_loop bs n 0 timer w = Some (0, w')" "sends w (take k bs) w'" "int k < n"
proof -
  obtain e w1 where e: "TimerIsExpired timer w = (e, w1)" by fastforce
  obtain ms w2 where ms: "TimerLeftMS timer w1 = (ms, w2)" by fastforce
  have s1: "sends w [] w1" and s2: "sends w [] w2"
    using sends_timer(1) [OF e] sends_trans [OF sends_timer(1) [OF e] sends_timer(2) [OF ms]] by simp_all
  show thesis
  proof (cases e)
    case True
    with e s1 assms show thesis
      by (intro that(2) [of w1 0]) (simp_all add: sendPacket_loop.simps)
  next
    case False
    note unfold = sendPacket_loop.simps [of bs n 0 timer w]
    have "online w2"
      using s2 assms(1) by (simp add: sends_sel)
    then show thesis
    proof (rule ipstack_write_spec [OF _ less_imp_le [OF assms(2)] assms(3)])
      fix w3 assume full: "ipstack_write (Ptr bs) n w2 = Some (n, w3)" "sends w2 (take (nat n) bs) w3"
      then have "sendPacket_loop bs n 0 timer w = sendPacket_loop bs n (nat n) timer w3"
        using e ms False assms by (simp add: unfold)
      then have "sendPacket_loop bs n 0 timer w = Some (nat n, w3)"
        using assms(2) by (simp add: sendPacket_loop.simps [of bs n "nat n"])
      then show thesis
        using that(1) sends_trans [OF s2 full(2)] by simp
    next
      fix w3 k assume partial: "ipstack_write (Ptr bs) n w2 = Some (- 1, w3)" "sends w2 (take k bs) w3" "int k < n"
      then have "sendPacket_loop bs n 0 timer w = Some (0, w3)"
        using e ms False assms by (simp add: unfold)
      then show thesis
        using that(2) sends_trans [OF s2 partial(2)] partial(3) by simp
    qed
  qed
qed

text \<open>\<open>t\<close> is a countdown of \<open>u\<close> seconds that was started in \<open>w\<close> or later.\<close>

definition countdown :: "u32 \<Rightarrow> 'app world \<Rightarrow> Timer \<Rightarrow> bool" where
  "countdown u w t \<longleftrightarrow> (\<exists>n \<ge> ticks w. t = fst (TimerCountdown u (w\<lparr>ticks := n\<rparr>)))"

lemma TimerCountdown_clock: "clock w' = clock w \<Longrightarrow> fst (TimerCountdown u (w\<lparr>ticks := ticks w'\<rparr>)) = fst (TimerCountdown u w')"
  by (simp add: TimerCountdown_def gettimeofday_def)

lemma countdownI:
  assumes "TimerCountdown u w' = (t, w'')" "clock w' = clock w" "ticks w \<le> ticks w'"
  shows "countdown u w t"
  unfolding countdown_def using assms TimerCountdown_clock [OF assms(2), of u]
  by (intro exI [of _ "ticks w'"]) simp

lemma countdown_later:
  assumes "countdown u w' t" "clock w' = clock w" "ticks w \<le> ticks w'"
  shows "countdown u w t"
proof -
  obtain n where n: "ticks w' \<le> n" "t = fst (TimerCountdown u (w'\<lparr>ticks := n\<rparr>))"
    using assms(1) by (auto simp: countdown_def)
  then show ?thesis
    using assms(2,3) by (intro countdownI [of u "w'\<lparr>ticks := n\<rparr>"]) (auto simp: prod_eq_iff)
qed

text \<open>\<^verbatim>\<open>sendPacket\<close> sends the first \<open>n\<close> bytes of the buffer and reports success, or a part of them and fails.\<close>

lemma sendPacket_spec:
  assumes "online w" "0 < n" "n \<le> int (length (sendbuf c))"
  obtains t w' where "sendPacket c n timer w = Some (MQTT_SUCCESS, c\<lparr>last_sent := t\<rparr>, w')"
      "sends w (take (nat n) (sendbuf c)) w'" "countdown (keepAliveInterval c) w t"
  | w' k where "sendPacket c n timer w = Some (FAILURE, c, w')" "sends w (take k (sendbuf c)) w'" "int k < n"
proof (rule sendPacket_loop_spec [OF assms, of timer])
  fix w1 assume full: "sendPacket_loop (sendbuf c) n 0 timer w = Some (nat n, w1)" "sends w (take (nat n) (sendbuf c)) w1"
  obtain t w2 where t: "TimerCountdown (keepAliveInterval c) w1 = (t, w2)" by fastforce
  with full assms(2) sends_trans [OF full(2) sends_timer(3) [OF t]] countdownI [OF t, of w] show thesis
    by (intro that(1) [of t w2]) (simp_all add: sendPacket_def sends_sel)
next
  fix w1 k assume "sendPacket_loop (sendbuf c) n 0 timer w = Some (0, w1)" "sends w (take k (sendbuf c)) w1" "int k < n"
  with assms(2) show thesis
    by (intro that(2) [of w1 k]) (simp_all add: sendPacket_def)
qed

text \<open>The PUBLISH packet for a message.\<close>

definition publish_of :: "cptr \<Rightarrow> MQTTMessage \<Rightarrow> publish" where
  "publish_of topicName m = \<lparr>pub_dup = 0, pub_qos = msg_qos m, pub_retained = msg_retained m, pub_packetid = msg_id m,
     pub_topicName = topic_string topicName, pub_payload = msg_payload m,
     pub_payloadlen = size_to_int (msg_payloadlen m)\<rparr>"

definition small_buffers :: "'app MQTTClient \<Rightarrow> bool" where
  "small_buffers c \<longleftrightarrow> unat (buf_size c) < 2147483648 \<and> unat (readbuf_size c) < 2147483648"

lemma size_to_int_small: "unat n < 2147483648 \<Longrightarrow> size_to_int n = int (unat n)"
proof -
  assume "unat n < 2147483648"
  then have "int (unat n) < 2147483648"
    by linarith
  moreover have "- 2147483648 \<le> uint n"
    using uint_ge_0 [of n] by linarith
  ultimately show ?thesis
    by (simp add: size_to_int_def)
qed

lemma MQTTPublish_qos0:
  assumes inv: "client_inv c" "small_buffers c" and w: "online w" and c: "isconnected c \<noteq> 0"
    and m: "msg_qos m = QOS0" "publish_valid (publish_of topicName m)"
  shows "\<exists>rc c' w'. MQTTPublish c topicName m w = Some (rc, m, c', w') \<and>
    (rc = MQTT_SUCCESS \<and> sends w (publish_wire (publish_of topicName m)) w' \<and> isconnected c' = isconnected c \<or>
     rc = FAILURE \<and> isconnected c' = 0 \<and>
       (\<exists>k < length (publish_wire (publish_of topicName m)). sends w (take k (publish_wire (publish_of topicName m))) w'))"
proof -
  let ?a = "publish_of topicName m"
  obtain timer w1 where t: "TimerCountdownMS (command_timeout_ms c) w = (timer, w1)" by fastforce
  have s1: "sends w [] w1"
    by (rule sends_timer(4) [OF t])
  have size: "size_to_int (buf_size c) = int (length (sendbuf c))"
    using inv by (simp add: client_inv_def small_buffers_def size_to_int_small)
  have closed: "isconnected (MQTTCloseSession c) = 0" for c :: "'a MQTTClient"
    by (simp add: MQTTCloseSession_def MQTTCleanSession_def Let_def)
  have wire: "0 < length (publish_wire ?a)"
    by (simp add: publish_wire_def length_packet_bytes)
  from publish_ser.never_faults [OF m(2), of "int (length (sendbuf c))" "sendbuf c"]
  obtain n b where ser: "MQTTSerialize_publish (sendbuf c) (size_to_int (buf_size c)) ?a = Some (n, b)"
    "n = MQTTPACKET_BUFFER_TOO_SHORT \<or> n = int (length (publish_wire ?a)) \<and> n \<le> int (length b) \<and> take (nat n) b = publish_wire ?a"
    by (auto simp: size)
  define c1 where "c1 = c\<lparr>sendbuf := b\<rparr>"
  have pub: "MQTTPublish c topicName m w =
      (if n \<le> 0 then Some (FAILURE, m, MQTTCloseSession c1, w1)
       else sendPacket c1 n timer w1 \<bind> (\<lambda>(rc, c, w). Some (rc, m, close_on_failure rc c, w)))"
    using c t m(1) ser(1)
    by (cases "sendPacket c1 n timer w1") (auto simp: MQTTPublish_def publish_of_def close_on_failure_def c1_def)
  from ser(2) show ?thesis
  proof
    assume "n = MQTTPACKET_BUFFER_TOO_SHORT"
    then show ?thesis
      using pub s1 wire closed by (auto simp: MQTTPACKET_BUFFER_TOO_SHORT_def intro!: exI [of _ 0])
  next
    assume n: "n = int (length (publish_wire ?a)) \<and> n \<le> int (length b) \<and> take (nat n) b = publish_wire ?a"
    have take: "take k b = take k (publish_wire ?a)" if "int k < n" for k
    proof -
      have "min k (nat n) = k"
        using that by linarith
      then have "take k (take (nat n) b) = take k b"
        by simp
      then show ?thesis
        using n by metis
    qed
    have "0 < n" "n \<le> int (length (sendbuf c1))" "online w1"
      using n wire w s1 by (simp_all add: c1_def sends_sel)
    then have pre: "online w1" "0 < n" "n \<le> int (length (sendbuf c1))"
      by simp_all
    show ?thesis
    proof (rule sendPacket_spec [OF pre, of timer])
      fix t w2
      assume "sendPacket c1 n timer w1 = Some (MQTT_SUCCESS, c1\<lparr>last_sent := t\<rparr>, w2)" "sends w1 (take (nat n) (sendbuf c1)) w2"
      then show ?thesis
        using pub n \<open>0 < n\<close> sends_trans [OF s1, of "take (nat n) (sendbuf c1)" w2]
        by (auto simp: c1_def close_on_failure_def)
    next
      fix w2 k
      assume "sendPacket c1 n timer w1 = Some (FAILURE, c1, w2)" "sends w1 (take k (sendbuf c1)) w2" "int k < n"
      then show ?thesis
        using pub n \<open>0 < n\<close> sends_trans [OF s1, of "take k (sendbuf c1)" w2] take [of k] closed
        by (auto simp: c1_def close_on_failure_def)
    qed
  qed
qed

subsection \<open>Receiving\<close>

text \<open>\<open>w'\<close> differs from \<open>w\<close> by input that was consumed and the time that has passed.\<close>

definition reads :: "'app world \<Rightarrow> 'app world \<Rightarrow> bool" where
  "reads w w' \<longleftrightarrow> (\<exists>t r. ticks w \<le> t \<and> w' = w\<lparr>ticks := t, rx := r\<rparr>)"

lemma readsI: "ticks w \<le> t \<Longrightarrow> w' = w\<lparr>ticks := t, rx := r\<rparr> \<Longrightarrow> reads w w'"
  unfolding reads_def by blast

lemma reads_sel:
  assumes "reads w w'"
  shows "sent w' = sent w" "app w' = app w" "tx w' = tx w" "online w' \<longleftrightarrow> online w" "clock w' = clock w"
    "publish_junk w' = publish_junk w" "ticks w \<le> ticks w'"
  using assms by (auto simp: reads_def online_def functions_set_def publish_junk_def)

lemma reads_refl: "reads w w"
  by (rule readsI [where t = "ticks w" and r = "rx w"]) simp_all

lemma reads_trans: "reads w w' \<Longrightarrow> reads w' w'' \<Longrightarrow> reads w w''"
  unfolding reads_def by (elim exE conjE, intro exI conjI) (rule order_trans, simp_all)

lemma reads_ticks: "ticks w \<le> t \<Longrightarrow> reads w (w\<lparr>ticks := t\<rparr>)"
  by (rule readsI [where t = t and r = "rx w"]) simp_all

lemma ipstack_read_reads: "ipstack_read n w = Some (rc, bs, w') \<Longrightarrow> reads w w'"
proof (cases "0 < n")
  case True
  assume "ipstack_read n w = Some (rc, bs, w')"
  then have "mqtt_network_read n w = Some (rc, bs, w')"
    by (auto simp: ipstack_read_def split: if_splits)
  from mqtt_network_read_result [OF this True] show ?thesis
    by (auto intro: readsI [where t = "ticks w"])
next
  case False
  assume "ipstack_read n w = Some (rc, bs, w')"
  with False show ?thesis
    by (auto simp: ipstack_read_def mqtt_network_read_def network_read_loop.simps reads_refl split: if_splits)
qed

lemma decode_loop_reads: "decode_loop ipstack_read l m v w = Some (k, v', w') \<Longrightarrow> reads w w'"
proof (induction "ipstack_read :: 'a world getfn" l m v w rule: decode_loop.induct)
  case (1 l m v w)
  show ?case
  proof (cases "l + 1 > 4")
    case True
    with "1.prems" show ?thesis
      by (simp add: decode_loop.simps [of _ l] reads_refl)
  next
    case False
    with "1.prems" obtain rc cs w1 where r: "ipstack_read 1 w = Some (rc, cs, w1)"
      by (auto simp: decode_loop.simps [of _ l] bind_eq_Some_conv)
    note w1 = ipstack_read_reads [OF r]
    show ?thesis
    proof (cases "rc = 1")
      case True
      with "1.prems" False r obtain c where c: "fetch cs 0 = Some c"
        by (auto simp: decode_loop.simps [of _ l] bind_eq_Some_conv)
      show ?thesis
      proof (cases "c AND 128 = 0")
        case True
        with "1.prems" False r c \<open>rc = 1\<close> w1 show ?thesis
          by (simp add: decode_loop.simps [of _ l])
      next
        case nz: False
        with "1.prems" False r c \<open>rc = 1\<close>
        have "decode_loop ipstack_read (l + 1) (m * 128) (v + uint (c AND 127) * m) w1 = Some (k, v', w')"
          by (simp add: decode_loop.simps [of _ l])
        with "1.hyps" [OF False r refl refl _ c refl refl nz] \<open>rc = 1\<close> have "reads w1 w'"
          by simp
        with w1 show ?thesis
          by (rule reads_trans)
      qed
    next
      case neq: False
      with "1.prems" False r w1 show ?thesis
        by (simp add: decode_loop.simps [of _ l])
    qed
  qed
qed

lemma decodePacket_reads: "decodePacket w = Some (k, v, w') \<Longrightarrow> reads w w'"
  by (auto simp: decodePacket_def MQTTPacket_decode_def dest: decode_loop_reads)

text \<open>The three reads of \<^verbatim>\<open>readPacket\<close> on a stream that starts with a packet.\<close>

lemma readable_ticks [simp]: "readable (w\<lparr>ticks := t\<rparr>) = readable w"
  by (simp add: readable_def pending_def)

lemma readPacket_header:
  assumes s: "readable w = packet_bytes h body @ rest" and body: "length body < 268435456"
    and buf: "1 + length (remlen_bytes (length body)) \<le> length (readbuf c)"
  obtains w' where "readPacket c timer w = readPacket_body
      (c\<lparr>readbuf := overwrite (readbuf c) 0 (h # remlen_bytes (length body))\<rparr>)
      (1 + int (length (remlen_bytes (length body)))) (int (length body)) timer w'"
    "readable w' = body @ rest" "reads w w'"
proof -
  let ?r = "remlen_bytes (length body)" and ?w1 = "w\<lparr>ticks := ticks w + 1\<rparr>"
  obtain w2 where w2: "ipstack_read 1 ?w1 = Some (1, [h], w2)" "readable w2 = ?r @ body @ rest"
    using network.get_char [of ?w1 h "?r @ body @ rest"] s by (auto simp: packet_bytes_def)
  let ?w3 = "w2\<lparr>ticks := ticks w2 + 1\<rparr>"
  obtain w4 where w4: "decodePacket ?w3 = Some (int (length ?r), int (length body), w4)" "readable w4 = body @ rest"
    using network.decode_remlen [of ?w3 "length body" "body @ rest"] w2(2) body by (auto simp: decodePacket_def)
  have b: "put (readbuf c) 0 [h] = Some (overwrite (readbuf c) 0 [h])"
    using buf by (simp add: put_def)
  have e: "MQTTPacket_encode (overwrite (readbuf c) 0 [h], 1) (int (length body)) =
      Some (int (length ?r), overwrite (readbuf c) 0 (h # ?r))"
    using buf overwrite_overwrite [of 0 "[h]" ?r "readbuf c"] by (simp add: MQTTPacket_encode_emit)
  have "reads w w4"
    using reads_ticks [OF le_add1, of w 1] ipstack_read_reads [OF w2(1)] reads_ticks [OF le_add1, of w2 1]
      decodePacket_reads [OF w4(1)] by (blast intro: reads_trans)
  moreover have "readPacket c timer w = readPacket_body (c\<lparr>readbuf := overwrite (readbuf c) 0 (h # ?r)\<rparr>)
      (1 + int (length ?r)) (int (length body)) timer w4"
    using w2(1) w4(1) b e by (simp add: readPacket_def)
  ultimately show thesis
    using that w4(2) by blast
qed

lemma readPacket_done_spec:
  assumes "fetch (readbuf c) 0 = Some h"
  obtains t w' where "readPacket_done c w = Some (header_type h, c\<lparr>last_received := t\<rparr>, w')" "reads w w'"
    "readable w' = readable w" "t = last_received c \<or> countdown (keepAliveInterval c) w t"
proof (cases "keepAliveInterval c > 0")
  case True
  obtain t w1 where t: "TimerCountdown (keepAliveInterval c) w = (t, w1)" by fastforce
  then have "w1 = w\<lparr>ticks := ticks w + 1\<rparr>"
    using timer_frame(3) [of "keepAliveInterval c" w] by simp
  with True t assms show thesis
    by (intro that [of t w1]) (simp_all add: readPacket_done_def reads_ticks countdownI [OF t])
next
  case False
  with assms show thesis
    by (intro that [of "last_received c" w]) (simp_all add: readPacket_done_def reads_refl)
qed

text \<open>The comparison of \<^verbatim>\<open>size_t\<close> values before the body is read.\<close>

lemma size_t_fits:
  fixes size :: size_t
  assumes "b \<le> unat size" "unat size < 2147483648" "a < 268435456"
  shows "word_of_int (int a) > size - word_of_int (int b) \<longleftrightarrow> unat size < b + a"
proof -
  have "unat (word_of_nat b :: size_t) = b" "unat (word_of_nat a :: size_t) = a"
    using assms by (simp_all add: unat_of_nat)
  moreover have "word_of_nat b \<le> size"
    using assms by (simp add: word_le_nat_alt unat_of_nat)
  ultimately have "unat (size - word_of_nat b) = unat size - b"
    by (simp add: unat_sub)
  then show ?thesis
    using assms(1) \<open>unat (word_of_nat a) = a\<close> by (auto simp: word_less_nat_alt)
qed

text \<open>A packet that fits is stored as a whole at the front of the receive buffer, and nothing behind it is read.\<close>

lemma readPacket_receives:
  assumes inv: "client_inv c" "small_buffers c" and s: "readable w = packet_bytes h body @ rest"
    and body: "length body < 268435456" and fits: "length (packet_bytes h body) \<le> length (readbuf c)"
  obtains t w' where "readPacket c timer w = Some (header_type h,
      c\<lparr>readbuf := overwrite (readbuf c) 0 (packet_bytes h body), last_received := t\<rparr>, w')" "reads w w'" "readable w' = rest"
    "t = last_received c \<or> countdown (keepAliveInterval c) w t"
proof -
  let ?r = "remlen_bytes (length body)"
  have len: "1 + length ?r + length body \<le> length (readbuf c)" "length (readbuf c) = unat (readbuf_size c)"
    "length (readbuf c) < 2147483648"
    using fits inv by (simp_all add: length_packet_bytes client_inv_def small_buffers_def)
  define c1 where "c1 = c\<lparr>readbuf := overwrite (readbuf c) 0 (h # ?r)\<rparr>"
  have h: "1 + length ?r \<le> length (readbuf c)"
    using len(1) by simp
  show thesis
  proof (rule readPacket_header [OF s body h, of timer])
    fix w1
    assume w1: "readPacket c timer w = readPacket_body (c\<lparr>readbuf := overwrite (readbuf c) 0 (h # ?r)\<rparr>)
        (1 + int (length ?r)) (int (length body)) timer w1" "readable w1 = body @ rest" "reads w w1"
    have small: "\<not> word_of_int (int (length body)) > readbuf_size c1 - word_of_int (int (1 + length ?r))"
      using size_t_fits [of "1 + length ?r" "readbuf_size c1" "length body"] len body by (simp add: c1_def)
    define c2 where "c2 = c\<lparr>readbuf := overwrite (readbuf c) 0 (packet_bytes h body)\<rparr>"
    obtain w2 where w2: "readPacket_body c1 (1 + int (length ?r)) (int (length body)) timer w1 = readPacket_done c2 w2"
      "reads w1 w2" "readable w2 = rest"
    proof (cases "body = []")
      case True
      then show thesis
        using that [of w1] w1(2) small by (simp add: readPacket_body_def c1_def c2_def packet_bytes_def reads_refl)
    next
      case False
      let ?w = "w1\<lparr>ticks := ticks w1 + 1\<rparr>"
      obtain w2 where w2: "ipstack_read (int (length body)) ?w = Some (int (length body), body, w2)" "readable w2 = rest"
        using network.get_bytes [of "length body" ?w] w1(2) False by auto
      have "put (readbuf c1) (1 + length ?r) body = Some (readbuf c2)"
        using len overwrite_overwrite [of 0 "h # ?r" body "readbuf c"]
        by (simp add: put_def c1_def c2_def packet_bytes_def)
      then have "readPacket_body c1 (1 + int (length ?r)) (int (length body)) timer w1 = readPacket_done c2 w2"
        using False small w2(1) by (simp add: readPacket_body_def nat_add_distrib c1_def c2_def)
      then show thesis
        using that w2(2) reads_trans [OF reads_ticks [OF le_add1] ipstack_read_reads [OF w2(1)]] by blast
    qed
    have "fetch (readbuf c2) 0 = Some h"
      using len by (simp add: c2_def packet_bytes_def overwrite_def fetch_def)
    then show thesis
    proof (rule readPacket_done_spec [of c2 h w2])
      fix t w3
      assume "readPacket_done c2 w2 = Some (header_type h, c2\<lparr>last_received := t\<rparr>, w3)" "reads w2 w3" "readable w3 = readable w2"
        "t = last_received c2 \<or> countdown (keepAliveInterval c2) w2 t"
      moreover have "reads w w2"
        using w1(3) w2(2) by (rule reads_trans)
      moreover from this have "countdown u w2 t \<Longrightarrow> countdown u w t" for u
        using countdown_later [of u w2 t w] by (simp add: reads_sel)
      ultimately show thesis
        using w1(1) w2(1,3) unfolding c1_def [symmetric]
        by (intro that [of t w3]) (auto simp: c2_def intro: reads_trans)
    qed
  qed
qed

end
