(* ===== verification/Topic_Filter.thy ===== *)
theory Topic_Filter
  imports Client
begin

text \<open>
  Topic filters: the cursor loops of \<^verbatim>\<open>isTopicMatched\<close> compute a recursive matching function on byte lists,
  which agrees with the matching of topic levels in the MQTT standard, with two exceptions.
\<close>

subsection \<open>Matching of bytes\<close>

fun match_bytes :: "byte list \<Rightarrow> byte list \<Rightarrow> bool" where
  "match_bytes [] ns = (ns = [])"
| "match_bytes (f # fs) [] = False"
| "match_bytes (f # fs) (n # ns) =
     (if n = 47 \<and> f \<noteq> 47 then False
      else if f = 43 then match_bytes fs (dropWhile (\<lambda>b. b \<noteq> 47) ns)
      else if f = 35 then match_bytes fs []
      else f = n \<and> match_bytes fs ns)"

lemma plus_skip_takeWhile:
  "curn < length ns \<Longrightarrow> length ns \<le> length d \<Longrightarrow> take (length ns) d = ns \<Longrightarrow>
   plus_skip d curn (int (length ns)) = Some (curn + length (takeWhile (\<lambda>b. b \<noteq> 47) (drop (curn + 1) ns)))"
proof (induction "length ns - curn" arbitrary: curn rule: less_induct)
  case less
  show ?case
  proof (cases "curn + 1 < length ns")
    case True
    then have d: "d ! (curn + 1) = ns ! (curn + 1)" "drop (curn + 1) ns = ns ! (curn + 1) # drop (curn + 2) ns"
      using less.prems Cons_nth_drop_Suc [of "curn + 1" ns] nth_take [of "curn + 1" "length ns" d] by simp_all
    show ?thesis
    proof (cases "ns ! (curn + 1) = 47")
      case True
      with d \<open>curn + 1 < length ns\<close> less.prems show ?thesis
        by (subst plus_skip.simps) simp
    next
      case False
      have "plus_skip d (curn + 1) (int (length ns)) =
          Some (curn + 1 + length (takeWhile (\<lambda>b. b \<noteq> 47) (drop (curn + 1 + 1) ns)))"
        using True less.prems by (intro less.hyps) auto
      with False d True less.prems show ?thesis
        by (subst plus_skip.simps) (simp add: numeral_2_eq_2)
    qed
  next
    case False
    with less.prems show ?thesis
      by (subst plus_skip.simps) simp
  qed
qed

lemma drop_takeWhile_dropWhile: "drop (length (takeWhile P xs)) xs = dropWhile P xs"
  by (induction xs) auto

lemma topic_loop_match:
  assumes f: "f = fs @ 0 # r" "0 \<notin> set fs" and d: "length ns \<le> length d" "take (length ns) d = ns"
    and "curf \<le> length fs" "curn \<le> length ns"
  shows "\<exists>cf cn. topic_loop f d (int (length ns)) curf curn = Some (cf, cn) \<and> cf \<le> length fs \<and>
    (cn = length ns \<and> cf = length fs \<longleftrightarrow> match_bytes (drop curf fs) (drop curn ns))"
  using assms(5,6)
proof (induction "length fs - curf" arbitrary: curf curn rule: less_induct)
  case less
  show ?case
  proof (cases "curf < length fs \<and> curn < length ns")
    case False
    then have "topic_loop f d (int (length ns)) curf curn = Some (curf, curn)"
      using less.prems f by (subst topic_loop.simps) (auto simp: nth_append)
    moreover have "match_bytes (drop curf fs) (drop curn ns) \<longleftrightarrow> curf = length fs \<and> curn = length ns"
      using False less.prems by (cases "drop curf fs"; cases "drop curn ns") auto
    ultimately show ?thesis
      using less.prems by auto
  next
    case True
    define a where "a = fs ! curf"
    define b where "b = ns ! curn"
    have ab: "f ! curf = a" "a \<noteq> 0" "d ! curn = b" "curf < length f" "curn < length d"
      "drop curf fs = a # drop (curf + 1) fs" "drop curn ns = b # drop (curn + 1) ns"
    proof -
      show "f ! curf = a" "curf < length f" "curn < length d"
        using True f d(1) by (simp_all add: a_def nth_append)
      show "a \<noteq> 0"
        using True f(2) nth_mem [of curf fs] unfolding a_def by metis
      show "d ! curn = b"
        using True d(2) nth_take [of curn "length ns" d] by (simp add: b_def)
      show "drop curf fs = a # drop (curf + 1) fs" "drop curn ns = b # drop (curn + 1) ns"
        using True by (simp_all add: a_def b_def Cons_nth_drop_Suc)
    qed
    note unfold = topic_loop.simps [of f d "int (length ns)" curf curn]
    have ih: "\<exists>cf cn. topic_loop f d (int (length ns)) (curf + 1) k = Some (cf, cn) \<and> cf \<le> length fs \<and>
        (cn = length ns \<and> cf = length fs \<longleftrightarrow> match_bytes (drop (curf + 1) fs) (drop k ns))" if "k \<le> length ns" for k
      using True that by (intro less.hyps) auto
    consider "b = 47 \<and> a \<noteq> 47 \<or> a \<noteq> 43 \<and> a \<noteq> 35 \<and> a \<noteq> b" | "a = 43" "b \<noteq> 47" | "a = 35" "b \<noteq> 47"
      | "a \<noteq> 43" "a \<noteq> 35" "a = b"
      by fastforce
    then show ?thesis
    proof cases
      case 1
      then have "topic_loop f d (int (length ns)) curf curn = Some (curf, curn)"
        using True ab by (auto simp: unfold)
      then show ?thesis
        using 1 ab True by auto
    next
      case 2
      let ?k = "curn + 1 + length (takeWhile (\<lambda>b. b \<noteq> 47) (drop (curn + 1) ns))"
      have "?k \<le> length ns"
        using True length_takeWhile_le [of "\<lambda>b. b \<noteq> 47" "drop (curn + 1) ns"] by (simp; linarith)
      moreover have "drop ?k ns = dropWhile (\<lambda>b. b \<noteq> 47) (drop (curn + 1) ns)"
        using drop_takeWhile_dropWhile [of "\<lambda>b. b \<noteq> 47" "drop (curn + 1) ns"] by (simp add: add.commute)
      moreover have "topic_loop f d (int (length ns)) curf curn = topic_loop f d (int (length ns)) (curf + 1) ?k"
        using 2 True ab plus_skip_takeWhile [OF _ d] by (simp add: unfold)
      ultimately show ?thesis
        using ih [of ?k] 2 ab by simp
    next
      case 3
      have "nat (int (length ns) - 1) + 1 = length ns"
        using True by linarith
      then have "topic_loop f d (int (length ns)) curf curn = topic_loop f d (int (length ns)) (curf + 1) (length ns)"
        using 3 True ab by (simp add: unfold)
      then show ?thesis
        using ih [of "length ns"] 3 ab by simp
    next
      case 4
      then have "topic_loop f d (int (length ns)) curf curn = topic_loop f d (int (length ns)) (curf + 1) (curn + 1)"
        using True ab by (simp add: unfold)
      then show ?thesis
        using ih [of "curn + 1"] 4 ab True by simp
    qed
  qed
qed

text \<open>A topic name as the packet parser yields it, and a filter as a C string.\<close>

definition topic_name :: "MQTTString \<Rightarrow> byte list \<Rightarrow> bool" where
  "topic_name m ns \<longleftrightarrow> len (lenstring m) = int (length ns) \<and> data (lenstring m) \<noteq> Wild \<and>
     bytes_at (data (lenstring m)) (length ns) = Some ns"

lemma isTopicMatched_bytes:
  assumes "cstring_of tf fs" "topic_name m ns"
  shows "isTopicMatched tf m = Some (match_bytes fs ns)"
proof -
  obtain r where tf: "tf = Ptr (fs @ 0 # r)" "0 \<notin> set fs"
    using assms(1) by (cases tf) (auto simp: cstring_of_def)
  obtain d where d: "object_bytes (data (lenstring m)) = Some d" "length ns \<le> length d" "take (length ns) d = ns"
    using assms(2) by (cases "data (lenstring m)") (auto simp: topic_name_def split: if_splits)
  from topic_loop_match [OF refl tf(2) d(2,3), of 0 0 r]
  obtain cf cn where l: "topic_loop (fs @ 0 # r) d (int (length ns)) 0 0 = Some (cf, cn)" "cf \<le> length fs"
    "cn = length ns \<and> cf = length fs \<longleftrightarrow> match_bytes fs ns"
    by auto
  have "(fs @ 0 # r) ! cf = 0 \<longleftrightarrow> cf = length fs"
    using l(2) tf(2) by (cases "cf < length fs") (auto simp: nth_append dest: nth_mem)
  then show ?thesis
    using assms(2) tf(1) d(1) l by (auto simp: isTopicMatched_def topic_name_def)
qed

subsection \<open>Matching of levels\<close>

text \<open>
  A topic is a sequence of levels separated by slashes. In a filter a level can be a single \<open>+\<close>, which
  stands for any level, and the last level a single \<open>#\<close>, which stands for any number of levels.
\<close>

fun join_levels :: "byte list list \<Rightarrow> byte list" where
  "join_levels [] = []"
| "join_levels [l] = l"
| "join_levels (l # ls) = l @ 47 # join_levels ls"

fun mqtt_match :: "byte list list \<Rightarrow> byte list list \<Rightarrow> bool" where
  "mqtt_match [] ns = (ns = [])"
| "mqtt_match (f # fs) ns =
     (if f = [35] \<and> fs = [] then True
      else case ns of [] \<Rightarrow> False | n # ns \<Rightarrow> (f = [43] \<or> f = n) \<and> mqtt_match fs ns)"

definition plain_level :: "byte list \<Rightarrow> bool" where
  "plain_level l \<longleftrightarrow> set l \<inter> {0, 35, 43, 47} = {}"

fun valid_filter :: "byte list list \<Rightarrow> bool" where
  "valid_filter [] = False"
| "valid_filter [f] = (f = [35] \<or> f = [43] \<or> plain_level f)"
| "valid_filter (f # fs) = ((f = [43] \<or> plain_level f) \<and> valid_filter fs)"

definition topic_levels :: "byte list list \<Rightarrow> bool" where
  "topic_levels ns \<longleftrightarrow> ns \<noteq> [] \<and> (\<forall>n \<in> set ns. 47 \<notin> set n)"

lemma match_plain:
  assumes "plain_level f" "47 \<notin> set n"
  shows "match_bytes (f @ 47 # fs) (n @ 47 # ns) \<longleftrightarrow> f = n \<and> match_bytes fs ns"
    and "match_bytes (f @ 47 # fs) n \<longleftrightarrow> False"
    and "match_bytes f (n @ 47 # ns) \<longleftrightarrow> False"
    and "match_bytes f n \<longleftrightarrow> f = n"
  using assms
proof (induction f arbitrary: n)
  case Nil
  {
    case 1 then show ?case by (cases n) auto
  next
    case 2 then show ?case by (cases n) auto
  next
    case 3 then show ?case by simp
  next
    case 4 then show ?case by auto
  }
next
  case (Cons a f)
  have a: "a \<noteq> 35" "a \<noteq> 43" "a \<noteq> 47" "plain_level f" if "plain_level (a # f)"
    using that by (auto simp: plain_level_def)
  {
    case 1 then show ?case using a Cons.IH(1) by (cases n) auto
  next
    case 2 then show ?case using a Cons.IH(2) by (cases n) auto
  next
    case 3 then show ?case using a Cons.IH(3) by (cases n) auto
  next
    case 4 then show ?case using a Cons.IH(4) by (cases n) auto
  }
qed

lemma match_plus:
  assumes "n \<noteq> []" "47 \<notin> set n"
  shows "match_bytes (43 # 47 # fs) (n @ 47 # ns) \<longleftrightarrow> match_bytes fs ns"
    and "match_bytes (43 # 47 # fs) n \<longleftrightarrow> False"
    and "match_bytes [43] (n @ 47 # ns) \<longleftrightarrow> False"
    and "match_bytes [43] n \<longleftrightarrow> True"
proof -
  obtain b bs where n: "n = b # bs" "b \<noteq> 47" "47 \<notin> set bs"
    using assms by (cases n) auto
  from n(3) have "dropWhile (\<lambda>b. b \<noteq> 47) (bs @ 47 # ns) = 47 # ns" "dropWhile (\<lambda>b. b \<noteq> 47) bs = []"
    by (induction bs) auto
  then show "match_bytes (43 # 47 # fs) (n @ 47 # ns) \<longleftrightarrow> match_bytes fs ns"
    "match_bytes (43 # 47 # fs) n \<longleftrightarrow> False" "match_bytes [43] (n @ 47 # ns) \<longleftrightarrow> False" "match_bytes [43] n \<longleftrightarrow> True"
    using n by (simp_all del: dropWhile_eq_Nil_conv)
qed

lemma match_hash: "n \<noteq> [] \<Longrightarrow> 47 \<notin> set n \<Longrightarrow> match_bytes [35] (n @ ns)"
  by (cases n) auto

text \<open>
  Two exceptions. The filter \<open>x/#\<close> also matches its parent level \<open>x\<close> in the standard, but not in
  the code; and in the code a wildcard does not stand for a level that is empty, or start with one.
\<close>

definition parent_match :: "byte list list \<Rightarrow> byte list list \<Rightarrow> bool" where
  "parent_match fs ns \<longleftrightarrow> last fs = [35] \<and> length ns < length fs"

definition empty_match :: "byte list list \<Rightarrow> byte list list \<Rightarrow> bool" where
  "empty_match fs ns \<longleftrightarrow> (\<exists>(f, n) \<in> set (zip fs ns). f \<in> {[43], [35]} \<and> n = [])"

lemma match_level:
  assumes "f = [43] \<or> plain_level f" "47 \<notin> set n"
  shows "match_bytes (f @ 47 # fs) (n @ 47 # ns) \<longleftrightarrow> (if f = [43] then n \<noteq> [] else f = n) \<and> match_bytes fs ns"
    and "match_bytes (f @ 47 # fs) n \<longleftrightarrow> False"
    and "match_bytes f (n @ 47 # ns) \<longleftrightarrow> False"
    and "match_bytes f n \<longleftrightarrow> (if f = [43] then n \<noteq> [] else f = n)"
proof -
  consider "f = [43]" "n = []" | "f = [43]" "n \<noteq> []" | "plain_level f" "f \<noteq> [43]"
    using assms(1) by (auto simp: plain_level_def)
  note cs = this
  show "match_bytes (f @ 47 # fs) (n @ 47 # ns) \<longleftrightarrow> (if f = [43] then n \<noteq> [] else f = n) \<and> match_bytes fs ns"
    using match_plain(1) [OF _ assms(2)] match_plus(1) [OF _ assms(2)] by (cases rule: cs) simp_all
  show "match_bytes (f @ 47 # fs) n \<longleftrightarrow> False"
    using match_plain(2) [OF _ assms(2)] match_plus(2) [OF _ assms(2)] by (cases rule: cs) simp_all
  show "match_bytes f (n @ 47 # ns) \<longleftrightarrow> False"
    using match_plain(3) [OF _ assms(2)] match_plus(3) [OF _ assms(2)] by (cases rule: cs) simp_all
  show "match_bytes f n \<longleftrightarrow> (if f = [43] then n \<noteq> [] else f = n)"
    using match_plain(4) [OF _ assms(2)] match_plus(4) [OF _ assms(2)] by (cases rule: cs) simp_all
qed

lemma match_hash_level:
  assumes "47 \<notin> set n"
  shows "match_bytes [35] n \<longleftrightarrow> n \<noteq> []" "match_bytes [35] (n @ 47 # ns) \<longleftrightarrow> n \<noteq> []"
  using match_hash [OF _ assms, of "[]"] match_hash [OF _ assms, of "47 # ns"] by (cases "n = []"; simp)+

lemma match_levels:
  "valid_filter fs \<Longrightarrow> topic_levels ns \<Longrightarrow>
   match_bytes (join_levels fs) (join_levels ns) \<longleftrightarrow> mqtt_match fs ns \<and> \<not> parent_match fs ns \<and> \<not> empty_match fs ns"
proof (induction fs arbitrary: ns)
  case (Cons f fs)
  obtain n ns' where ns: "ns = n # ns'" "47 \<notin> set n"
    using Cons.prems(2) by (cases ns) (auto simp: topic_levels_def)
  show ?case
  proof (cases fs)
    case Nil
    have "match_bytes f (join_levels ns) \<longleftrightarrow> (if f = [35] then n \<noteq> [] else ns' = [] \<and> (if f = [43] then n \<noteq> [] else f = n))"
      using Cons.prems(1) ns Nil match_level [of f n] match_hash_level [of n] by (cases ns') auto
    moreover have "parent_match [f] ns = False" "empty_match [f] ns \<longleftrightarrow> (f = [43] \<or> f = [35]) \<and> n = []"
      using ns by (auto simp: parent_match_def empty_match_def)
    ultimately show ?thesis
      using ns Nil by auto
  next
    case (Cons g gs)
    then have f: "f = [43] \<or> plain_level f" "valid_filter fs" "f \<noteq> [35]"
      using Cons.prems(1) by (auto simp: plain_level_def)
    show ?thesis
    proof (cases ns')
      case Nil
      have "parent_match (f # fs) ns" if "mqtt_match fs []"
        using that f(2) Cons Nil ns by (cases gs) (auto simp: parent_match_def split: if_splits)
      moreover have "match_bytes (join_levels (f # fs)) (join_levels ns) = False"
        using match_level(2) [OF f(1) ns(2)] Cons Nil ns(1) by simp
      ultimately show ?thesis
        using Cons Nil ns f(3) by auto
    next
      fix m ms assume ms: "ns' = m # ms"
      then have "match_bytes (join_levels fs) (join_levels ns') \<longleftrightarrow> mqtt_match fs ns' \<and> \<not> parent_match fs ns' \<and> \<not> empty_match fs ns'"
        using Cons.prems(2) f(2) ns by (intro Cons.IH) (auto simp: topic_levels_def)
      moreover have "match_bytes (join_levels (f # fs)) (join_levels ns) \<longleftrightarrow>
          (if f = [43] then n \<noteq> [] else f = n) \<and> match_bytes (join_levels fs) (join_levels ns')"
        using match_level(1) [OF f(1) ns(2)] Cons ms ns(1) by simp
      moreover have "parent_match (f # fs) ns \<longleftrightarrow> parent_match fs ns'"
        "empty_match (f # fs) ns \<longleftrightarrow> f = [43] \<and> n = [] \<or> empty_match fs ns'"
        using Cons ns f(3) by (auto simp: parent_match_def empty_match_def)
      moreover have "mqtt_match (f # fs) ns \<longleftrightarrow> (f = [43] \<or> f = n) \<and> mqtt_match fs ns'"
        using Cons ns(1) by simp
      ultimately show ?thesis
        by auto
    qed
  qed
qed simp

text \<open>
  C7. \<^verbatim>\<open>isTopicMatched\<close> against the MQTT standard. For a well-formed topic filter and any topic name, empty
  levels included, the cursor loop of the code decides the matching of levels of the standard, with
  two exceptions: a filter ending in \<open>/#\<close> does not match the topic of its parent level, and a filter
  does not match if a \<open>+\<close> stands for an empty level or the levels of the \<open>#\<close> begin with an empty one.
\<close>

theorem isTopicMatched_standard:
  assumes "valid_filter fs" "topic_levels ns" "cstring_of tf (join_levels fs)" "topic_name topicName (join_levels ns)"
  shows "isTopicMatched tf topicName = Some (mqtt_match fs ns \<and> \<not> parent_match fs ns \<and> \<not> empty_match fs ns)"
  using assms by (simp add: isTopicMatched_bytes match_levels)

text \<open>The filter \<open>a/+/#\<close> matches the topic \<open>a/b/c/d\<close>; the filter \<open>+/a\<close> does not match \<open>/a\<close>, though it should.\<close>

theorem isTopicMatched_standard_witness:
  "isTopicMatched (Ptr [97, 47, 43, 47, 35, 0])
     \<lparr>cstring = Null, lenstring = \<lparr>len = 7, data = Ptr [97, 47, 98, 47, 99, 47, 100]\<rparr>\<rparr> = Some True \<and>
   isTopicMatched (Ptr [43, 47, 97, 0])
     \<lparr>cstring = Null, lenstring = \<lparr>len = 2, data = Ptr [47, 97]\<rparr>\<rparr> = Some False \<and> mqtt_match [[43], [97]] [[], [97]]"
  using isTopicMatched_standard [of "[[97], [43], [35]]" "[[97], [98], [99], [100]]" "Ptr [97, 47, 43, 47, 35, 0]"
      "\<lparr>cstring = Null, lenstring = \<lparr>len = 7, data = Ptr [97, 47, 98, 47, 99, 47, 100]\<rparr>\<rparr>"]
    isTopicMatched_standard [of "[[43], [97]]" "[[], [97]]" "Ptr [43, 47, 97, 0]"
      "\<lparr>cstring = Null, lenstring = \<lparr>len = 2, data = Ptr [47, 97]\<rparr>\<rparr>"]
  by (simp add: plain_level_def topic_levels_def cstring_of_def topic_name_def parent_match_def empty_match_def)

end
