(* ===== verification/Client_Delivery.thy ===== *)
theory Client_Delivery
  imports Client_Exchange Topic_Filter
begin

text \<open>
  Delivery of messages: which handlers of a client a message reaches, one receive cycle on a PUBLISH
  packet, and the way of a message from the client that publishes it to the handlers of another.
\<close>

subsection \<open>Delivery\<close>

text \<open>
  The handlers a message with topic \<open>s\<close> is delivered to: those of the slots whose filter is the topic or
  matches it, in the order of the slots, and the default handler if there is none.
\<close>

definition slot_hits :: "byte list \<Rightarrow> 'app MessageHandlers \<Rightarrow> bool" where
  "slot_hits s h = (case slot_key h of None \<Rightarrow> False | Some f \<Rightarrow> f = s \<or> match_bytes f s)"

definition slot_receivers :: "byte list \<Rightarrow> 'app MessageHandlers list \<Rightarrow> 'app messageHandler list" where
  "slot_receivers s hs = List.map_filter (\<lambda>h. if slot_hits s h then fp h else None) hs"

definition receivers :: "'app MQTTClient \<Rightarrow> byte list \<Rightarrow> 'app messageHandler list" where
  "receivers c s =
     (let fs = slot_receivers s (messageHandlers c) in
      if fs = [] then (case defaultMessageHandler c of None \<Rightarrow> [] | Some f \<Rightarrow> [f]) else fs)"

fun run_all :: "'app messageHandler list \<Rightarrow> MessageData \<Rightarrow> 'app \<Rightarrow> 'app option" where
  "run_all [] md a = Some a"
| "run_all (f # fs) md a = f md a \<bind> run_all fs md"

definition short_filters :: "'app MQTTClient \<Rightarrow> bool" where
  "short_filters c = list_all (\<lambda>h. case slot_key h of None \<Rightarrow> True | Some f \<Rightarrow> length f \<le> 65535) (messageHandlers c)"

lemma deliver_hit:
  assumes h: "topicFilter h \<noteq> Null \<longrightarrow> slot_key h \<noteq> None" "case slot_key h of None \<Rightarrow> True | Some f \<Rightarrow> length f \<le> 65535"
    and t: "denotes m s" "topic_name m s"
  shows "(if topicFilter h \<noteq> Null then do {
       eq \<leftarrow> MQTTPacket_equals m (topicFilter h);
       if eq then Some True else isTopicMatched (topicFilter h) m
     } else Some False) = Some (slot_hits s h)"
proof (cases "topicFilter h = Null")
  case True
  then show ?thesis
    by (simp add: slot_hits_def slot_key_empty)
next
  case False
  with h(1) obtain f where f: "slot_key h = Some f" "cstring_of (topicFilter h) f"
    by (auto simp: slot_key_def text_at_iff)
  with h(2) False MQTTPacket_equals_denotes [OF t(1) f(2)] isTopicMatched_bytes [OF f(2) t(2)] show ?thesis
    by (auto simp: slot_hits_def)
qed

lemma deliver_loop_receivers:
  assumes "\<forall>h \<in> set hs. topicFilter h \<noteq> Null \<longrightarrow> slot_key h \<noteq> None"
    "list_all (\<lambda>h. case slot_key h of None \<Rightarrow> True | Some f \<Rightarrow> length f \<le> 65535) hs"
    "denotes m s" "topic_name m s"
  shows "deliver_loop hs m msg rc a = map_option (Pair (if slot_receivers s hs = [] then rc else MQTT_SUCCESS))
     (run_all (slot_receivers s hs) (NewMessageData m msg) a)"
  using assms(1,2)
proof (induction hs arbitrary: rc a)
  case Nil
  then show ?case
    by (simp add: slot_receivers_def)
next
  case (Cons h hs)
  have hit: "(if topicFilter h \<noteq> Null then do {
       eq \<leftarrow> MQTTPacket_equals m (topicFilter h);
       if eq then Some True else isTopicMatched (topicFilter h) m
     } else Some False) = Some (slot_hits s h)"
    using Cons.prems by (intro deliver_hit [OF _ _ assms(3,4)]) simp_all
  have IH: "deliver_loop hs m msg rc a = map_option (Pair (if slot_receivers s hs = [] then rc else MQTT_SUCCESS))
     (run_all (slot_receivers s hs) (NewMessageData m msg) a)" for rc a
    using Cons.prems by (intro Cons.IH) simp_all
  show ?case
  proof (cases "fp h")
    case None
    then show ?thesis
      unfolding deliver_loop.simps hit by (simp add: IH slot_receivers_def)
  next
    case (Some f)
    then show ?thesis
      unfolding deliver_loop.simps hit
      by (cases "f (NewMessageData m msg) a") (simp_all add: IH slot_receivers_def)
  qed
qed

lemma deliver_loop_slots:
  assumes "handlers_inv (messageHandlers c)" "short_filters c" "denotes m s" "topic_name m s"
  shows "deliver_loop (messageHandlers c) m msg rc a =
    map_option (Pair (if slot_receivers s (messageHandlers c) = [] then rc else MQTT_SUCCESS))
      (run_all (slot_receivers s (messageHandlers c)) (NewMessageData m msg) a)"
proof -
  have "\<forall>h \<in> set (messageHandlers c). topicFilter h \<noteq> Null \<longrightarrow> slot_key h \<noteq> None"
    using handlers_invD(2) [OF assms(1)] by (metis in_set_conv_nth)
  then show ?thesis
    using assms(2) by (intro deliver_loop_receivers [OF _ _ assms(3,4)]) (simp_all add: short_filters_def)
qed

lemma deliverMessage_receivers:
  assumes "handlers_inv (messageHandlers c)" "short_filters c" "denotes m s" "topic_name m s"
    and "run_all (receivers c s) (NewMessageData m msg) (app w) = Some a"
  shows "\<exists>rc. deliverMessage c m msg w = Some (rc, w\<lparr>app := a\<rparr>)"
proof (cases "slot_receivers s (messageHandlers c) = []")
  case True
  with assms(5) deliver_loop_slots [OF assms(1-4), of msg FAILURE "app w"] show ?thesis
    by (cases "defaultMessageHandler c") (auto simp: deliverMessage_def receivers_def Let_def bind_eq_Some_conv)
next
  case False
  with assms(5) deliver_loop_slots [OF assms(1-4), of msg FAILURE "app w"] show ?thesis
    by (cases "defaultMessageHandler c")
      (simp_all add: deliverMessage_def receivers_def Let_def FAILURE_def MQTT_SUCCESS_def)
qed

lemma keepalive_expired_sends:
  assumes "keepalive_expired c w = (e, w')"
  shows "sends w [] w'"
proof -
  obtain e1 w1 where e1: "TimerIsExpired (last_sent c) w = (e1, w1)" by fastforce
  obtain e2 w2 where e2: "TimerIsExpired (last_received c) w1 = (e2, w2)" by fastforce
  have "w' = w1 \<or> w' = w2"
    using assms by (simp add: keepalive_expired_def e1 e2 split: if_splits)
  then show ?thesis
    using sends_timer(1) [OF e1] sends_trans [OF sends_timer(1) [OF e1] sends_timer(1) [OF e2]] by auto
qed

lemma keepalive_sends:
  assumes "client_inv c" "small_buffers c" "online w"
  obtains rc c' w' bs where "keepalive c w = Some (rc, c', w')" "sends w bs w'" "isconnected c' = isconnected c"
proof (cases "keepAliveInterval c = 0")
  case True
  then show thesis
    using that [of MQTT_SUCCESS c w "[]"] sends_ticks [of w "ticks w"] by (simp add: keepalive_def)
next
  case False
  obtain e w1 where e: "keepalive_expired c w = (e, w1)" by fastforce
  have s1: "sends w [] w1"
    by (rule keepalive_expired_sends [OF e])
  consider "\<not> e" | "e" "ping_outstanding c \<noteq> 0" | "e" "ping_outstanding c = 0" by blast
  then show thesis
  proof cases
    case 3
    obtain timer w2 where t: "TimerCountdownMS 1000 w1 = (timer, w2)" by fastforce
    have s2: "sends w [] w2"
      using sends_trans [OF s1 sends_timer(4) [OF t]] by simp
    have size: "size_to_int (buf_size c) = int (length (sendbuf c))"
      using assms by (simp add: client_inv_def small_buffers_def size_to_int_small)
    from zero_ser.never_faults [of "int (length (sendbuf c))" "sendbuf c" "word_of_int (msgType PINGREQ)"]
    obtain n b where ser: "MQTTSerialize_pingreq (sendbuf c) (size_to_int (buf_size c)) = Some (n, b)"
      "n = MQTTPACKET_BUFFER_TOO_SHORT \<or> n \<le> int (length b)"
      by (auto simp: size MQTTSerialize_pingreq_def)
    have ka: "keepalive c w = (if n > 0 then do {
          (rc, c, w) \<leftarrow> sendPacket (c\<lparr>sendbuf := b\<rparr>) n timer w2;
          Some (rc, if rc = MQTT_SUCCESS then c\<lparr>ping_outstanding := 1\<rparr> else c, w)
        } else Some (MQTT_SUCCESS, c\<lparr>sendbuf := b\<rparr>, w2))"
      using False e 3 t ser(1) by (simp add: keepalive_def keepalive_ping_def)
    show thesis
    proof (cases "n > 0")
      case True
      then have "online w2" "0 < n" "n \<le> int (length (sendbuf (c\<lparr>sendbuf := b\<rparr>)))"
        using ser(2) s2 assms(3) by (auto simp: sends_sel MQTTPACKET_BUFFER_TOO_SHORT_def)
      then show thesis
      proof (rule sendPacket_spec [of w2 n "c\<lparr>sendbuf := b\<rparr>" timer])
        fix t w3
        assume "sendPacket (c\<lparr>sendbuf := b\<rparr>) n timer w2 = Some (MQTT_SUCCESS, c\<lparr>sendbuf := b, last_sent := t\<rparr>, w3)"
          "sends w2 (take (nat n) (sendbuf (c\<lparr>sendbuf := b\<rparr>))) w3"
        then show thesis
          using that ka True sends_trans [OF s2] by fastforce
      next
        fix w3 k
        assume "sendPacket (c\<lparr>sendbuf := b\<rparr>) n timer w2 = Some (FAILURE, c\<lparr>sendbuf := b\<rparr>, w3)"
          "sends w2 (take k (sendbuf (c\<lparr>sendbuf := b\<rparr>))) w3"
        then show thesis
          using that ka True sends_trans [OF s2] by (fastforce simp: FAILURE_def MQTT_SUCCESS_def)
      qed
    next
      case nf: False
      then show thesis
        using that [OF _ s2] ka by simp
    qed
  qed (use that [OF _ s1] False e in \<open>simp_all add: keepalive_def\<close>)
qed

lemma readable_app [simp]: "readable (w\<lparr>app := x\<rparr>) = readable w"
  by (simp add: readable_def pending_def)

lemma topic_name_received:
  "denotes m s \<Longrightarrow> cstring m = Null \<Longrightarrow> data (lenstring m) \<noteq> Wild \<Longrightarrow> topic_name m s"
  by (auto simp: denotes_def topic_name_def cstring_of_def)

text \<open>One receive cycle on a QoS 0 PUBLISH packet.\<close>

lemma cycle_delivers:
  assumes c: "client_inv c" "small_buffers c" "short_filters c" and w: "online w"
    and a: "publish_valid a" "pub_qos a = 0"
    and stream: "readable w = publish_wire a @ rest" "length (publish_wire a) \<le> length (readbuf c)"
  obtains p where "publish_matches a p"
    "\<And>b. run_all (receivers c (mqtt_content (pub_topicName a))) (NewMessageData (pub_topicName p) (message_of p)) (app w) = Some b
      \<Longrightarrow> \<exists>rc c' w'. cycle c timer w = Some (rc, c', w') \<and> app w' = b \<and> readable w' = rest"
proof -
  let ?h = "header_byte (msgType PUBLISH) (pub_dup a) (pub_qos a) (pub_retained a)"
  let ?s = "mqtt_content (pub_topicName a)"
  have wire: "publish_wire a = packet_bytes ?h (publish_body a)" "length (publish_body a) < 268435456"
    using a(1) by (simp_all add: publish_wire_def publish_valid_def)
  have ty: "header_type ?h = 3"
    using a(2) by simp
  define b where "b = overwrite (readbuf c) 0 (publish_wire a)"
  have b: "b = publish_wire a @ drop (length (publish_wire a)) (readbuf c)"
    by (simp add: b_def overwrite_def)
  have lb: "length b = length (readbuf c)"
    using stream(2) by (simp add: b_def)
  obtain t w1 where read: "readPacket c timer w = Some (3, c\<lparr>readbuf := b, last_received := t\<rparr>, w1)"
    "reads w w1" "readable w1 = rest"
    using readPacket_receives [OF c(1,2) stream(1) [unfolded wire(1)] wire(2) stream(2) [unfolded wire(1)], of timer]
    unfolding wire(1) [symmetric] b_def [symmetric] ty by blast
  obtain p where p: "MQTTDeserialize_publish (publish_junk w1) b = Some (1, p)" "publish_matches a p"
    using publish_parse [OF a(1)] unfolding b by blast
  define c1 where "c1 = c\<lparr>readbuf := b, last_received := t\<rparr>"
  have c1: "client_inv c1" "small_buffers c1" "short_filters c1" "receivers c1 ?s = receivers c ?s"
    using c lb by (simp_all add: c1_def client_inv_def small_buffers_def short_filters_def receivers_def Let_def)
  have topic: "denotes (pub_topicName p) ?s" "topic_name (pub_topicName p) ?s" and q: "pub_qos p = 0"
    using p(2) a(2) by (simp_all add: publish_matches_def topic_name_received)
  have "\<exists>rc c' w'. cycle c timer w = Some (rc, c', w') \<and> app w' = x \<and> readable w' = rest"
    if x: "run_all (receivers c ?s) (NewMessageData (pub_topicName p) (message_of p)) (app w) = Some x" for x
  proof -
    have inv: "handlers_inv (messageHandlers c1)"
      using c1(1) by (simp add: client_inv_def)
    have "run_all (receivers c1 ?s) (NewMessageData (pub_topicName p) (message_of p)) (app w1) = Some x"
      using x by (simp add: c1(4) reads_sel(2) [OF read(2)])
    from deliverMessage_receivers [OF inv c1(3) topic this]
    obtain r where d: "deliverMessage c1 (pub_topicName p) (message_of p) w1 = Some (r, w1\<lparr>app := x\<rparr>)"
      by blast
    have "cycle_dispatch 3 c1 timer w1 = Some (MQTT_SUCCESS, False, c1, w1\<lparr>app := x\<rparr>)"
      using p(1) q d by (simp add: cycle_dispatch_def cycle_publish_def c1_def message_of_def QOS0_def)
    moreover have on: "online (w1\<lparr>app := x\<rparr>)"
      using w reads_sel(4) [OF read(2)] by (simp add: online_def functions_set_def)
    obtain k c2 w2 bs where k: "keepalive c1 (w1\<lparr>app := x\<rparr>) = Some (k, c2, w2)" "sends (w1\<lparr>app := x\<rparr>) bs w2"
      "isconnected c2 = isconnected c1"
      by (rule keepalive_sends [OF c1(1,2) on])
    have "app w2 = x" "readable w2 = rest"
      using sends_sel(2,4) [OF k(2)] read(3) by simp_all
    ultimately show ?thesis
      using read(1) k(1) unfolding cycle_def c1_def [symmetric] by simp
  qed
  with p(2) show thesis
    by (rule that)
qed

text \<open>The message data a handler is called with carry the message \<open>m\<close> published under the topic \<open>s\<close>.\<close>

definition carries :: "byte list \<Rightarrow> MQTTMessage \<Rightarrow> MessageData \<Rightarrow> bool" where
  "carries s m md \<longleftrightarrow> denotes (md_topicName md) s \<and> msg_qos (md_message md) = msg_qos m \<and>
     uint (msg_retained (md_message md)) = uint (msg_retained m) mod 2 \<and>
     msg_payloadlen (md_message md) = msg_payloadlen m \<and>
     bytes_at (msg_payload (md_message md)) (unat (msg_payloadlen m)) = bytes_at (msg_payload m) (unat (msg_payloadlen m))"

lemma publish_of_carries:
  assumes "publish_matches (publish_of topicName m) p" "unat (msg_payloadlen m) < 2147483648"
    "mqtt_content (topic_string topicName) = s"
  shows "carries s m (NewMessageData (pub_topicName p) (message_of p))"
proof -
  have n: "size_to_int (msg_payloadlen m) = int (unat (msg_payloadlen m))"
    using assms(2) by (rule size_to_int_small)
  have "int (unat (msg_payloadlen m)) mod 4294967296 = int (unat (msg_payloadlen m))"
    using assms(2) by (intro mod_pos_pos_trivial) linarith+
  moreover have "word_of_nat (unat (msg_payloadlen m)) = msg_payloadlen m"
    by simp
  ultimately show ?thesis
    using assms(1,3) unfolding publish_matches_def
    by (simp add: carries_def publish_of_def NewMessageData_def message_of_def n del: of_nat_unat)
qed

lemma topic_content: "cstring_of topicName s \<Longrightarrow> mqtt_content (topic_string topicName) = s"
  by (auto simp: topic_string_def MQTTString_initializer_def mqtt_content_def cstring_of_def)

lemma cycle_carries:
  assumes "client_inv d" "small_buffers d" "short_filters d" "online v"
    and "msg_qos m = QOS0" "publish_valid (publish_of topicName m)" "unat (msg_payloadlen m) < 2147483648"
    and "cstring_of topicName s"
    and "length (publish_wire (publish_of topicName m)) \<le> length (readbuf d)"
    and "readable v = publish_wire (publish_of topicName m) @ rest"
  obtains md where "carries s m md"
    "\<And>b. run_all (receivers d s) md (app v) = Some b \<Longrightarrow>
      \<exists>rc d' v'. cycle d timer v = Some (rc, d', v') \<and> app v' = b \<and> readable v' = rest"
proof (rule cycle_delivers [OF assms(1-4,6) _ assms(10,9), of timer])
  let ?a = "publish_of topicName m"
  have s: "mqtt_content (pub_topicName ?a) = s"
    using topic_content [OF assms(8)] by (simp add: publish_of_def)
  show "pub_qos ?a = 0"
    using assms(5) by (simp add: publish_of_def QOS0_def)
  fix p
  assume p: "publish_matches ?a p" and cyc: "\<And>b. run_all (receivers d (mqtt_content (pub_topicName ?a)))
    (NewMessageData (pub_topicName p) (message_of p)) (app v) = Some b \<Longrightarrow>
    \<exists>rc c' w'. cycle d timer v = Some (rc, c', w') \<and> app w' = b \<and> readable w' = rest"
  have "carries s m (NewMessageData (pub_topicName p) (message_of p))"
    using p assms(7) topic_content [OF assms(8)] by (rule publish_of_carries)
  then show thesis
    using cyc unfolding s by (rule that)
qed

lemma deliverMessage_fault:
  assumes "handlers_inv (messageHandlers c)" "short_filters c" "denotes m s" "topic_name m s"
    and "run_all (receivers c s) (NewMessageData m msg) (app w) = None"
  shows "deliverMessage c m msg w = None"
proof (cases "slot_receivers s (messageHandlers c) = []")
  case True
  with assms(5) deliver_loop_slots [OF assms(1-4), of msg FAILURE "app w"] show ?thesis
    by (cases "defaultMessageHandler c") (auto simp: deliverMessage_def receivers_def bind_eq_None_conv)
next
  case False
  with assms(5) deliver_loop_slots [OF assms(1-4), of msg FAILURE "app w"] show ?thesis
    by (simp add: deliverMessage_def receivers_def Let_def)
qed


text \<open>
  A publisher with the payload \<open>[1, 2, 3]\<close> for the topic \<open>AB\<close> and a subscriber with a handler for the filter \<open>+\<close>, both
  connected.
\<close>

definition example_message :: MQTTMessage where
  "example_message = \<lparr>msg_qos = 0, msg_retained = 0, msg_dup = 0, msg_id = 0, msg_payload = Ptr [1, 2, 3], msg_payloadlen = 3\<rparr>"

definition subscribed :: "cptr \<Rightarrow> 'app messageHandler \<Rightarrow> 'app MQTTClient" where
  "subscribed tf f = example_client\<lparr>isconnected := 1,
     messageHandlers := \<lparr>topicFilter = tf, fp = Some f\<rparr> # replicate 4 \<lparr>topicFilter = Null, fp = None\<rparr>\<rparr>"

abbreviation example_subscriber :: "unit MQTTClient" where
  "example_subscriber \<equiv> subscribed (Ptr [43, 0]) (\<lambda>_. Some)"

definition example_arrival :: "unit world" where
  "example_arrival = example_world\<lparr>rx := [Rx_data [48], Rx_want, Rx_data [7, 0, 2, 65, 66, 1, 2, 3, 208, 0]]\<rparr>"

lemma example_client_inv: "client_inv example_client" "small_buffers example_client"
  using example_client_handlers
  by (simp_all add: client_inv_def small_buffers_def) (simp_all add: example_client_def MAX_PACKET_ID_def)

lemma example_client_small: "small_buffers (example_client\<lparr>isconnected := n\<rparr>)"
  using example_client_inv(2) by (simp add: small_buffers_def)

lemma subscribed_slots:
  assumes "cstring_of tf flt"
  shows "handlers_inv (messageHandlers (subscribed tf f))"
proof -
  define hs where "hs = messageHandlers (subscribed tf f)"
  have n: "length hs = 5"
    by (simp add: hs_def subscribed_def)
  have t: "text_at tf = Some flt" "text_at Null = None"
    using assms by (simp add: text_at_iff, simp add: text_at_def)
  have key: "slot_key (hs ! i) = (if i = 0 then Some flt else None)"
    "topicFilter (hs ! i) \<noteq> Null \<longrightarrow> i = 0" "i = 0 \<Longrightarrow> fp (hs ! i) \<noteq> None" if "i < 5" for i
    using that by (cases i; simp add: hs_def subscribed_def slot_key_def t)+
  have "slot_key (hs ! i) \<noteq> None \<and> fp (hs ! i) \<noteq> None" if "i < 5" "topicFilter (hs ! i) \<noteq> Null" for i
    using key [OF that(1)] that(2) by simp
  moreover have "i = j" if "i < 5" "j < 5" "slot_key (hs ! i) = Some k" "slot_key (hs ! j) = Some k" for i j k
    using that key(1) [of i] key(1) [of j] by (simp split: if_splits)
  ultimately show ?thesis
    unfolding hs_def [symmetric] handlers_inv_def n MAX_MESSAGE_HANDLERS_def by blast
qed

lemma subscribed_ok:
  fixes f :: "'app messageHandler"
  assumes "cstring_of tf flt" "length flt \<le> 65535"
  shows "client_inv (subscribed tf f)" "small_buffers (subscribed tf f)" "short_filters (subscribed tf f)"
    "length (readbuf (subscribed tf f)) = 64" "flt = s \<or> match_bytes flt s \<Longrightarrow> receivers (subscribed tf f) s = [f]"
proof -
  have "buf_size (subscribed tf f) = 64" "readbuf_size (subscribed tf f) = 64" "length (sendbuf (subscribed tf f)) = 64"
    "next_packetid (subscribed tf f) = 1" "length (readbuf (subscribed tf f)) = 64"
    by (simp_all add: subscribed_def example_client_def)
  then show "client_inv (subscribed tf f)" "small_buffers (subscribed tf f)" "length (readbuf (subscribed tf f)) = 64"
    using subscribed_slots [OF assms(1), of f] by (simp_all add: client_inv_def small_buffers_def MAX_PACKET_ID_def)
  have slots: "messageHandlers (subscribed tf f) = \<lparr>topicFilter = tf, fp = Some f\<rparr> # replicate 4 \<lparr>topicFilter = Null, fp = None\<rparr>"
    "slot_key \<lparr>topicFilter = tf, fp = g\<rparr> = Some flt" for g :: "'app messageHandler option"
    using assms(1) by (simp_all add: subscribed_def slot_key_def text_at_iff)
  show "short_filters (subscribed tf f)"
    using assms(2) by (simp add: short_filters_def slots slot_key_empty list_all_iff)
  have "replicate 4 h = [h, h, h, h]" for h :: "'app MessageHandlers"
    by (simp add: eval_nat_numeral)
  then have "slot_receivers s (messageHandlers (subscribed tf f)) = [f]" if "flt = s \<or> match_bytes flt s"
    using that by (auto simp: slots slot_receivers_def slot_hits_def slot_key_empty map_filter_simps)
  then show "flt = s \<or> match_bytes flt s \<Longrightarrow> receivers (subscribed tf f) s = [f]"
    by (simp add: receivers_def)
qed

lemma example_subscriber_ok:
  "client_inv example_subscriber" "small_buffers example_subscriber" "short_filters example_subscriber"
  "length (readbuf example_subscriber) = 64" "receivers example_subscriber [65, 66] = [\<lambda>_. Some]"
  by (rule subscribed_ok [of _ "[43]"]; simp add: cstring_of_def)+


end
