(* ===== verification/Client_Session.thy ===== *)
theory Client_Session
  imports Client_Delivery
begin

text \<open>
  The outcome of a connection attempt, decided by the CONNACK packet of the broker, and the robustness of
  packet reception against any input.
\<close>

subsection \<open>Timers that do not expire\<close>

text \<open>
  \<open>prompt clk n ms\<close>: from reading number \<open>n\<close> on the clock stays within \<open>ms\<close> milliseconds of that reading.
  \<open>outlasts\<close>: the timer ends no earlier than that.
\<close>

definition prompt :: "(nat \<Rightarrow> timeval) \<Rightarrow> nat \<Rightarrow> int \<Rightarrow> bool" where
  "prompt clk n ms \<longleftrightarrow> (\<forall>k \<ge> n. normal (clk k) \<and> usec (clk n) \<le> usec (clk k) \<and> usec (clk k) < usec (clk n) + 1000 * ms)"

definition outlasts :: "(nat \<Rightarrow> timeval) \<Rightarrow> nat \<Rightarrow> int \<Rightarrow> Timer \<Rightarrow> bool" where
  "outlasts clk n ms timer \<longleftrightarrow> normal (end_time timer) \<and> usec (clk n) + 1000 * ms \<le> usec (end_time timer)"

lemma not_expired:
  assumes "prompt (clock w) n ms" "outlasts (clock w) n ms timer" "n \<le> ticks w"
  shows "TimerIsExpired timer w = (False, w\<lparr>ticks := ticks w + 1\<rparr>)"
proof -
  have "normal (clock w (ticks w))" "usec (clock w (ticks w)) < usec (end_time timer)" "normal (end_time timer)"
    using assms unfolding prompt_def outlasts_def by (blast, fastforce, blast)
  then show ?thesis
    by (simp add: TimerIsExpired_usec)
qed

lemma TimerCountdownMS_outlasts:
  assumes "prompt (clock w) (ticks w) (uint timeout)" "TimerCountdownMS timeout w = (timer, w')"
  shows "outlasts (clock w) (ticks w) (uint timeout) timer"
  using TimerCountdownMS_usec [OF _ assms(2)] assms(1) by (simp add: outlasts_def prompt_def)

lemma countdown_outlasts:
  assumes "prompt (clock w) n ms" "n \<le> ticks w" "countdown u w timer" "ms \<le> 1000 * uint u"
  shows "outlasts (clock w) n ms timer"
proof -
  obtain k where k: "ticks w \<le> k" "timer = fst (TimerCountdown u (w\<lparr>ticks := k\<rparr>))"
    using assms(3) by (auto simp: countdown_def)
  obtain w' where t: "TimerCountdown u (w\<lparr>ticks := k\<rparr>) = (timer, w')"
    using k(2) by (simp add: prod_eq_iff)
  have p: "normal (clock w k)" "usec (clock w n) \<le> usec (clock w k)"
    using assms(1,2) k(1) by (auto simp: prompt_def)
  with TimerCountdown_usec [OF _ t] assms(4) show ?thesis
    by (simp add: outlasts_def)
qed

lemma keepalive_quiet:
  assumes "prompt (clock w) n ms" "n \<le> ticks w"
    and "keepAliveInterval c \<noteq> 0 \<Longrightarrow> outlasts (clock w) n ms (last_sent c) \<and> outlasts (clock w) n ms (last_received c)"
  obtains t where "keepalive c w = Some (MQTT_SUCCESS, c, w\<lparr>ticks := t\<rparr>)" "ticks w \<le> t"
proof (cases "keepAliveInterval c = 0")
  case True
  then show thesis
    using that [of "ticks w"] by (simp add: keepalive_def)
next
  case False
  with assms not_expired [OF assms(1), of "last_sent c"]
    not_expired [of "w\<lparr>ticks := ticks w + 1\<rparr>" n ms "last_received c"]
  have "keepalive c w = Some (MQTT_SUCCESS, c, w\<lparr>ticks := ticks w + 2\<rparr>)"
    by (simp add: keepalive_def keepalive_expired_def)
  then show thesis
    by (rule that) simp
qed

subsection \<open>Connecting\<close>

lemma waitfor_connack:
  assumes c: "client_inv c" "small_buffers c" and p: "prompt (clock w) n ms" "n \<le> ticks w"
    and timer: "outlasts (clock w) n ms timer" "ms \<le> 1000 * uint (keepAliveInterval c) \<or> keepAliveInterval c = 0"
    and live: "keepAliveInterval c \<noteq> 0 \<Longrightarrow> outlasts (clock w) n ms (last_sent c) \<and> outlasts (clock w) n ms (last_received c)"
    and s: "readable w = packet_bytes h body @ rest" "header_type h = msgType CONNACK" "length body < 268435456"
      "length (packet_bytes h body) \<le> length (readbuf c)"
  obtains t w' where "waitfor c (msgType CONNACK) timer w =
      Some (msgType CONNACK, c\<lparr>readbuf := overwrite (readbuf c) 0 (packet_bytes h body), last_received := t\<rparr>, w')"
    "reads w w'" "readable w' = rest"
proof -
  let ?w = "w\<lparr>ticks := ticks w + 1\<rparr>" and ?b = "overwrite (readbuf c) 0 (packet_bytes h body)"
  have e: "TimerIsExpired timer w = (False, ?w)"
    using p timer by (intro not_expired) auto
  have s': "readable ?w = packet_bytes h body @ rest"
    using s(1) by simp
  show thesis
  proof (rule readPacket_receives [OF c s' s(3,4), of timer])
    fix t w1
    assume r: "readPacket c timer ?w = Some (header_type h, c\<lparr>readbuf := ?b, last_received := t\<rparr>, w1)"
      "reads ?w w1" "readable w1 = rest" "t = last_received c \<or> countdown (keepAliveInterval c) ?w t"
    have w1: "reads w w1"
      using r(2) by (rule reads_trans [OF reads_ticks [OF le_add1]])
    have clk: "clock w1 = clock w" "n \<le> ticks w1"
      using reads_sel(5,7) [OF w1] p(2) by simp_all
    have t: "outlasts (clock w) n ms t" if "keepAliveInterval c \<noteq> 0"
      using r(4)
    proof
      assume "countdown (keepAliveInterval c) ?w t"
      from countdown_outlasts [OF _ _ this, of n ms] p timer(2) that show ?thesis
        by simp
    qed (use live that in simp)
    define c1 where "c1 = c\<lparr>readbuf := ?b, last_received := t\<rparr>"
    have "prompt (clock w1) n ms" "n \<le> ticks w1" "keepAliveInterval c1 \<noteq> 0 \<Longrightarrow>
        outlasts (clock w1) n ms (last_sent c1) \<and> outlasts (clock w1) n ms (last_received c1)"
      using p(1) clk live t by (simp_all add: c1_def)
    then obtain k where k: "keepalive c1 w1 = Some (MQTT_SUCCESS, c1, w1\<lparr>ticks := k\<rparr>)" "ticks w1 \<le> k"
      by (rule keepalive_quiet)
    have "cycle c timer ?w = Some (2, c1, w1\<lparr>ticks := k\<rparr>)"
      using r(1) k(1) s(2) unfolding c1_def [symmetric] by (simp add: cycle_def cycle_dispatch_def MQTT_SUCCESS_def)
    then have "waitfor c (msgType CONNACK) timer w = Some (msgType CONNACK, c1, w1\<lparr>ticks := k\<rparr>)"
      by (simp add: waitfor_def waitfor_loop.simps e)
    then show thesis
      unfolding c1_def using reads_trans [OF w1 reads_ticks [OF k(2)]] r(3) by (intro that [of t "w1\<lparr>ticks := k\<rparr>"]) simp_all
  qed
qed

text \<open>The state in which \<^verbatim>\<open>MQTTConnectWithResults\<close> has set the timers and stored the options.\<close>

definition connect_state :: "'app MQTTClient \<Rightarrow> MQTTPacket_connectData \<Rightarrow> Timer \<Rightarrow> byte list \<Rightarrow> 'app MQTTClient" where
  "connect_state c opts t b = c\<lparr>keepAliveInterval := word_of_int (uint (cd_keepAliveInterval opts)),
     cleansession := uint (cd_cleansession opts), last_received := t, sendbuf := b\<rparr>"

lemma connect_state_keepalive:
  "uint (keepAliveInterval (connect_state c opts t b)) = uint (cd_keepAliveInterval opts)"
  "keepAliveInterval (connect_state c opts t b) = 0 \<longleftrightarrow> cd_keepAliveInterval opts = 0"
proof -
  show u: "uint (keepAliveInterval (connect_state c opts t b)) = uint (cd_keepAliveInterval opts)"
    using u16_bounds [of "cd_keepAliveInterval opts"]
    by (simp add: connect_state_def unsigned_ucast_eq take_bit_int_eq_self)
  show "keepAliveInterval (connect_state c opts t b) = 0 \<longleftrightarrow> cd_keepAliveInterval opts = 0"
    using u by (metis uint_0_iff)
qed

lemma connect_answer:
  assumes "length body < 268435456" "header_type h = msgType CONNACK" "length (packet_bytes h body) \<le> length buf"
  shows "MQTTDeserialize_connack (0, 0) (overwrite buf 0 (packet_bytes h body)) =
    Some (1, if length body < 2 then (0, 0) else (connack_sessionpresent (body ! 0), body ! 1))"
  using connack_short_body [OF assms(2), of body "(0, 0)"] connack_result [OF assms(2) _ assms(1), of "(0, 0)"]
  by (simp add: overwrite_def)

text \<open>What \<^verbatim>\<open>MQTTConnect\<close> does after the request was sent (lines 440 to 456).\<close>

definition connect_wait :: "Timer \<Rightarrow> 'app MQTTClient \<Rightarrow> 'app world \<Rightarrow> (int \<times> 'app MQTTClient \<times> 'app world) option" where
  "connect_wait timer c w = do {
     (t, c, w) \<leftarrow> waitfor c (msgType CONNACK) timer w;
     if t = msgType CONNACK then do {
       (ok, sessionPresent, crc) \<leftarrow> MQTTDeserialize_connack (0, 0) (readbuf c);
       let rc = (if ok = 1 then uint crc else FAILURE);
       Some (rc, if rc = MQTT_SUCCESS then c\<lparr>isconnected := 1, ping_outstanding := 0\<rparr> else c, w)
     }
     else Some (FAILURE, c, w)
   }"

lemma connect_wait_result:
  assumes "client_inv c" "small_buffers c" "prompt (clock w) n ms" "n \<le> ticks w"
    and "outlasts (clock w) n ms timer" "ms \<le> 1000 * uint (keepAliveInterval c) \<or> keepAliveInterval c = 0"
    and "keepAliveInterval c \<noteq> 0 \<Longrightarrow> outlasts (clock w) n ms (last_sent c) \<and> outlasts (clock w) n ms (last_received c)"
    and "readable w = packet_bytes h body @ rest" "header_type h = msgType CONNACK" "length body < 268435456"
      "length (packet_bytes h body) \<le> length (readbuf c)"
    and "isconnected c = 0"
  obtains rc c' w' where "connect_wait timer c w = Some (rc, c', w')" "reads w w'" "readable w' = rest"
    "rc = (if length body < 2 then 0 else uint (body ! 1))" "isconnected c' = (if rc = 0 then 1 else 0)"
proof (rule waitfor_connack [OF assms(1-11)])
  fix t w'
  let ?c = "c\<lparr>readbuf := overwrite (readbuf c) 0 (packet_bytes h body), last_received := t\<rparr>"
  define rc where "rc = (if length body < 2 then 0 else uint (body ! 1))"
  assume w: "waitfor c (msgType CONNACK) timer w = Some (msgType CONNACK, ?c, w')" "reads w w'" "readable w' = rest"
  have "connect_wait timer c w = Some (rc, if rc = 0 then ?c\<lparr>isconnected := 1, ping_outstanding := 0\<rparr> else ?c, w')"
    using w(1) connect_answer [OF assms(10,9,11)] by (simp add: connect_wait_def rc_def Let_def)
  moreover have "isconnected (if rc = 0 then ?c\<lparr>isconnected := 1, ping_outstanding := 0\<rparr> else ?c) = (if rc = 0 then 1 else 0)"
    using assms(12) by simp
  ultimately show thesis
    using w(2,3) rc_def by (intro that)
qed

lemma connect_start:
  assumes inv: "client_inv c" "small_buffers c" and c: "isconnected c = 0" and valid: "connect_valid opts"
    and p: "prompt (clock w) (ticks w) (uint (command_timeout_ms c))"
    and ka: "uint (command_timeout_ms c) \<le> 1000 * uint (cd_keepAliveInterval opts) \<or> cd_keepAliveInterval opts = 0"
  obtains timer t n b w1 where
    "MQTTConnect c (Some opts) w =
      (if n \<le> 0 then Some (FAILURE, connect_state c opts t b, w1)
       else do {
         (rc, c, w) \<leftarrow> sendPacket (connect_state c opts t b) n timer w1;
         if rc \<noteq> MQTT_SUCCESS then Some (rc, c, w)
         else connect_wait timer c w
       })"
    "sends w [] w1" "length b = length (sendbuf c)"
    "n = MQTTPACKET_BUFFER_TOO_SHORT \<or> n = int (length (connect_wire opts)) \<and> take (nat n) b = connect_wire opts \<and> n \<le> int (length b)"
    "outlasts (clock w) (ticks w) (uint (command_timeout_ms c)) timer"
    "cd_keepAliveInterval opts \<noteq> 0 \<Longrightarrow> outlasts (clock w) (ticks w) (uint (command_timeout_ms c)) t"
proof -
  obtain timer w0 where timer: "TimerCountdownMS (command_timeout_ms c) w = (timer, w0)" by fastforce
  define u :: u32 where "u = word_of_int (uint (cd_keepAliveInterval opts))"
  have u: "uint u = uint (cd_keepAliveInterval opts)"
    using u16_bounds [of "cd_keepAliveInterval opts"] by (simp add: u_def unsigned_ucast_eq take_bit_int_eq_self)
  obtain t w1 where t: "TimerCountdown u w0 = (t, w1)" by fastforce
  have s0: "sends w [] w0" and s1: "sends w [] w1"
    using sends_timer(4) [OF timer] sends_trans [OF sends_timer(4) [OF timer] sends_timer(3) [OF t]] by simp_all
  have size: "size_to_int (buf_size c) = int (length (sendbuf c))"
    using inv by (simp add: client_inv_def small_buffers_def size_to_int_small)
  from connect_ser.never_faults [OF valid, of "int (length (sendbuf c))" "sendbuf c"]
  obtain n b where ser: "MQTTSerialize_connect (sendbuf c) (size_to_int (buf_size c)) opts = Some (n, b)"
    "length b = length (sendbuf c)"
    "n = MQTTPACKET_BUFFER_TOO_SHORT \<or> n = int (length (connect_wire opts)) \<and> take (nat n) b = connect_wire opts \<and> n \<le> int (length b)"
    by (auto simp: size)
  have o1: "outlasts (clock w) (ticks w) (uint (command_timeout_ms c)) timer"
    using p timer by (rule TimerCountdownMS_outlasts)
  have o2: "outlasts (clock w) (ticks w) (uint (command_timeout_ms c)) t" if "cd_keepAliveInterval opts \<noteq> 0"
    using that ka u by (intro countdown_outlasts [OF p order_refl countdownI [OF t]]) (simp_all add: sends_sel [OF s0])
  have main: "MQTTConnect c (Some opts) w =
      (if n \<le> 0 then Some (FAILURE, connect_state c opts t b, w1)
       else do {
         (rc, c, w) \<leftarrow> sendPacket (connect_state c opts t b) n timer w1;
         if rc \<noteq> MQTT_SUCCESS then Some (rc, c, w)
         else connect_wait timer c w
       })"
    using c timer t ser(1) timer_frame(3) [of u w0]
    by (simp add: MQTTConnect_def MQTTConnectWithResults_def connect_wait_def Let_def u_def connect_state_def bind_assoc split_def
        if_distrib [where f = "\<lambda>x. Option.bind x g" for g] cong: if_cong)
  show thesis
    by (rule that [OF main s1 ser(2,3) o1 o2])
qed


text \<open>A broker that accepts the connection, in a second of which one microsecond passes with each reading of the clock.\<close>

definition example_accepted :: "unit world" where
  "example_accepted = example_world\<lparr>clock := (\<lambda>t. \<lparr>tv_sec = 5, tv_usec = int (min t 999)\<rparr>), rx := [Rx_data [32], Rx_data [2, 1, 0, 208]]\<rparr>"


subsection \<open>Reception of any input\<close>

lemma ipstack_read_total:
  assumes "online w" "0 < n"
  obtains rc bs w' where "ipstack_read n w = Some (rc, bs, w')" "int (length bs) \<le> n" "online w'"
    "rc = n \<and> int (length bs) = n \<or> rc = - 1"
proof -
  have live: "ssl w = Live" "net_mqttread (mqttNet w) = Fn_network_read"
    using assms(1) by (simp_all add: online_def functions_set_def)
  from mqtt_network_read_spec [OF live(1), of n] assms(2) obtain rc bs w' where
    r: "mqtt_network_read n w = Some (rc, bs, w')" "int (length bs) \<le> n" "rc = n \<and> int (length bs) = n \<or> rc = - 1"
    by (cases "n \<le> int (length (pending w))") (auto simp: Let_def min_absorb2 nat_le_iff)
  moreover have "ipstack_read n w = Some (rc, bs, w')"
    using r(1) live(2) by (simp add: ipstack_read_def)
  ultimately show thesis
    using that assms(1) reads_sel(4) [OF ipstack_read_reads] by metis
qed

lemma byte_digit: "0 \<le> uint (c AND 127 :: byte)" "uint (c AND 127 :: byte) \<le> 127"
proof -
  have "c AND 127 \<le> 127"
    by (rule word_and_le1)
  then show "uint (c AND 127) \<le> 127"
    by (simp add: word_le_def)
qed simp

lemma decode_loop_total:
  "online w \<Longrightarrow> 0 \<le> l \<Longrightarrow> l \<le> 4 \<Longrightarrow> m = 128 ^ nat l \<Longrightarrow> 0 \<le> v \<Longrightarrow> v < m \<Longrightarrow>
   \<exists>k v' w'. decode_loop ipstack_read l m v w = Some (k, v', w') \<and> 0 \<le> v' \<and> v' < 268435456 \<and> online w'"
proof (induction "nat (4 - l)" arbitrary: l m v w)
  case 0
  then show ?case
    by (simp add: decode_loop.simps)
next
  case (Suc d)
  then have l: "l < 4" and m: "m * 128 = 128 ^ nat (l + 1)" "m \<le> 128 ^ 3"
    using power_increasing [of "nat l" 3 "128 :: int"] by (simp_all add: nat_add_distrib)
  obtain rc bs w' where r: "ipstack_read 1 w = Some (rc, bs, w')" "int (length bs) \<le> 1" "online w'"
    "rc = 1 \<and> int (length bs) = 1 \<or> rc = - 1"
    by (rule ipstack_read_total [OF Suc.prems(1), of 1]) simp_all
  show ?case
  proof (cases "rc = 1")
    case True
    with r(4) obtain c where bs: "bs = [c]"
      by (auto simp: length_Suc_conv)
    let ?v = "v + uint (c AND 127) * m"
    have pos: "0 < m"
      using Suc.prems(5,6) by linarith
    have "uint (c AND 127) * m \<le> 127 * m"
      using byte_digit [of c] pos by (intro mult_right_mono) simp_all
    then have v: "0 \<le> ?v" "?v < m * 128"
      using Suc.prems(5,6) mult_nonneg_nonneg [OF byte_digit(1) [of c], of m] by linarith+
    have IH: "\<exists>k v' w''. decode_loop ipstack_read (l + 1) (m * 128) ?v w' = Some (k, v', w'') \<and> 0 \<le> v' \<and>
        v' < 268435456 \<and> online w''"
      using Suc.hyps(2) l Suc.prems(2) v m(1) r(3) by (intro Suc.hyps(1)) simp_all
    have "?v < 268435456"
      using v(2) m(2) by simp
    with IH v(1) r(1,3) bs True l show ?thesis
      by (auto simp: decode_loop.simps [of _ l] Let_def)
  next
    case False
    with r l Suc.prems(5,6) m(2) show ?thesis
      by (auto simp: decode_loop.simps [of _ l])
  qed
qed

lemma put_fits: "p + length bs \<le> length buf \<Longrightarrow> \<exists>b. put buf p bs = Some b \<and> length b = length buf"
  by (simp add: put_def)

lemma readPacket_done_total:
  "readbuf c \<noteq> [] \<Longrightarrow> \<exists>rc c' w'. readPacket_done c w = Some (rc, c', w') \<and> 0 \<le> rc \<and> rc < 16"
  using header_type_range [of "readbuf c ! 0"]
  by (auto simp: readPacket_done_def fetch_def Let_def split: prod.split)

lemma readPacket_body_total:
  assumes "length (readbuf c) = unat (readbuf_size c)" "small_buffers c" "online w"
    and "0 < n" "n \<le> length (readbuf c)" "r < 268435456"
  shows "\<exists>rc c' w'. readPacket_body c (int n) (int r) timer w = Some (rc, c', w') \<and>
    (rc = BUFFER_OVERFLOW \<or> 0 \<le> rc \<and> rc < 16)"
proof (cases "word_of_int (int r) > readbuf_size c - word_of_int (int n)")
  case True
  then show ?thesis
    by (simp add: readPacket_body_def)
next
  case False
  then have room: "n + r \<le> length (readbuf c)"
    using size_t_fits [of n "readbuf_size c" r] assms by (simp add: small_buffers_def)
  have fin: "\<exists>rc c' w'. readPacket_done c1 w1 = Some (rc, c', w') \<and> (rc = BUFFER_OVERFLOW \<or> 0 \<le> rc \<and> rc < 16)"
    if "length (readbuf c1) = length (readbuf c)" for c1 :: "'a MQTTClient" and w1
    using that readPacket_done_total [of c1 w1] assms(4,5) by fastforce
  show ?thesis
  proof (cases "r = 0")
    case True
    with False fin [of c w] show ?thesis
      by (simp add: readPacket_body_def)
  next
    case nz: False
    let ?w = "w\<lparr>ticks := ticks w + 1\<rparr>"
    have "online ?w" "0 < int r"
      using assms(3) nz by (simp_all add: online_def functions_set_def)
    then obtain rc bs w' where rd: "ipstack_read (int r) ?w = Some (rc, bs, w')" "int (length bs) \<le> int r" "online w'"
      "rc = int r \<and> int (length bs) = int r \<or> rc = - 1"
      by (rule ipstack_read_total)
    then obtain b where b: "put (readbuf c) n bs = Some b" "length b = length (readbuf c)"
      using put_fits [of n bs "readbuf c"] room by auto
    with rd(1) False nz fin [of "c\<lparr>readbuf := b\<rparr>" w'] show ?thesis
      by (simp add: readPacket_body_def Let_def)
  qed
qed

text \<open>
  C5. \<^verbatim>\<open>readPacket\<close> copes with any input. With a receive buffer of at least five bytes, on a live connection and for every
  sequence of bytes, partial deliveries and errors, it returns without an access outside its
  buffer. The result is a packet type, the network error \<open>- 1\<close>, or the code of a packet that
  is too long, and the invariant of the client is kept.
\<close>

theorem readPacket_safe:
  assumes "client_inv c" "small_buffers c" "5 \<le> length (readbuf c)" "online w"
  shows "\<exists>rc c' w'. readPacket c timer w = Some (rc, c', w') \<and> client_inv c' \<and>
    (rc \<in> {- 1, BUFFER_OVERFLOW} \<or> 0 \<le> rc \<and> rc < 16)"
proof -
  let ?w = "w\<lparr>ticks := ticks w + 1\<rparr>"
  have "\<exists>rc c' w'. readPacket c timer w = Some (rc, c', w') \<and> (rc \<in> {- 1, BUFFER_OVERFLOW} \<or> 0 \<le> rc \<and> rc < 16)"
  proof (rule ipstack_read_total [of ?w 1])
    fix rc bs w1
    assume r: "ipstack_read 1 ?w = Some (rc, bs, w1)" "int (length bs) \<le> 1" "online w1"
      "rc = 1 \<and> int (length bs) = 1 \<or> rc = - 1"
    obtain b where b: "put (readbuf c) 0 bs = Some b" "length b = length (readbuf c)"
      using put_fits [of 0 bs "readbuf c"] r(2) assms(3) by auto
    show ?thesis
    proof (cases "rc = 1")
      case False
      with r(1,4) b show ?thesis
        by (simp add: readPacket_def)
    next
      case True
      let ?w1 = "w1\<lparr>ticks := ticks w1 + 1\<rparr>"
      have "online ?w1"
        using r(3) by (simp add: online_def functions_set_def)
      from decode_loop_total [OF this, of 0 1 0] obtain k v w2 where d: "decodePacket ?w1 = Some (k, v, w2)"
        "0 \<le> v" "v < 268435456" "online w2"
        by (auto simp: decodePacket_def MQTTPacket_decode_def)
      define r where "r = nat v"
      have v: "v = int r" "r < 268435456"
        using d(2,3) by (simp_all add: r_def)
      have "1 + length (remlen_bytes r) \<le> length b"
        using length_remlen_bytes_bounds [OF v(2)] assms(3) b(2) by linarith
      then have e: "MQTTPacket_encode (b, 1) v = Some (int (length (remlen_bytes r)), overwrite b 1 (remlen_bytes r))"
        by (simp add: MQTTPacket_encode_emit v(1))
      define c1 where "c1 = c\<lparr>readbuf := overwrite b 1 (remlen_bytes r)\<rparr>"
      have "readPacket c timer w = readPacket_body c1 (int (1 + length (remlen_bytes r))) (int r) timer w2"
        using \<open>ipstack_read 1 ?w = _\<close> True b(1) d(1) e v(1) by (simp add: readPacket_def c1_def)
      moreover have "length (readbuf c1) = unat (readbuf_size c1)" "small_buffers c1" "1 + length (remlen_bytes r) \<le> length (readbuf c1)"
        using assms(1,2) b(2) \<open>1 + length (remlen_bytes r) \<le> length b\<close>
        by (simp_all add: c1_def client_inv_def small_buffers_def)
      ultimately show ?thesis
        using readPacket_body_total [OF _ _ d(4) _ _ v(2), of c1 "1 + length (remlen_bytes r)" timer] by auto
    qed
  qed (use assms(4) in \<open>simp_all add: online_def functions_set_def\<close>)
  with readPacket_inv [OF assms(1), of timer w] show ?thesis
    by (fastforce simp: leads_def)
qed

text \<open>An input that ends within the remaining length of a packet.\<close>

theorem readPacket_safe_witness:
  "\<exists>rc c' w'. readPacket (example_client :: unit MQTTClient) TimerInit (example_world\<lparr>rx := [Rx_data [48, 255], Rx_fail]\<rparr>) =
      Some (rc, c', w') \<and> client_inv c' \<and> (rc \<in> {- 1, BUFFER_OVERFLOW} \<or> 0 \<le> rc \<and> rc < 16)"
  by (rule readPacket_safe)
    (simp_all add: example_client_inv, simp_all add: example_client_def example_world_def online_def functions_set_def)

end
