(* ===== verification/Telemetry.thy ===== *)
theory Telemetry
  imports Client_Session Mqtt_Task
begin

text \<open>
  The threads at work: the message a publishing thread composes and sends, and what
  \<^verbatim>\<open>MqttMessageArrived\<close> makes of it in the subscribing thread of another device.
\<close>

subsection \<open>The message handler\<close>

lemma takeWhile_zeros: "takeWhile (\<lambda>b. b \<noteq> 0) (bs @ replicate n (0 :: byte)) = takeWhile (\<lambda>b. b \<noteq> 0) bs"
  by (cases n) (simp_all add: takeWhile_tail)

lemma MqttMessageArrived_bytes:
  assumes "bytes_at (msg_payload (md_message md)) (unat (msg_payloadlen (md_message md))) = Some bs"
  shows "MqttMessageArrived md a =
    (if length bs < 1024 \<or> length bs = 1024 \<and> 0 \<in> set bs
     then Some (a\<lparr>msgBuffer := bs @ replicate (1024 - length bs) 0,
       printed := printed a @ [(size_to_int (msg_payloadlen (md_message md)), takeWhile (\<lambda>b. b \<noteq> 0) bs)]\<rparr>)
     else None)"
proof (cases "length bs \<le> 1024")
  case True
  then have "put (replicate MQTT_BUFSIZE 0) 0 bs = Some (bs @ replicate (1024 - length bs) 0)"
    by (simp add: put_def MQTT_BUFSIZE_def overwrite_def)
  moreover have "format_s (- 1) (Ptr (bs @ replicate (1024 - length bs) 0)) =
      (if length bs < 1024 \<or> 0 \<in> set bs then Some (takeWhile (\<lambda>b. b \<noteq> 0) bs) else None)"
    using True by (auto simp: takeWhile_zeros Let_def)
  ultimately show ?thesis
    using assms True by (auto simp: MqttMessageArrived_def Let_def)
next
  case False
  then show ?thesis
    using assms by (simp add: MqttMessageArrived_def Let_def put_def MQTT_BUFSIZE_def)
qed

lemma MqttMessageArrived_unreadable:
  "bytes_at (msg_payload (md_message md)) (unat (msg_payloadlen (md_message md))) = None \<Longrightarrow> MqttMessageArrived md a = None"
  by (simp add: MqttMessageArrived_def Let_def)

subsection \<open>The message text\<close>

lemma message_text_no_zero: "0 \<notin> set name \<Longrightarrow> 0 \<notin> set (message_text name v)"
  using digits_are_digits [of 0 "unat v"] by (auto simp: message_text_def text_of_def is_digit_def)

text \<open>\<^verbatim>\<open>str\<close> has 256 bytes, so a text of more than 255 characters is cut.\<close>

definition published_text :: "byte list \<Rightarrow> 64 word \<Rightarrow> byte list" where
  "published_text name v = take 255 (message_text name v)"

lemma published_text_props:
  "length (published_text name v) \<le> 255" "0 \<notin> set name \<Longrightarrow> 0 \<notin> set (published_text name v)"
  using message_text_no_zero [of name v] by (auto simp: published_text_def dest: in_set_takeD)

lemma compose_message_text:
  fixes v :: "64 word"
  assumes "cstring_of (device_name config) name" "length str = 256"
  defines "str' \<equiv> published_text name v @ 0 # drop (length (published_text name v) + 1) str"
  shows "compose_message config v str m =
    Some (str', m\<lparr>msg_payload := Ptr str', msg_payloadlen := word_of_nat (length (published_text name v))\<rparr>)"
proof -
  have name: "format_s (- 1) (device_name config) = Some name" and nz: "0 \<notin> set (published_text name v)"
    using assms(1) published_text_props(2) [of name v] by (auto simp: cstring_of_def Let_def)
  have "snprintf (str, 0) 256 (message_text name v) = Some (int (length (message_text name v)), str')"
    using assms(2) snprintf_spec [of 256 str "message_text name v"]
    by (simp add: str'_def overwrite_def published_text_def)
  moreover have "strlen (Ptr str') = Some (int (length (published_text name v)))"
    using nz by (intro strlen_cstring_of) (auto simp: cstring_of_def str'_def)
  ultimately show ?thesis
    using name by (simp add: compose_message_def)
qed

subsection \<open>From the register to the console of another device\<close>

lemma publish_of_valid:
  assumes "cstring_of topicName s" "length s \<le> 65535" "msg_qos m = QOS0"
    and "bytes_at (msg_payload m) (unat (msg_payloadlen m)) = Some bs" "unat (msg_payloadlen m) < 268000000"
  shows "publish_valid (publish_of topicName m)"
    "publish_body (publish_of topicName m) = utf_bytes s @ bs"
proof -
  have n: "size_to_int (msg_payloadlen m) = int (unat (msg_payloadlen m))"
    using assms(5) by (intro size_to_int_small) simp
  have t: "denotes (topic_string topicName) s" "mqtt_content (topic_string topicName) = s"
    using assms(1,2) topic_content [OF assms(1)] by (simp_all add: denotes_def topic_string_def MQTTString_initializer_def)
  have "content (msg_payload m) (unat (msg_payloadlen m)) = bs"
    using assms(4) by (rule bytes_at_content)
  then show body: "publish_body (publish_of topicName m) = utf_bytes s @ bs"
    using n t assms(3) by (simp add: publish_body_def publish_of_def QOS0_def del: of_nat_unat)
  show "publish_valid (publish_of topicName m)"
    using n t assms body length_bytes_at [OF assms(4)]
    by (simp add: publish_valid_def publish_of_def QOS0_def del: of_nat_unat)
qed

lemma arrived_prints:
  assumes "carries s m md" "bytes_at (msg_payload m) (unat (msg_payloadlen m)) = Some bs"
    and "length bs < 1024" "0 \<notin> set bs"
  obtains a' where "run_all [MqttMessageArrived] md a = Some a'"
    "printed a' = printed a @ [(int (length bs), bs)]"
proof -
  have "bytes_at (msg_payload (md_message md)) (unat (msg_payloadlen (md_message md))) = Some bs"
    "msg_payloadlen (md_message md) = msg_payloadlen m"
    using assms(1,2) by (simp_all add: carries_def)
  moreover have "size_to_int (msg_payloadlen m) = int (length bs)"
    using length_bytes_at [OF assms(2)] assms(3) by (simp add: size_to_int_small)
  moreover have "takeWhile (\<lambda>b. b \<noteq> 0) bs = bs"
    using assms(4) by (auto simp: takeWhile_eq_all_conv)
  ultimately show thesis
    using that [of "a\<lparr>msgBuffer := bs @ replicate (1024 - length bs) 0, printed := printed a @ [(int (length bs), bs)]\<rparr>"]
      assms(3) by (simp add: MqttMessageArrived_bytes)
qed

text \<open>What a round of the publishing thread sends, or how it fails.\<close>

lemma pub_round_outcome:
  assumes "client_inv c" "small_buffers c" "online w" "handles_live w" "isconnected c \<noteq> 0"
    and "compose_message config x str m = Some (str', m')" "msg_qos m' = QOS0" "publish_valid (publish_of (topic config) m')"
  obtains c' w' where "pub_round config x str m c w = Some (1, str', m', c', w')" "isconnected c' = 0"
  | c' w' where "pub_round config x str m c w = Some (0, str', m', c', w')" "isconnected c' \<noteq> 0"
      "sent w' = sent w @ publish_wire (publish_of (topic config) m')"
proof -
  have closed: "isconnected (MQTTCloseSession c) = 0" for c :: app_client
    by (simp add: MQTTCloseSession_def MQTTCleanSession_def Let_def)
  from MQTTPublish_qos0 [OF assms(1-3,5,7,8)] obtain rc c' w' where
    p: "MQTTPublish c (topic config) m' w = Some (rc, m', c', w')"
    and r: "rc = MQTT_SUCCESS \<and> sends w (publish_wire (publish_of (topic config) m')) w' \<and> isconnected c' = isconnected c \<or>
      rc = FAILURE \<and> isconnected c' = 0 \<and> (\<exists>k. sends w (take k (publish_wire (publish_of (topic config) m'))) w')"
    by blast
  from r show thesis
  proof
    assume "rc = MQTT_SUCCESS \<and> sends w (publish_wire (publish_of (topic config) m')) w' \<and> isconnected c' = isconnected c"
    then show thesis
      using p assms(5,6) by (intro that(2) [of c' "task_sleep 1000 w'"])
        (simp_all add: pub_round_def task_sleep_def sends_sel)
  next
    assume f: "rc = FAILURE \<and> isconnected c' = 0 \<and> (\<exists>k. sends w (take k (publish_wire (publish_of (topic config) m'))) w')"
    then have "ssl w' = ssl w" "ctx w' = ctx w" "bio_err w' = bio_err w"
      by (auto simp: sends_def)
    then obtain w'' where "mqtt_network_disconnect w' = Some w''"
      using assms(4) mqtt_network_disconnect_live [of w'] by (auto simp: handles_live_def)
    then show thesis
      using p f assms(6) closed by (intro that(1) [of "MQTTCloseSession c'" w''])
        (simp_all add: pub_round_def FAILURE_def MQTT_SUCCESS_def)
  qed
qed


text \<open>The device \<open>D\<close> publishes the value 7 under the topic \<open>t\<close>.\<close>

definition example_device :: "rx_event list \<Rightarrow> app_world" where
  "example_device es = \<lparr>clock = clock example_world, ticks = 0, rx = es, tx = [Tx_accept 10, Tx_want, Tx_accept 100], sent = [],
     selects = [], tls_envs = [], ssl = Live, ctx = Live, bio_err = Live, sockfd = 3, server_addr = (0, []),
     closed_fds = [], mqttNet = mqttNet example_world, junk_topic = MQTTString_initializer, junk_payload = Wild,
     junk_byte = 0, junk_int = 0, junk_u16 = 0, app = \<lparr>msgBuffer = [], printed = [], app_naps = []\<rparr>\<rparr>"

definition example_mqtt_config :: mqtt_config where
  "example_mqtt_config = \<lparr>broker_ip = Null, broker_port = Null, device_name = Ptr [68, 0], topic = Ptr [116, 0],
     ca_cert_file = Null, client_cert_file = Null, client_key_file = Null\<rparr>"

lemma example_device_online: "online (example_device es)" "handles_live (example_device es)"
  by (simp_all add: online_def functions_set_def handles_live_def example_device_def example_world_def)

text \<open>The bytes of the text with device name \<open>D\<close> and value 7, written out.\<close>

definition example_json :: "byte list" where
  "example_json = [123, 10, 32, 32, 34, 100, 101, 118, 105, 99, 101, 34, 58, 32, 34, 68, 34, 44, 10,
     32, 32, 34, 100, 97, 116, 97, 34, 58, 32, 55, 10, 125]"

lemma example_text: "published_text [68] 7 = example_json" "length example_json = 32"
  by (simp_all add: published_text_def message_text_def text_of_def digits.simps example_json_def)


subsection \<open>A packet that stops the program\<close>

text \<open>
  C9. A PUBLISH packet with QoS above 0 whose body ends after the topic stops a device that listens to
  the topic with \<^verbatim>\<open>MqttMessageArrived\<close>: the missing identifier makes the payload length \<open>-2\<close>, which the handler passes
  to \<^verbatim>\<open>memcpy\<close> as a length of almost four gigabytes, and the receive cycle has no defined result.
\<close>

theorem short_publish_faults:
  assumes "client_inv d" "small_buffers d" "short_filters d" "online v"
    and "receivers d s = MqttMessageArrived # fs"
    and "header_type h = msgType PUBLISH" "header_qos h > 0" "length s \<le> 65535"
    and "length (packet_bytes h (utf_bytes s)) + 2 \<le> length (readbuf d)"
    and "readable v = packet_bytes h (utf_bytes s) @ rest"
  shows "cycle d timer v = None"
proof (rule readPacket_receives [OF assms(1,2,10), of timer])
  let ?pkt = "packet_bytes h (utf_bytes s)"
  define b where "b = overwrite (readbuf d) 0 ?pkt"
  fix t v1
  assume r: "readPacket d timer v = Some (header_type h, d\<lparr>readbuf := overwrite (readbuf d) 0 ?pkt, last_received := t\<rparr>, v1)"
  define tl where "tl = drop (length ?pkt) (readbuf d)"
  have b: "b = ?pkt @ tl" "2 \<le> length tl"
    using assms(9) by (simp_all add: b_def tl_def overwrite_def)
  define d1 where "d1 = d\<lparr>readbuf := b, last_received := t\<rparr>"
  have d1: "handlers_inv (messageHandlers d1)" "short_filters d1" "receivers d1 s = receivers d s"
    using assms(1,3) by (simp_all add: d1_def client_inv_def short_filters_def receivers_def Let_def)
  obtain p where p: "MQTTDeserialize_publish (publish_junk v1) b = Some (1, p)" "pub_payloadlen p = - 2"
    "pub_payload p = Ptr (drop 2 tl)" "denotes (pub_topicName p) s" "topic_name (pub_topicName p) s"
    using publish_truncated_id [OF assms(6-8) b(2), of "publish_junk v1"] unfolding b(1)
    by (auto intro: topic_name_received)
  have small: "length tl < 2147483648"
    using assms(1,2) by (auto simp: tl_def client_inv_def small_buffers_def intro: less_imp_diff_less)
  have "unat (msg_payloadlen (message_of p)) = 4294967294"
    using p(2) by (simp add: message_of_def)
  then have "bytes_at (msg_payload (message_of p)) (unat (msg_payloadlen (message_of p))) = None"
    using p(3) small by (simp add: message_of_def)
  then have "MqttMessageArrived (NewMessageData (pub_topicName p) (message_of p)) a = None" for a
    by (intro MqttMessageArrived_unreadable) (simp add: NewMessageData_def)
  then have "deliverMessage d1 (pub_topicName p) (message_of p) v1 = None"
    using assms(5) d1(3) by (intro deliverMessage_fault [OF d1(1,2) p(4,5)]) simp
  then have "cycle_dispatch (header_type h) d1 timer v1 = None"
    using p(1) assms(6) by (simp add: cycle_dispatch_def cycle_publish_def d1_def)
  then show ?thesis
    using r unfolding b_def [symmetric] d1_def [symmetric] by (simp add: cycle_def)
qed (use assms(8,9) in simp_all)

theorem short_publish_faults_witness:
  "cycle (subscribed (Ptr [116, 0]) MqttMessageArrived) TimerInit (example_device [Rx_data [50, 3, 0, 1, 116]]) = None"
proof (rule short_publish_faults [where h = 50 and s = "[116]" and rest = "[]" and fs = "[]"])
  have f: "cstring_of (Ptr [116, 0]) [116]"
    by (simp add: cstring_of_def)
  show "client_inv (subscribed (Ptr [116, 0]) MqttMessageArrived)" "small_buffers (subscribed (Ptr [116, 0]) MqttMessageArrived)"
    "short_filters (subscribed (Ptr [116, 0]) MqttMessageArrived)"
    "receivers (subscribed (Ptr [116, 0]) MqttMessageArrived) [116] = [MqttMessageArrived]"
    "length (packet_bytes 50 (utf_bytes [116])) + 2 \<le> length (readbuf (subscribed (Ptr [116, 0]) MqttMessageArrived))"
    using subscribed_ok(1-4) [OF f, of MqttMessageArrived] subscribed_ok(5) [OF f, of "[116]" MqttMessageArrived] by (simp_all add: packet_bytes_def remlen_bytes.simps)
  show "readable (example_device [Rx_data [50, 3, 0, 1, 116]]) = packet_bytes 50 (utf_bytes [116]) @ []"
    by (simp add: example_device_def example_world_def readable_def pending_def packet_bytes_def remlen_bytes.simps
        utf_bytes_def int_bytes_def)
qed (simp_all add: example_device_online header_type_def header_qos_def)

subsection \<open>Loss of the broker\<close>

lemma unreachable_keeps_ssl:
  assumes "tls_envs w = e # es" "env_connect e < 0" "atoi port = Some k"
  obtains w' where "mqtt_network_connect port w = Some (1, w')" "ssl w' = ssl w"
proof -
  define w0 where "w0 = (mqtt_network_init w)\<lparr>tls_envs := es, bio_err := Live\<rparr>"
  have w0: "ssl w0 = ssl w"
    by (simp add: w0_def mqtt_network_init_def)
  obtain rc1 w1 where 1: "network_setup_context e w0 = (rc1, w1)" by fastforce
  obtain rc2 w2 where 2: "network_setup_socket e k w1 = (rc2, w2)" by fastforce
  have c: "mqtt_network_connect port w = Some (if rc1 \<noteq> 0 then (rc1, w1) else if rc2 \<noteq> 0 then (rc2, w2) else network_setup_tls e w2)"
    using assms(1,3) 1 2 by (simp add: mqtt_network_connect_def mqtt_network_init_def w0_def)
  have "ssl w1 = ssl w" "rc1 = 0 \<or> rc1 = 1"
    using network_setup_context_cases [OF 1] w0 by auto
  moreover have "rc2 = 1"
    using 2 assms(2) by (cases "env_host e") (auto simp: network_setup_socket_def Let_def split: if_splits)
  moreover have "ssl w2 = ssl (w1\<lparr>sockfd := env_socket e, server_addr := server_addr w2\<rparr>)"
    using network_setup_socket_cases [OF 2] by (metis (no_types))
  ultimately show thesis
    using c that by auto
qed

lemma frame_waitfor_loop: "waitfor_loop c t timer rc w = Some (rc', c', w') \<Longrightarrow> frame w w'"
proof (induction c t timer rc w rule: waitfor_loop.induct)
  case (1 c t timer rc w)
  obtain e w1 where e: "TimerIsExpired timer w = (e, w1)" by fastforce
  note f = frame_timer(1) [OF e]
  show ?case
  proof (cases "e \<or> cycle c timer w1 = None")
    case True
    with "1.prems" e f show ?thesis
      by (auto simp: waitfor_loop.simps [of c] split: if_splits)
  next
    case False
    then obtain r c2 w2 where c: "cycle c timer w1 = Some (r, c2, w2)"
      by auto
    note f2 = frame_trans [OF f cycle_consumes(1) [OF c]]
    show ?thesis
    proof (cases "r \<noteq> t \<and> 0 \<le> r")
      case True
      with "1.prems" False e c have "waitfor_loop c2 t timer r w2 = Some (rc', c', w')"
        by (simp add: waitfor_loop.simps [of c])
      from "1.IH" [OF e [symmetric] _ c refl refl True this] False f2 show ?thesis
        by (blast intro: frame_trans)
    next
      case nf: False
      with "1.prems" False e c f2 show ?thesis
        by (auto simp: waitfor_loop.simps [of c])
    qed
  qed
qed


lemma frame_publish_wait: "publish_wait c t timer w = Some (rc, c', w') \<Longrightarrow> frame w w'"
  by (auto simp: publish_wait_def waitfor_def bind_eq_Some_conv split: if_splits dest: frame_waitfor_loop)

lemma frame_MQTTPublish:
  assumes "MQTTPublish c topicName m w = Some (rc, m', c', w')"
  shows "frame w w'"
proof (cases "isconnected c = 0")
  case True
  with assms show ?thesis
    by (simp add: MQTTPublish_def)
next
  case False
  obtain timer w1 where t: "TimerCountdownMS (command_timeout_ms c) w = (timer, w1)" by fastforce
  define mc where "mc = (if msg_qos m = QOS1 \<or> msg_qos m = QOS2
      then (case getNextPacketId c of (i, c) \<Rightarrow> (m\<lparr>msg_id := word_of_int i\<rparr>, c)) else (m, c))"
  obtain m1 c1 where mc: "mc = (m1, c1)" by fastforce
  from assms False obtain n b where ser: "MQTTSerialize_publish (sendbuf c1) (size_to_int (buf_size c1))
      \<lparr>pub_dup = 0, pub_qos = msg_qos m1, pub_retained = msg_retained m1, pub_packetid = msg_id m1,
       pub_topicName = topic_string topicName, pub_payload = msg_payload m1, pub_payloadlen = size_to_int (msg_payloadlen m1)\<rparr> = Some (n, b)"
    unfolding MQTTPublish_def t Let_def mc_def [symmetric] mc by (auto simp: bind_eq_Some_conv)
  have "frame w1 w'"
    using assms False ser unfolding MQTTPublish_def t Let_def mc_def [symmetric] mc
    by (auto simp: bind_eq_Some_conv split: if_splits dest!: frame_sendPacket frame_publish_wait intro: frame_trans)
  with frame_timer(4) [OF t] show ?thesis
    by (rule frame_trans)
qed

text \<open>
  C10. Loss of the broker. After a round in which the publication failed, the publishing thread reconnects. If the broker refuses
  the TCP connection, the first attempt already calls \<^verbatim>\<open>mqtt_network_disconnect\<close> on the TLS connection that the
  failed round has freed: the attempts have no defined result.
\<close>

theorem lost_broker_faults:
  assumes "online w" "pub_round config x str m c w = Some (1, str', m', c', w')"
    and "tls_envs w = e # es" "env_connect e < 0" "atoi (broker_port config) = Some port"
  shows "broker_attempts (Suc n) config c' w' = None"
proof -
  from assms(2) obtain msg m2 rc c2 w2 where p: "MQTTPublish c (topic config) msg w = Some (rc, m2, c2, w2)"
    and d: "mqtt_network_disconnect w2 = Some w'"
    by (auto simp: pub_round_def bind_eq_Some_conv split: if_splits)
  note f = frame_MQTTPublish [OF p]
  have live: "ssl w2 = Live" "tls_envs w2 = e # es"
    using assms(1,3) frame_sel(1,9) [OF f] by (simp_all add: online_def)
  have "ssl w' = Freed" "tls_envs w' = e # es"
    using d live by (auto simp: mqtt_network_disconnect_def SSL_shutdown_def close_fd_def Let_def bind_eq_Some_conv)
  moreover from this(2) obtain w3 where "mqtt_network_connect (broker_port config) w' = Some (1, w3)" "ssl w3 = ssl w'"
    by (rule unreachable_keeps_ssl [OF _ assms(4,5)])
  ultimately show ?thesis
    by (simp add: MqttConnectBroker_def mqtt_network_disconnect_stale MQTT_SUCCESS_def)
qed


theorem lost_broker_faults_witness:
  "\<exists>str' m' c' w'. pub_round (example_mqtt_config\<lparr>broker_port := Ptr [56, 56, 0]\<rparr>) 7 (replicate 256 0) (message_junk (example_device []))
      example_client ((example_device [])\<lparr>tls_envs := [example_env\<lparr>env_connect := - 1\<rparr>]\<rparr>) = Some (1, str', m', c', w') \<and>
    broker_attempts (Suc 9) (example_mqtt_config\<lparr>broker_port := Ptr [56, 56, 0]\<rparr>) c' w' = None"
proof -
  let ?config = "example_mqtt_config\<lparr>broker_port := Ptr [56, 56, 0]\<rparr>"
  let ?w = "(example_device [])\<lparr>tls_envs := [example_env\<lparr>env_connect := - 1\<rparr>]\<rparr>"
  have "cstring_of (device_name ?config) [68]"
    by (simp add: example_mqtt_config_def cstring_of_def)
  then obtain str' m' where m: "compose_message ?config 7 (replicate 256 0) (message_junk (example_device [])) = Some (str', m')"
    using compose_message_text [where config = ?config and str = "replicate 256 0"] by auto
  obtain w' where d: "mqtt_network_disconnect ?w = Some w'"
    using mqtt_network_disconnect_live [of ?w] by (auto simp: example_device_def)
  have "isconnected (example_client :: app_client) = 0"
    by (simp add: example_client_def)
  with m d have r: "pub_round ?config 7 (replicate 256 0) (message_junk (example_device [])) example_client ?w =
      Some (1, str', m', MQTTCloseSession (close_on_failure FAILURE example_client), w')"
    by (simp add: pub_round_def MQTTPublish_def FAILURE_def MQTT_SUCCESS_def)
  have "online ?w"
    using example_device_online(1) [of "[]"] by (simp add: online_def functions_set_def)
  then have "broker_attempts (Suc 9) ?config (MQTTCloseSession (close_on_failure FAILURE example_client)) w' = None"
    using r by (rule lost_broker_faults [where e = "example_env\<lparr>env_connect := - 1\<rparr>"])
      (simp_all add: atoi_bytes_def is_space_def is_digit_def decimal_def)
  with r show ?thesis
    by blast
qed

end
