(* ===== verification/Handover.thy ===== *)
theory Handover
  imports Mqtt_Task
begin

text \<open>
  The hand-over of values from the Modbus thread to the publishing thread: the global variable
  \<^verbatim>\<open>shared_value\<close> with its mutex and condition variable, as steps of the two threads in any order.
\<close>

subsection \<open>Steps\<close>

text \<open>
  The publishing thread works, waits in \<^verbatim>\<open>pthread_cond_wait\<close>, or has been woken and not yet taken the mutex again.
  A critical section is one step since the mutex is held during it.
\<close>

datatype waiter = Working | Waiting | Woken

record handover =
  producer :: modbus
  consumer :: waiter
  taken :: "64 word list"

definition start :: "modbus \<Rightarrow> handover" where
  "start s = \<lparr>producer = s\<lparr>shared_value := 0, signalled := []\<rparr>, consumer = Working, taken = []\<rparr>"

text \<open>
  \<^verbatim>\<open>pthread_cond_signal\<close> wakes the thread if it is waiting and is lost otherwise. The flag \<open>spurious\<close> allows
  \<^verbatim>\<open>pthread_cond_wait\<close> to return without a signal, as POSIX permits.
\<close>

inductive handover_step :: "bool \<Rightarrow> handover \<Rightarrow> handover \<Rightarrow> bool" for spurious where
  post: "handover_step spurious s
    (s\<lparr>producer := send_value v (producer s), consumer := (if consumer s = Waiting then Woken else consumer s)\<rparr>)"
| wait: "consumer s = Working \<Longrightarrow> handover_step spurious s (s\<lparr>consumer := Waiting\<rparr>)"
| wake: "spurious \<Longrightarrow> consumer s = Waiting \<Longrightarrow> handover_step spurious s (s\<lparr>consumer := Woken\<rparr>)"
| take: "consumer s = Woken \<Longrightarrow> handover_step spurious s
    (s\<lparr>consumer := Working, taken := taken s @ [shared_value (producer s)]\<rparr>)"

inductive reachable :: "bool \<Rightarrow> handover \<Rightarrow> bool" for spurious where
  init: "reachable spurious (start s)"
| step: "reachable spurious s \<Longrightarrow> handover_step spurious s t \<Longrightarrow> reachable spurious t"

inductive_cases handover_stepE: "handover_step spurious s t"

subsection \<open>Invariants\<close>

definition shows_last :: "handover \<Rightarrow> bool" where
  "shows_last s \<longleftrightarrow> shared_value (producer s) = last (0 # signalled (producer s))"

text \<open>
  The values that \<^verbatim>\<open>shared_value\<close> has had, and the positions of the taken values among them. Without
  spurious wake-ups each is later than the one before, and a thread that is woken will take a later one.
\<close>

definition history :: "handover \<Rightarrow> 64 word list" where
  "history s = 0 # signalled (producer s)"

definition sampled :: "bool \<Rightarrow> handover \<Rightarrow> nat list \<Rightarrow> bool" where
  "sampled b s ks \<longleftrightarrow> taken s = map (\<lambda>k. history s ! k) ks \<and> sorted_wrt (if b then (\<le>) else (<)) ks \<and>
     (\<forall>k \<in> set ks. k < length (history s) \<and> (\<not> b \<longrightarrow> 0 < k)) \<and>
     (\<not> b \<and> consumer s = Woken \<longrightarrow> (\<forall>k \<in> set (0 # ks). k < length (signalled (producer s))))"

lemma shows_last_step: "handover_step b s t \<Longrightarrow> shows_last s \<Longrightarrow> shows_last t"
  by (auto simp: shows_last_def send_value_def elim!: handover_stepE)

lemma reachable_shows_last: "reachable b s \<Longrightarrow> shows_last s"
proof (induction rule: reachable.induct)
  case (init s)
  then show ?case
    by (simp add: shows_last_def start_def)
qed (rule shows_last_step)

lemma history_last: "shows_last s \<Longrightarrow> shared_value (producer s) = history s ! length (signalled (producer s))"
  by (simp add: shows_last_def history_def last_conv_nth)

lemma sampled_step:
  assumes "handover_step b s t" "shows_last s" "sampled b s ks"
  shows "\<exists>ks. sampled b t ks"
  using assms(1)
proof cases
  case (post v)
  have "sampled b t ks"
    using post assms(3) by (auto simp: sampled_def history_def send_value_def nth_append nth_Cons' less_Suc_eq)
  then show ?thesis ..
next
  case take
  have "sampled b t (ks @ [length (signalled (producer s))])"
    using take assms(3) history_last [OF assms(2)]
    by (auto simp: sampled_def history_def sorted_wrt_append less_Suc_eq_le)
  then show ?thesis ..
next
  case wait
  then show ?thesis
    using assms(3) by (auto simp: sampled_def history_def)
next
  case wake
  then show ?thesis
    using assms(3) by (auto simp: sampled_def history_def)
qed

lemma reachable_sampled: "reachable b s \<Longrightarrow> \<exists>ks. sampled b s ks"
proof (induction rule: reachable.induct)
  case (init s)
  have "sampled b (start s) []"
    by (simp add: sampled_def start_def)
  then show ?case ..
next
  case (step s t)
  then show ?case
    using sampled_step [OF step(2) reachable_shows_last [OF step(1)]] by blast
qed

text \<open>
  C8. The values that the publishing thread takes, in every interleaving of the threads. Without spurious
  wake-ups of \<^verbatim>\<open>pthread_cond_wait\<close> each taken value is one that the Modbus thread has signalled, and
  comes from a later signal than the one taken before: the order is kept, no signal is taken twice,
  some can be missed. With spurious wake-ups the order is still that of the signals, but a value
  can be taken again, and before the first signal the initial 0 can be taken.
\<close>

theorem handover_order:
  assumes "reachable spurious s"
  shows "\<exists>ks. taken s = map (\<lambda>k. (0 # signalled (producer s)) ! k) ks \<and> (\<forall>k \<in> set ks. k \<le> length (signalled (producer s))) \<and>
    sorted ks \<and> (\<not> spurious \<longrightarrow> sorted_wrt (<) (0 # ks))"
proof -
  obtain ks where "sampled spurious s ks"
    using reachable_sampled [OF assms] by blast
  then show ?thesis
    by (intro exI [of _ ks]) (cases spurious; auto simp: sampled_def history_def strict_sorted_imp_sorted)
qed

text \<open>
  Two values are signalled while the publishing thread is waking up; the first is lost. A spurious
  wake-up before the first signal takes 0.
\<close>

theorem handover_order_witness:
  "(\<exists>s ks. reachable False s \<and> signalled (producer s) = [4, 5] \<and> taken s = [5] \<and>
     taken s = map (\<lambda>k. (0 # signalled (producer s)) ! k) ks \<and> sorted_wrt (<) (0 # ks)) \<and>
   (\<exists>s ks. reachable True s \<and> signalled (producer s) = [] \<and> taken s = [0] \<and>
     taken s = map (\<lambda>k. (0 # signalled (producer s)) ! k) ks \<and> sorted ks)"
proof
  define s0 where "s0 = start example_modbus"
  define s1 where "s1 = s0\<lparr>consumer := Waiting\<rparr>"
  define s2 where "s2 = s1\<lparr>producer := send_value 4 (producer s1), consumer := Woken\<rparr>"
  define s3 where "s3 = s2\<lparr>producer := send_value 5 (producer s2), consumer := Woken\<rparr>"
  define s4 where "s4 = s3\<lparr>consumer := Working, taken := taken s3 @ [shared_value (producer s3)]\<rparr>"
  define s5 where "s5 = s1\<lparr>consumer := Woken\<rparr>"
  define s6 where "s6 = s5\<lparr>consumer := Working, taken := taken s5 @ [shared_value (producer s5)]\<rparr>"
  note defs = s0_def s1_def s2_def s3_def s4_def s5_def s6_def start_def send_value_def
  have "reachable b s0" for b
    unfolding s0_def by (rule init)
  then have s1: "reachable b s1" for b
    by (rule step) (unfold s1_def, rule wait, simp add: s0_def start_def)
  then have "reachable False s2"
    by (rule step) (use post [of False s1 4] in \<open>simp add: s2_def s1_def\<close>)
  then have "reachable False s3"
    by (rule step) (use post [of False s2 5] in \<open>simp add: s3_def s2_def\<close>)
  then have r: "reachable False s4"
    by (rule step) (unfold s4_def, rule take, simp add: s3_def)
  have "signalled (producer s4) = [4, 5]" "taken s4 = [5]"
    by (simp_all add: defs)
  moreover obtain ks where "taken s4 = map (\<lambda>k. (0 # signalled (producer s4)) ! k) ks" "sorted_wrt (<) (0 # ks)"
    using handover_order [OF r] by auto
  ultimately show "\<exists>s ks. reachable False s \<and> signalled (producer s) = [4, 5] \<and> taken s = [5] \<and>
     taken s = map (\<lambda>k. (0 # signalled (producer s)) ! k) ks \<and> sorted_wrt (<) (0 # ks)"
    using r by (intro exI [of _ s4] exI [of _ ks]) simp
  from s1 have "reachable True s5"
    by (rule step) (unfold s5_def, rule wake, simp_all add: s1_def)
  then have r: "reachable True s6"
    by (rule step) (unfold s6_def, rule take, simp add: s5_def)
  have "signalled (producer s6) = []" "taken s6 = [0]"
    by (simp_all add: defs)
  moreover obtain ks where "taken s6 = map (\<lambda>k. (0 # signalled (producer s6)) ! k) ks" "sorted ks"
    using handover_order [OF r] by auto
  ultimately show "\<exists>s ks. reachable True s \<and> signalled (producer s) = [] \<and> taken s = [0] \<and>
     taken s = map (\<lambda>k. (0 # signalled (producer s)) ! k) ks \<and> sorted ks"
    using r by (intro exI [of _ s6] exI [of _ ks]) simp
qed

end
