(* ===== verification/Tls_Handshake.thy ===== *)
theory Tls_Handshake
  imports C_Prelude
begin

text \<open>
  The handshake state machine of the TLS client in the vendored OpenSSL (\<^verbatim>\<open>ssl/statem/statem_clnt.c\<close>): which
  message may be read or written next. \<^verbatim>\<open>SSL_connect\<close>, which \<^verbatim>\<open>mqtt_network_connect\<close> calls, runs it.
\<close>

unbundle bit_operations_syntax

subsection \<open>States and messages\<close>

text \<open>The states of a client. The states of a server do not occur in the client's functions.\<close>

datatype handshake_state =
    TLS_ST_BEFORE | TLS_ST_OK | DTLS_ST_CR_HELLO_VERIFY_REQUEST | TLS_ST_CR_SRVR_HELLO | TLS_ST_CR_CERT
  | TLS_ST_CR_COMP_CERT | TLS_ST_CR_CERT_STATUS | TLS_ST_CR_KEY_EXCH | TLS_ST_CR_CERT_REQ | TLS_ST_CR_SRVR_DONE
  | TLS_ST_CR_SESSION_TICKET | TLS_ST_CR_CHANGE | TLS_ST_CR_FINISHED | TLS_ST_CW_CLNT_HELLO | TLS_ST_CW_CERT
  | TLS_ST_CW_COMP_CERT | TLS_ST_CW_KEY_EXCH | TLS_ST_CW_CERT_VRFY | TLS_ST_CW_CHANGE | TLS_ST_CW_NEXT_PROTO
  | TLS_ST_CW_FINISHED | TLS_ST_CR_ENCRYPTED_EXTENSIONS | TLS_ST_CR_CERT_VRFY | TLS_ST_CR_HELLO_REQ
  | TLS_ST_CW_KEY_UPDATE | TLS_ST_CR_KEY_UPDATE | TLS_ST_EARLY_DATA | TLS_ST_PENDING_EARLY_DATA_END
  | TLS_ST_CW_END_OF_EARLY_DATA

abbreviation SSL3_MT_HELLO_REQUEST :: int where "SSL3_MT_HELLO_REQUEST \<equiv> 0"
abbreviation SSL3_MT_CLIENT_HELLO :: int where "SSL3_MT_CLIENT_HELLO \<equiv> 1"
abbreviation SSL3_MT_SERVER_HELLO :: int where "SSL3_MT_SERVER_HELLO \<equiv> 2"
abbreviation DTLS1_MT_HELLO_VERIFY_REQUEST :: int where "DTLS1_MT_HELLO_VERIFY_REQUEST \<equiv> 3"
abbreviation SSL3_MT_NEWSESSION_TICKET :: int where "SSL3_MT_NEWSESSION_TICKET \<equiv> 4"
abbreviation SSL3_MT_END_OF_EARLY_DATA :: int where "SSL3_MT_END_OF_EARLY_DATA \<equiv> 5"
abbreviation SSL3_MT_ENCRYPTED_EXTENSIONS :: int where "SSL3_MT_ENCRYPTED_EXTENSIONS \<equiv> 8"
abbreviation SSL3_MT_CERTIFICATE :: int where "SSL3_MT_CERTIFICATE \<equiv> 11"
abbreviation SSL3_MT_SERVER_KEY_EXCHANGE :: int where "SSL3_MT_SERVER_KEY_EXCHANGE \<equiv> 12"
abbreviation SSL3_MT_CERTIFICATE_REQUEST :: int where "SSL3_MT_CERTIFICATE_REQUEST \<equiv> 13"
abbreviation SSL3_MT_SERVER_DONE :: int where "SSL3_MT_SERVER_DONE \<equiv> 14"
abbreviation SSL3_MT_CERTIFICATE_VERIFY :: int where "SSL3_MT_CERTIFICATE_VERIFY \<equiv> 15"
abbreviation SSL3_MT_CLIENT_KEY_EXCHANGE :: int where "SSL3_MT_CLIENT_KEY_EXCHANGE \<equiv> 16"
abbreviation SSL3_MT_FINISHED :: int where "SSL3_MT_FINISHED \<equiv> 20"
abbreviation SSL3_MT_CERTIFICATE_STATUS :: int where "SSL3_MT_CERTIFICATE_STATUS \<equiv> 22"
abbreviation SSL3_MT_KEY_UPDATE :: int where "SSL3_MT_KEY_UPDATE \<equiv> 24"
abbreviation SSL3_MT_COMPRESSED_CERTIFICATE :: int where "SSL3_MT_COMPRESSED_CERTIFICATE \<equiv> 25"
abbreviation SSL3_MT_NEXT_PROTO :: int where "SSL3_MT_NEXT_PROTO \<equiv> 67"
abbreviation SSL3_MT_CHANGE_CIPHER_SPEC :: int where "SSL3_MT_CHANGE_CIPHER_SPEC \<equiv> 257"
abbreviation SSL3_MT_DUMMY :: int where "SSL3_MT_DUMMY \<equiv> - 1"


subsection \<open>The connection\<close>

datatype hrr_state = SSL_HRR_NONE | SSL_HRR_PENDING | SSL_HRR_COMPLETE

datatype pha_state = SSL_PHA_NONE | SSL_PHA_EXT_SENT | SSL_PHA_EXT_RECEIVED | SSL_PHA_REQUEST_PENDING | SSL_PHA_REQUESTED

datatype early_data_state =
    SSL_EARLY_DATA_NONE | SSL_EARLY_DATA_CONNECT_RETRY | SSL_EARLY_DATA_CONNECTING | SSL_EARLY_DATA_WRITE_RETRY
  | SSL_EARLY_DATA_WRITING | SSL_EARLY_DATA_WRITE_FLUSH | SSL_EARLY_DATA_UNAUTH_WRITING
  | SSL_EARLY_DATA_FINISHED_WRITING | SSL_EARLY_DATA_ACCEPT_RETRY | SSL_EARLY_DATA_ACCEPTING
  | SSL_EARLY_DATA_READ_RETRY | SSL_EARLY_DATA_READING | SSL_EARLY_DATA_FINISHED_READING

record ssl_cipher =
  algorithm_mkey :: "32 word"
  algorithm_auth :: "32 word"

datatype msg_flow_state = MSG_FLOW_UNINITED | MSG_FLOW_ERROR | MSG_FLOW_READING | MSG_FLOW_WRITING | MSG_FLOW_FINISHED

datatype work_state =
    WORK_ERROR | WORK_FINISHED_STOP | WORK_FINISHED_CONTINUE | WORK_MORE_A | WORK_MORE_B | WORK_MORE_C

datatype read_state = READ_STATE_HEADER | READ_STATE_BODY | READ_STATE_POST_PROCESS

datatype write_state = WRITE_STATE_TRANSITION | WRITE_STATE_PRE_WORK | WRITE_STATE_SEND | WRITE_STATE_POST_WORK

text \<open>
  The members of \<^verbatim>\<open>SSL_CONNECTION\<close>, and of its member \<^verbatim>\<open>statem\<close> (down to \<open>cleanuphand\<close>), that the state machine reads
  or writes. Pointers that are only compared with \<^verbatim>\<open>NULL\<close> are truth values; \<open>method_version\<close> and
  \<open>deflt_version\<close> are the versions of the methods \<^verbatim>\<open>method\<close> and \<^verbatim>\<open>defltmeth\<close>.
\<close>

record ssl_connection =
  flow_state :: msg_flow_state
  write_state :: write_state
  write_state_work :: work_state
  read_state :: read_state
  read_state_work :: work_state
  hand_state :: handshake_state
  in_init :: bool
  read_state_first_init :: bool
  in_handshake :: int
  cleanuphand :: bool
  deflt_version :: int
  first_handshake :: bool
  first_packet :: bool
  init_buf :: bool
  init_num :: nat
  message_size :: nat
  change_cipher_spec :: bool
  max_early_data :: nat
  is_dtls :: bool
  is_quic :: bool
  method_version :: int
  tls_version :: int
  hit :: bool
  new_cipher :: ssl_cipher
  cert_req :: int
  skip_cert_verify :: bool
  npn_seen :: bool
  ticket_expected :: bool
  status_expected :: bool
  compress_certificate_sent :: bool
  client_cert_x509 :: bool
  peer_compresses :: bool
  session_secret_cb :: bool
  session_tick :: bool
  early_data_state :: early_data_state
  ext_early_data :: int
  hello_retry_request :: hrr_state
  post_handshake_auth :: pha_state
  ssl_options :: "64 word"
  ssl_shutdown :: "32 word"
  key_update :: int
  renegotiate :: bool
  max_cert_list :: nat

text \<open>The results of the functions outside this file that a transition calls.\<close>

record tls_calls =
  tls13_restore_handshake_digest_for_pha :: bool
  ssl3_renegotiate_check :: bool
  tls_setup_handshake :: bool

text \<open>A fatal error: what \<^verbatim>\<open>ossl_statem_send_fatal\<close> does to the connection. The alert it sends is not modelled.\<close>

definition SSLfatal :: "ssl_connection \<Rightarrow> ssl_connection" where
  "SSLfatal s =
     (if in_init s \<and> flow_state s = MSG_FLOW_ERROR then s
      else s\<lparr>in_init := True, flow_state := MSG_FLOW_ERROR\<rparr>)"

definition SSL_CONNECTION_IS_TLS13 :: "ssl_connection \<Rightarrow> bool" where
  "SSL_CONNECTION_IS_TLS13 s \<longleftrightarrow> \<not> is_dtls s \<and> method_version s \<ge> 772 \<and> method_version s \<noteq> 65536"

definition SSL_aNULL :: "32 word" where "SSL_aNULL = 4"
definition SSL_aPSK :: "32 word" where "SSL_aPSK = 16"
definition SSL_aSRP :: "32 word" where "SSL_aSRP = 64"
definition SSL_kDHE :: "32 word" where "SSL_kDHE = 2"
definition SSL_kECDHE :: "32 word" where "SSL_kECDHE = 4"
definition SSL_kPSK :: "32 word" where "SSL_kPSK = 8"
definition SSL_kSRP :: "32 word" where "SSL_kSRP = 32"
definition SSL_kRSAPSK :: "32 word" where "SSL_kRSAPSK = 64"
definition SSL_kECDHEPSK :: "32 word" where "SSL_kECDHEPSK = 128"
definition SSL_kDHEPSK :: "32 word" where "SSL_kDHEPSK = 256"

definition SSL_PSK :: "32 word" where
  "SSL_PSK = SSL_kPSK OR SSL_kRSAPSK OR SSL_kECDHEPSK OR SSL_kDHEPSK"

definition SSL_OP_ENABLE_MIDDLEBOX_COMPAT :: "64 word" where
  "SSL_OP_ENABLE_MIDDLEBOX_COMPAT = push_bit 20 1"

definition SSL_SENT_SHUTDOWN :: "32 word" where "SSL_SENT_SHUTDOWN = 1"

definition SSL_EARLY_DATA_ACCEPTED :: int where "SSL_EARLY_DATA_ACCEPTED = 2"

definition SSL_KEY_UPDATE_NONE :: int where "SSL_KEY_UPDATE_NONE = - 1"

subsection \<open>Reading\<close>

definition cert_req_allowed :: "ssl_connection \<Rightarrow> bool" where
  "cert_req_allowed s \<longleftrightarrow>
     \<not> (tls_version s > 768 \<and> algorithm_auth (new_cipher s) AND SSL_aNULL \<noteq> 0 \<or>
        algorithm_auth (new_cipher s) AND (SSL_aSRP OR SSL_aPSK) \<noteq> 0)"

definition key_exchange_expected :: "ssl_connection \<Rightarrow> bool" where
  "key_exchange_expected s \<longleftrightarrow>
     algorithm_mkey (new_cipher s) AND (SSL_kDHE OR SSL_kECDHE OR SSL_kDHEPSK OR SSL_kECDHEPSK OR SSL_kSRP) \<noteq> 0"

text \<open>A transition that is taken, and one that is not.\<close>

definition taken_to :: "handshake_state \<Rightarrow> ssl_connection \<Rightarrow> bool \<times> ssl_connection" where
  "taken_to h s = (True, s\<lparr>hand_state := h\<rparr>)"

definition no_transition :: "ssl_connection \<Rightarrow> bool \<times> ssl_connection" where
  "no_transition s = (False, s)"

definition ossl_statem_client13_read_transition ::
  "tls_calls \<Rightarrow> ssl_connection \<Rightarrow> int \<Rightarrow> bool \<times> ssl_connection" where
  "ossl_statem_client13_read_transition calls s mt = (case hand_state s of
      TLS_ST_CW_CLNT_HELLO \<Rightarrow>
        if mt = SSL3_MT_SERVER_HELLO then taken_to TLS_ST_CR_SRVR_HELLO s else no_transition s
    | TLS_ST_CR_SRVR_HELLO \<Rightarrow>
        if mt = SSL3_MT_ENCRYPTED_EXTENSIONS then taken_to TLS_ST_CR_ENCRYPTED_EXTENSIONS s else no_transition s
    | TLS_ST_CR_ENCRYPTED_EXTENSIONS \<Rightarrow>
        if hit s then
          (if mt = SSL3_MT_FINISHED then taken_to TLS_ST_CR_FINISHED s else no_transition s)
        else if mt = SSL3_MT_CERTIFICATE_REQUEST then taken_to TLS_ST_CR_CERT_REQ s
        else if mt = SSL3_MT_CERTIFICATE then taken_to TLS_ST_CR_CERT s
        else if mt = SSL3_MT_COMPRESSED_CERTIFICATE \<and> compress_certificate_sent s then taken_to TLS_ST_CR_COMP_CERT s
        else no_transition s
    | TLS_ST_CR_CERT_REQ \<Rightarrow>
        if mt = SSL3_MT_CERTIFICATE then taken_to TLS_ST_CR_CERT s
        else if mt = SSL3_MT_COMPRESSED_CERTIFICATE \<and> compress_certificate_sent s then taken_to TLS_ST_CR_COMP_CERT s
        else no_transition s
    | TLS_ST_CR_CERT \<Rightarrow>
        if mt = SSL3_MT_CERTIFICATE_VERIFY then taken_to TLS_ST_CR_CERT_VRFY s else no_transition s
    | TLS_ST_CR_COMP_CERT \<Rightarrow>
        if mt = SSL3_MT_CERTIFICATE_VERIFY then taken_to TLS_ST_CR_CERT_VRFY s else no_transition s
    | TLS_ST_CR_CERT_VRFY \<Rightarrow>
        if mt = SSL3_MT_FINISHED then taken_to TLS_ST_CR_FINISHED s else no_transition s
    | TLS_ST_OK \<Rightarrow>
        if mt = SSL3_MT_NEWSESSION_TICKET then taken_to TLS_ST_CR_SESSION_TICKET s
        else if mt = SSL3_MT_KEY_UPDATE \<and> \<not> is_quic s then taken_to TLS_ST_CR_KEY_UPDATE s
        else if mt = SSL3_MT_CERTIFICATE_REQUEST \<and> \<not> is_dtls s \<and> post_handshake_auth s = SSL_PHA_EXT_SENT then
          (let s = s\<lparr>post_handshake_auth := SSL_PHA_REQUESTED\<rparr> in
           if \<not> tls13_restore_handshake_digest_for_pha calls then (False, SSLfatal s)
           else taken_to TLS_ST_CR_CERT_REQ s)
        else no_transition s
    | _ \<Rightarrow> no_transition s)"

text \<open>The cases of the older versions that other cases fall through to.\<close>

definition read_after_cert_req :: "ssl_connection \<Rightarrow> int \<Rightarrow> bool \<times> ssl_connection" where
  "read_after_cert_req s mt =
     (if mt = SSL3_MT_SERVER_DONE then taken_to TLS_ST_CR_SRVR_DONE s else no_transition s)"

definition read_after_key_exch :: "ssl_connection \<Rightarrow> int \<Rightarrow> bool \<times> ssl_connection" where
  "read_after_key_exch s mt =
     (if mt = SSL3_MT_CERTIFICATE_REQUEST then
        (if cert_req_allowed s then taken_to TLS_ST_CR_CERT_REQ s else no_transition s)
      else read_after_cert_req s mt)"

definition read_after_cert_status :: "ssl_connection \<Rightarrow> int \<Rightarrow> bool \<times> ssl_connection" where
  "read_after_cert_status s mt =
     (if key_exchange_expected s \<or>
         algorithm_mkey (new_cipher s) AND SSL_PSK \<noteq> 0 \<and> mt = SSL3_MT_SERVER_KEY_EXCHANGE then
        (if mt = SSL3_MT_SERVER_KEY_EXCHANGE then taken_to TLS_ST_CR_KEY_EXCH s else no_transition s)
      else read_after_key_exch s mt)"

definition read_after_srvr_hello :: "ssl_connection \<Rightarrow> int \<Rightarrow> bool \<times> ssl_connection" where
  "read_after_srvr_hello s mt =
     (if hit s then
        (if ticket_expected s then
           (if mt = SSL3_MT_NEWSESSION_TICKET then taken_to TLS_ST_CR_SESSION_TICKET s else no_transition s)
         else if mt = SSL3_MT_CHANGE_CIPHER_SPEC then taken_to TLS_ST_CR_CHANGE s
         else no_transition s)
      else if is_dtls s \<and> mt = DTLS1_MT_HELLO_VERIFY_REQUEST then taken_to DTLS_ST_CR_HELLO_VERIFY_REQUEST s
      else if tls_version s \<ge> 769 \<and> session_secret_cb s \<and> session_tick s \<and> mt = SSL3_MT_CHANGE_CIPHER_SPEC then
        taken_to TLS_ST_CR_CHANGE (s\<lparr>hit := True\<rparr>)
      else if algorithm_auth (new_cipher s) AND (SSL_aNULL OR SSL_aSRP OR SSL_aPSK) = 0 then
        (if mt = SSL3_MT_CERTIFICATE then taken_to TLS_ST_CR_CERT s else no_transition s)
      else if key_exchange_expected s \<or>
              algorithm_mkey (new_cipher s) AND SSL_PSK \<noteq> 0 \<and> mt = SSL3_MT_SERVER_KEY_EXCHANGE then
        (if mt = SSL3_MT_SERVER_KEY_EXCHANGE then taken_to TLS_ST_CR_KEY_EXCH s else no_transition s)
      else if mt = SSL3_MT_CERTIFICATE_REQUEST \<and> cert_req_allowed s then taken_to TLS_ST_CR_CERT_REQ s
      else if mt = SSL3_MT_SERVER_DONE then taken_to TLS_ST_CR_SRVR_DONE s
      else no_transition s)"

text \<open>The switch over the state for the versions before TLS 1.3.\<close>

definition client12_read_transition :: "ssl_connection \<Rightarrow> int \<Rightarrow> bool \<times> ssl_connection" where
  "client12_read_transition s mt = (case hand_state s of
      TLS_ST_CW_CLNT_HELLO \<Rightarrow>
        if mt = SSL3_MT_SERVER_HELLO then taken_to TLS_ST_CR_SRVR_HELLO s
        else if is_dtls s \<and> mt = DTLS1_MT_HELLO_VERIFY_REQUEST then taken_to DTLS_ST_CR_HELLO_VERIFY_REQUEST s
        else no_transition s
    | TLS_ST_EARLY_DATA \<Rightarrow>
        if mt = SSL3_MT_SERVER_HELLO then taken_to TLS_ST_CR_SRVR_HELLO s else no_transition s
    | TLS_ST_CR_SRVR_HELLO \<Rightarrow> read_after_srvr_hello s mt
    | TLS_ST_CR_CERT \<Rightarrow>
        if status_expected s \<and> mt = SSL3_MT_CERTIFICATE_STATUS then taken_to TLS_ST_CR_CERT_STATUS s
        else read_after_cert_status s mt
    | TLS_ST_CR_COMP_CERT \<Rightarrow>
        if status_expected s \<and> mt = SSL3_MT_CERTIFICATE_STATUS then taken_to TLS_ST_CR_CERT_STATUS s
        else read_after_cert_status s mt
    | TLS_ST_CR_CERT_STATUS \<Rightarrow> read_after_cert_status s mt
    | TLS_ST_CR_KEY_EXCH \<Rightarrow> read_after_key_exch s mt
    | TLS_ST_CR_CERT_REQ \<Rightarrow> read_after_cert_req s mt
    | TLS_ST_CW_FINISHED \<Rightarrow>
        if ticket_expected s then
          (if mt = SSL3_MT_NEWSESSION_TICKET then taken_to TLS_ST_CR_SESSION_TICKET s else no_transition s)
        else if mt = SSL3_MT_CHANGE_CIPHER_SPEC then taken_to TLS_ST_CR_CHANGE s
        else no_transition s
    | TLS_ST_CR_SESSION_TICKET \<Rightarrow>
        if mt = SSL3_MT_CHANGE_CIPHER_SPEC then taken_to TLS_ST_CR_CHANGE s else no_transition s
    | TLS_ST_CR_CHANGE \<Rightarrow>
        if mt = SSL3_MT_FINISHED then taken_to TLS_ST_CR_FINISHED s else no_transition s
    | TLS_ST_OK \<Rightarrow>
        if mt = SSL3_MT_HELLO_REQUEST then taken_to TLS_ST_CR_HELLO_REQ s else no_transition s
    | _ \<Rightarrow> no_transition s)"

definition ossl_statem_client_read_transition ::
  "tls_calls \<Rightarrow> ssl_connection \<Rightarrow> int \<Rightarrow> bool \<times> ssl_connection" where
  "ossl_statem_client_read_transition calls s mt =
     (let (ok, s) = (if SSL_CONNECTION_IS_TLS13 s then ossl_statem_client13_read_transition calls s mt
                     else client12_read_transition s mt) in
      if ok then (True, s)
      else if is_dtls s \<and> mt = SSL3_MT_CHANGE_CIPHER_SPEC then (False, s)
      else (False, SSLfatal s))"

subsection \<open>Writing\<close>

datatype write_tran = WRITE_TRAN_ERROR | WRITE_TRAN_CONTINUE | WRITE_TRAN_FINISHED

definition go_on :: "handshake_state \<Rightarrow> ssl_connection \<Rightarrow> write_tran \<times> ssl_connection" where
  "go_on h s = (WRITE_TRAN_CONTINUE, s\<lparr>hand_state := h\<rparr>)"

definition write_error :: "ssl_connection \<Rightarrow> write_tran \<times> ssl_connection" where
  "write_error s = (WRITE_TRAN_ERROR, SSLfatal s)"

definition do_compressed_cert :: "ssl_connection \<Rightarrow> bool" where
  "do_compressed_cert s \<longleftrightarrow> client_cert_x509 s \<and> peer_compresses s"

definition middlebox_compat :: "ssl_connection \<Rightarrow> bool" where
  "middlebox_compat s \<longleftrightarrow> ssl_options s AND SSL_OP_ENABLE_MIDDLEBOX_COMPAT \<noteq> 0"

text \<open>The choice between the client's certificate and its Finished message.\<close>

definition client_cert_or_finished :: "ssl_connection \<Rightarrow> handshake_state" where
  "client_cert_or_finished s =
     (if cert_req s = 0 then TLS_ST_CW_FINISHED
      else if do_compressed_cert s then TLS_ST_CW_COMP_CERT
      else TLS_ST_CW_CERT)"

definition ossl_statem_client13_write_transition :: "ssl_connection \<Rightarrow> write_tran \<times> ssl_connection" where
  "ossl_statem_client13_write_transition s = (case hand_state s of
      TLS_ST_CR_CERT_REQ \<Rightarrow>
        if post_handshake_auth s = SSL_PHA_REQUESTED then
          go_on (if do_compressed_cert s then TLS_ST_CW_COMP_CERT else TLS_ST_CW_CERT) s
        else if ssl_shutdown s AND SSL_SENT_SHUTDOWN = 0 then write_error s
        else go_on TLS_ST_OK s
    | TLS_ST_CR_FINISHED \<Rightarrow>
        go_on
          (if early_data_state s = SSL_EARLY_DATA_WRITE_RETRY \<or> early_data_state s = SSL_EARLY_DATA_FINISHED_WRITING
           then TLS_ST_PENDING_EARLY_DATA_END
           else if middlebox_compat s \<and> hello_retry_request s = SSL_HRR_NONE then TLS_ST_CW_CHANGE
           else client_cert_or_finished s) s
    | TLS_ST_PENDING_EARLY_DATA_END \<Rightarrow>
        if ext_early_data s = SSL_EARLY_DATA_ACCEPTED then go_on TLS_ST_CW_END_OF_EARLY_DATA s
        else go_on (client_cert_or_finished s) s
    | TLS_ST_CW_END_OF_EARLY_DATA \<Rightarrow> go_on (client_cert_or_finished s) s
    | TLS_ST_CW_CHANGE \<Rightarrow> go_on (client_cert_or_finished s) s
    | TLS_ST_CW_COMP_CERT \<Rightarrow> go_on (if cert_req s = 1 then TLS_ST_CW_CERT_VRFY else TLS_ST_CW_FINISHED) s
    | TLS_ST_CW_CERT \<Rightarrow> go_on (if cert_req s = 1 then TLS_ST_CW_CERT_VRFY else TLS_ST_CW_FINISHED) s
    | TLS_ST_CW_CERT_VRFY \<Rightarrow> go_on TLS_ST_CW_FINISHED s
    | TLS_ST_CR_KEY_UPDATE \<Rightarrow> go_on TLS_ST_OK s
    | TLS_ST_CW_KEY_UPDATE \<Rightarrow> go_on TLS_ST_OK s
    | TLS_ST_CR_SESSION_TICKET \<Rightarrow> go_on TLS_ST_OK s
    | TLS_ST_CW_FINISHED \<Rightarrow> go_on TLS_ST_OK s
    | TLS_ST_OK \<Rightarrow>
        if key_update s \<noteq> SSL_KEY_UPDATE_NONE then go_on TLS_ST_CW_KEY_UPDATE s
        else (WRITE_TRAN_FINISHED, s)
    | _ \<Rightarrow> write_error s)"

text \<open>
  The switch for the versions before TLS 1.3. A successful \<^verbatim>\<open>tls_setup_handshake\<close> clears \<^verbatim>\<open>hit\<close> and \<^verbatim>\<open>cert_req\<close>
  (\<^verbatim>\<open>statem_lib.c\<close>, lines 243 to 245).
\<close>

definition client12_write_transition :: "tls_calls \<Rightarrow> ssl_connection \<Rightarrow> write_tran \<times> ssl_connection" where
  "client12_write_transition calls s = (case hand_state s of
      TLS_ST_OK \<Rightarrow>
        if \<not> renegotiate s then (WRITE_TRAN_FINISHED, s) else go_on TLS_ST_CW_CLNT_HELLO s
    | TLS_ST_BEFORE \<Rightarrow> go_on TLS_ST_CW_CLNT_HELLO s
    | TLS_ST_CW_CLNT_HELLO \<Rightarrow>
        if early_data_state s = SSL_EARLY_DATA_CONNECTING then
          go_on (if middlebox_compat s then TLS_ST_CW_CHANGE else TLS_ST_EARLY_DATA) s
        else (WRITE_TRAN_FINISHED, s)
    | TLS_ST_CR_SRVR_HELLO \<Rightarrow>
        go_on
          (if middlebox_compat s \<and> early_data_state s \<noteq> SSL_EARLY_DATA_FINISHED_WRITING then TLS_ST_CW_CHANGE
           else TLS_ST_CW_CLNT_HELLO) s
    | TLS_ST_EARLY_DATA \<Rightarrow> (WRITE_TRAN_FINISHED, s)
    | DTLS_ST_CR_HELLO_VERIFY_REQUEST \<Rightarrow> go_on TLS_ST_CW_CLNT_HELLO s
    | TLS_ST_CR_SRVR_DONE \<Rightarrow> go_on (if cert_req s \<noteq> 0 then TLS_ST_CW_CERT else TLS_ST_CW_KEY_EXCH) s
    | TLS_ST_CW_CERT \<Rightarrow> go_on TLS_ST_CW_KEY_EXCH s
    | TLS_ST_CW_KEY_EXCH \<Rightarrow>
        go_on (if cert_req s = 1 \<and> \<not> skip_cert_verify s then TLS_ST_CW_CERT_VRFY else TLS_ST_CW_CHANGE) s
    | TLS_ST_CW_CERT_VRFY \<Rightarrow> go_on TLS_ST_CW_CHANGE s
    | TLS_ST_CW_CHANGE \<Rightarrow>
        go_on
          (if hello_retry_request s = SSL_HRR_PENDING then TLS_ST_CW_CLNT_HELLO
           else if early_data_state s = SSL_EARLY_DATA_CONNECTING then TLS_ST_EARLY_DATA
           else if \<not> is_dtls s \<and> npn_seen s then TLS_ST_CW_NEXT_PROTO
           else TLS_ST_CW_FINISHED) s
    | TLS_ST_CW_NEXT_PROTO \<Rightarrow> go_on TLS_ST_CW_FINISHED s
    | TLS_ST_CW_FINISHED \<Rightarrow> if hit s then go_on TLS_ST_OK s else (WRITE_TRAN_FINISHED, s)
    | TLS_ST_CR_FINISHED \<Rightarrow> go_on (if hit s then TLS_ST_CW_CHANGE else TLS_ST_OK) s
    | TLS_ST_CR_HELLO_REQ \<Rightarrow>
        if ssl3_renegotiate_check calls then
          (if \<not> tls_setup_handshake calls then write_error s
           else go_on TLS_ST_CW_CLNT_HELLO (s\<lparr>hit := False, cert_req := 0\<rparr>))
        else go_on TLS_ST_OK s
    | _ \<Rightarrow> write_error s)"

definition ossl_statem_client_write_transition :: "tls_calls \<Rightarrow> ssl_connection \<Rightarrow> write_tran \<times> ssl_connection" where
  "ossl_statem_client_write_transition calls s =
     (if SSL_CONNECTION_IS_TLS13 s then ossl_statem_client13_write_transition s
      else client12_write_transition calls s)"

end
