(* ===== verification/Tls_Flow.thy ===== *)
theory Tls_Flow
  imports Tls_Handshake "HOL-Library.State_Monad"
begin

text \<open>
  The message flow of a TLS client's handshake: the loops of \<^verbatim>\<open>ssl/statem/statem.c\<close> that read, process and write
  messages, and the functions of \<^verbatim>\<open>statem_clnt.c\<close> that choose what is done in each state. The record layer, the
  functions that process or construct one kind of message, and the key schedule are parameters.
\<close>

subsection \<open>The functions called\<close>

datatype sub_state_return = SUB_STATE_ERROR | SUB_STATE_FINISHED | SUB_STATE_END_HANDSHAKE

datatype msg_process_return =
    MSG_PROCESS_ERROR | MSG_PROCESS_FINISHED_READING | MSG_PROCESS_CONTINUE_PROCESSING | MSG_PROCESS_CONTINUE_READING

datatype con_func_return = CON_FUNC_ERROR | CON_FUNC_SUCCESS | CON_FUNC_DONT_SEND

text \<open>The functions that process a message, and those that construct one.\<close>

datatype process_fun =
    process_server_hello | process_hello_verify | process_server_certificate | process_server_compressed_certificate
  | process_cert_verify | process_cert_status | process_key_exchange | process_certificate_request
  | process_server_done | process_change_cipher_spec | process_new_session_ticket | process_finished
  | process_hello_req | process_encrypted_extensions | process_key_update

datatype construct_fun =
    construct_change_cipher_spec | construct_client_hello | construct_end_of_early_data
  | construct_client_certificate | construct_client_compressed_certificate | construct_client_key_exchange
  | construct_cert_verify | construct_next_proto | construct_finished | construct_key_update

type_synonym ('w, 'a) external = "ssl_connection \<Rightarrow> 'w \<Rightarrow> 'a \<times> ssl_connection \<times> 'w"

text \<open>
  What the state machine calls, over a type \<open>'w\<close> for everything outside the connection. A value of type \<^typ>\<open>bool\<close> tells
  whether the function succeeded; \<open>tls_get_message_header\<close> returns the message type if it succeeded. Some members stand
  for a few calls in a row: \<open>reset_method\<close> for the end of \<^verbatim>\<open>ossl_ssl_connection_reset\<close>, \<open>new_init_buf\<close> for
  \<^verbatim>\<open>BUF_MEM_new\<close> and \<^verbatim>\<open>BUF_MEM_grow\<close>, \<open>start_packet\<close> for \<^verbatim>\<open>WPACKET_init\<close> and \<^verbatim>\<open>ssl_set_handshake_header\<close>,
  \<open>finish_packet\<close> for \<^verbatim>\<open>ssl_close_construct_packet\<close> and \<^verbatim>\<open>WPACKET_finish\<close>, \<open>setup_checks\<close> for the checks of
  \<^verbatim>\<open>tls_setup_handshake\<close>.
\<close>

record 'w flow_env =
  transition_calls :: "'w \<Rightarrow> tls_calls"
  reset_method :: "('w, bool) external"
  ssl_security_version :: "('w, bool) external"
  new_init_buf :: "('w, bool) external"
  ssl_init_wbio_buffer :: "('w, bool) external"
  setup_checks :: "('w, bool) external"
  tls_get_message_header :: "('w, int option) external"
  grow_init_buf :: "('w, bool) external"
  tls_get_message_body :: "('w, bool) external"
  tls_process :: "process_fun \<Rightarrow> ('w, msg_process_return) external"
  tls_post_process_server_certificate :: "work_state \<Rightarrow> ('w, work_state) external"
  tls_prepare_client_certificate :: "work_state \<Rightarrow> ('w, work_state) external"
  ssl_set_new_record_layer :: "('w, bool) external"
  ssl_free_wbio_buffer :: "('w, bool) external"
  start_packet :: "int \<Rightarrow> ('w, bool) external"
  tls_construct :: "construct_fun \<Rightarrow> ('w, con_func_return) external"
  finish_packet :: "int \<Rightarrow> ('w, bool) external"
  statem_do_write :: "('w, int) external"
  statem_flush :: "('w, bool) external"
  tls_client_key_exchange_post_work :: "('w, bool) external"
  tls13_change_cipher_state :: "('w, bool) external"
  setup_key_block :: "('w, bool) external"
  change_cipher_state :: "('w, bool) external"
  tls13_save_handshake_digest_for_pha :: "('w, bool) external"
  tls13_update_key :: "('w, bool) external"

subsection \<open>State\<close>

text \<open>
  The connection, everything outside it, and as history the types of the messages that a transition has accepted
  since the last ClientHello.
\<close>

record 'w tls_state =
  conn :: ssl_connection
  received :: "int list"
  net :: 'w

type_synonym ('w, 'a) tls = "('w tls_state, 'a) state"

definition call :: "('w, 'a) external \<Rightarrow> ('w, 'a) tls" where
  "call f = State (\<lambda>x. let (a, s, w) = f (conn x) (net x) in (a, x\<lparr>conn := s, net := w\<rparr>))"

definition look :: "(ssl_connection \<Rightarrow> 'a) \<Rightarrow> ('w, 'a) tls" where
  "look f = State (\<lambda>x. (f (conn x), x))"

definition change :: "(ssl_connection \<Rightarrow> ssl_connection) \<Rightarrow> ('w, unit) tls" where
  "change f = State (\<lambda>x. ((), x\<lparr>conn := f (conn x)\<rparr>))"

definition check_fatal :: "('w, unit) tls" where
  "check_fatal = change (\<lambda>s. if in_init s \<and> flow_state s = MSG_FLOW_ERROR then s else SSLfatal s)"

definition finish :: "sub_state_return \<Rightarrow> ('w, sub_state_return option) tls" where
  "finish r = State_Monad.return (Some r)"

definition again :: "('w, sub_state_return option) tls" where
  "again = State_Monad.return None"

definition fail_fatal :: "('w, sub_state_return option) tls" where
  "fail_fatal = do { change SSLfatal; finish SUB_STATE_ERROR }"

subsection \<open>Work before and after a message is sent\<close>

definition tls_finish_handshake :: "'w flow_env \<Rightarrow> bool \<Rightarrow> bool \<Rightarrow> ('w, work_state) tls" where
  "tls_finish_handshake e clearbufs stop = do {
     ok \<leftarrow> (if clearbufs then do {
              change (\<lambda>s. if \<not> is_dtls s then s\<lparr>init_buf := False\<rparr> else s);
              call (ssl_free_wbio_buffer e) }
            else State_Monad.return True);
     if \<not> ok then do { change SSLfatal; State_Monad.return WORK_ERROR }
     else do {
       change (\<lambda>s. if clearbufs then s\<lparr>init_num := 0\<rparr> else s);
       change (\<lambda>s. if SSL_CONNECTION_IS_TLS13 s \<and> post_handshake_auth s = SSL_PHA_REQUESTED
                   then s\<lparr>post_handshake_auth := SSL_PHA_EXT_SENT\<rparr> else s);
       change (\<lambda>s. if cleanuphand s then s\<lparr>renegotiate := False, cleanuphand := False, ticket_expected := False\<rparr> else s);
       change (\<lambda>s. s\<lparr>in_init := False\<rparr>);
       if \<not> stop then do { change (\<lambda>s. s\<lparr>in_init := True\<rparr>); State_Monad.return WORK_FINISHED_CONTINUE }
       else State_Monad.return WORK_FINISHED_STOP
     }
   }"

text \<open>Continues if a call succeeded. A call that fails has called \<^verbatim>\<open>SSLfatal\<close> already.\<close>

definition continue_if :: "bool \<Rightarrow> ('w, work_state) tls" where
  "continue_if ok = State_Monad.return (if ok then WORK_FINISHED_CONTINUE else WORK_ERROR)"

definition SSL_EARLY_DATA_REJECTED :: int where "SSL_EARLY_DATA_REJECTED = 1"

text \<open>The cases for TLS: a connection made with \<^verbatim>\<open>TLS_client_method\<close> never uses DTLS.\<close>

definition ossl_statem_client_pre_work :: "'w flow_env \<Rightarrow> ('w, work_state) tls" where
  "ossl_statem_client_pre_work e = do {
     s \<leftarrow> look id;
     case hand_state s of
       TLS_ST_CW_CLNT_HELLO \<Rightarrow> do {
         change (\<lambda>s. s\<lparr>ssl_shutdown := 0\<rparr>);
         if ext_early_data s = SSL_EARLY_DATA_REJECTED then do { ok \<leftarrow> call (ssl_set_new_record_layer e); continue_if ok }
         else continue_if True }
     | TLS_ST_PENDING_EARLY_DATA_END \<Rightarrow>
         if early_data_state s = SSL_EARLY_DATA_FINISHED_WRITING \<or> early_data_state s = SSL_EARLY_DATA_NONE
         then continue_if True
         else tls_finish_handshake e False True
     | TLS_ST_EARLY_DATA \<Rightarrow> tls_finish_handshake e False True
     | TLS_ST_OK \<Rightarrow> tls_finish_handshake e True True
     | _ \<Rightarrow> continue_if True
   }"

text \<open>The keys for writing change after the client's ChangeCipherSpec, unless the version is or may become TLS 1.3.\<close>

definition post_work_change :: "'w flow_env \<Rightarrow> ssl_connection \<Rightarrow> ('w, work_state) tls" where
  "post_work_change e s =
     (if SSL_CONNECTION_IS_TLS13 s \<or> hello_retry_request s = SSL_HRR_PENDING then continue_if True
      else if early_data_state s = SSL_EARLY_DATA_CONNECTING \<and> max_early_data s > 0 then do {
        ok \<leftarrow> call (tls13_change_cipher_state e);
        continue_if ok }
      else do {
        ok \<leftarrow> call (setup_key_block e);
        if \<not> ok then continue_if False
        else do { ok \<leftarrow> call (change_cipher_state e); continue_if ok } })"

definition post_work_finished :: "'w flow_env \<Rightarrow> ('w, work_state) tls" where
  "post_work_finished e = do {
     ok \<leftarrow> call (statem_flush e);
     if \<not> ok then State_Monad.return WORK_MORE_B
     else do {
       tls13 \<leftarrow> look SSL_CONNECTION_IS_TLS13;
       if \<not> tls13 then continue_if True
       else do {
         ok \<leftarrow> call (tls13_save_handshake_digest_for_pha e);
         if \<not> ok then continue_if False
         else do {
           pha \<leftarrow> look post_handshake_auth;
           if pha = SSL_PHA_REQUESTED then continue_if True
           else do { ok \<leftarrow> call (change_cipher_state e); continue_if ok } } } }
   }"

definition ossl_statem_client_post_work :: "'w flow_env \<Rightarrow> ('w, work_state) tls" where
  "ossl_statem_client_post_work e = do {
     change (\<lambda>s. s\<lparr>init_num := 0\<rparr>);
     s \<leftarrow> look id;
     case hand_state s of
       TLS_ST_CW_CLNT_HELLO \<Rightarrow>
         if early_data_state s = SSL_EARLY_DATA_CONNECTING \<and> max_early_data s > 0 then
           (if \<not> middlebox_compat s then do { ok \<leftarrow> call (tls13_change_cipher_state e); continue_if ok }
            else continue_if True)
         else do {
           ok \<leftarrow> call (statem_flush e);
           if \<not> ok then State_Monad.return WORK_MORE_A else continue_if True }
     | TLS_ST_CW_KEY_EXCH \<Rightarrow> do { ok \<leftarrow> call (tls_client_key_exchange_post_work e); continue_if ok }
     | TLS_ST_CW_CHANGE \<Rightarrow> post_work_change e s
     | TLS_ST_CW_FINISHED \<Rightarrow> post_work_finished e
     | TLS_ST_CW_KEY_UPDATE \<Rightarrow> do {
         ok \<leftarrow> call (statem_flush e);
         if \<not> ok then State_Monad.return WORK_MORE_A
         else do { ok \<leftarrow> call (tls13_update_key e); continue_if ok } }
     | _ \<Rightarrow> continue_if True
   }"

text \<open>The construction function, if there is one, and the type of the message sent in a state.\<close>

definition ossl_statem_client_construct_message :: "handshake_state \<Rightarrow> (construct_fun option \<times> int) option" where
  "ossl_statem_client_construct_message h = (case h of
      TLS_ST_CW_CHANGE \<Rightarrow> Some (Some construct_change_cipher_spec, SSL3_MT_CHANGE_CIPHER_SPEC)
    | TLS_ST_CW_CLNT_HELLO \<Rightarrow> Some (Some construct_client_hello, SSL3_MT_CLIENT_HELLO)
    | TLS_ST_CW_END_OF_EARLY_DATA \<Rightarrow> Some (Some construct_end_of_early_data, SSL3_MT_END_OF_EARLY_DATA)
    | TLS_ST_PENDING_EARLY_DATA_END \<Rightarrow> Some (None, SSL3_MT_DUMMY)
    | TLS_ST_CW_CERT \<Rightarrow> Some (Some construct_client_certificate, SSL3_MT_CERTIFICATE)
    | TLS_ST_CW_COMP_CERT \<Rightarrow> Some (Some construct_client_compressed_certificate, SSL3_MT_COMPRESSED_CERTIFICATE)
    | TLS_ST_CW_KEY_EXCH \<Rightarrow> Some (Some construct_client_key_exchange, SSL3_MT_CLIENT_KEY_EXCHANGE)
    | TLS_ST_CW_CERT_VRFY \<Rightarrow> Some (Some construct_cert_verify, SSL3_MT_CERTIFICATE_VERIFY)
    | TLS_ST_CW_NEXT_PROTO \<Rightarrow> Some (Some construct_next_proto, SSL3_MT_NEXT_PROTO)
    | TLS_ST_CW_FINISHED \<Rightarrow> Some (Some construct_finished, SSL3_MT_FINISHED)
    | TLS_ST_CW_KEY_UPDATE \<Rightarrow> Some (Some construct_key_update, SSL3_MT_KEY_UPDATE)
    | _ \<Rightarrow> None)"

subsection \<open>Processing a message\<close>

definition ossl_statem_client_max_message_size :: "ssl_connection \<Rightarrow> nat" where
  "ossl_statem_client_max_message_size s = (case hand_state s of
      TLS_ST_CR_SRVR_HELLO \<Rightarrow> 65607
    | DTLS_ST_CR_HELLO_VERIFY_REQUEST \<Rightarrow> 258
    | TLS_ST_CR_COMP_CERT \<Rightarrow> max_cert_list s
    | TLS_ST_CR_CERT \<Rightarrow> max_cert_list s
    | TLS_ST_CR_CERT_VRFY \<Rightarrow> 65539
    | TLS_ST_CR_CERT_STATUS \<Rightarrow> 16384
    | TLS_ST_CR_KEY_EXCH \<Rightarrow> 102400
    | TLS_ST_CR_CERT_REQ \<Rightarrow> max_cert_list s
    | TLS_ST_CR_SRVR_DONE \<Rightarrow> 0
    | TLS_ST_CR_CHANGE \<Rightarrow> if tls_version s = 256 then 3 else 1
    | TLS_ST_CR_SESSION_TICKET \<Rightarrow> if SSL_CONNECTION_IS_TLS13 s then 131338 else 65541
    | TLS_ST_CR_FINISHED \<Rightarrow> 64
    | TLS_ST_CR_ENCRYPTED_EXTENSIONS \<Rightarrow> 20000
    | TLS_ST_CR_KEY_UPDATE \<Rightarrow> 1
    | _ \<Rightarrow> 0)"

definition client_process_fun :: "handshake_state \<Rightarrow> process_fun option" where
  "client_process_fun h = (case h of
      TLS_ST_CR_SRVR_HELLO \<Rightarrow> Some process_server_hello
    | DTLS_ST_CR_HELLO_VERIFY_REQUEST \<Rightarrow> Some process_hello_verify
    | TLS_ST_CR_CERT \<Rightarrow> Some process_server_certificate
    | TLS_ST_CR_COMP_CERT \<Rightarrow> Some process_server_compressed_certificate
    | TLS_ST_CR_CERT_VRFY \<Rightarrow> Some process_cert_verify
    | TLS_ST_CR_CERT_STATUS \<Rightarrow> Some process_cert_status
    | TLS_ST_CR_KEY_EXCH \<Rightarrow> Some process_key_exchange
    | TLS_ST_CR_CERT_REQ \<Rightarrow> Some process_certificate_request
    | TLS_ST_CR_SRVR_DONE \<Rightarrow> Some process_server_done
    | TLS_ST_CR_CHANGE \<Rightarrow> Some process_change_cipher_spec
    | TLS_ST_CR_SESSION_TICKET \<Rightarrow> Some process_new_session_ticket
    | TLS_ST_CR_FINISHED \<Rightarrow> Some process_finished
    | TLS_ST_CR_HELLO_REQ \<Rightarrow> Some process_hello_req
    | TLS_ST_CR_ENCRYPTED_EXTENSIONS \<Rightarrow> Some process_encrypted_extensions
    | TLS_ST_CR_KEY_UPDATE \<Rightarrow> Some process_key_update
    | _ \<Rightarrow> None)"

definition ossl_statem_client_process_message :: "'w flow_env \<Rightarrow> ('w, msg_process_return) tls" where
  "ossl_statem_client_process_message e = do {
     h \<leftarrow> look hand_state;
     case client_process_fun h of
       None \<Rightarrow> do { change SSLfatal; State_Monad.return MSG_PROCESS_ERROR }
     | Some f \<Rightarrow> call (tls_process e f)
   }"

definition ossl_statem_client_post_process_message :: "'w flow_env \<Rightarrow> work_state \<Rightarrow> ('w, work_state) tls" where
  "ossl_statem_client_post_process_message e wst = do {
     h \<leftarrow> look hand_state;
     case h of
       TLS_ST_CR_CERT \<Rightarrow> call (tls_post_process_server_certificate e wst)
     | TLS_ST_CR_COMP_CERT \<Rightarrow> call (tls_post_process_server_certificate e wst)
     | TLS_ST_CR_CERT_VRFY \<Rightarrow> call (tls_prepare_client_certificate e wst)
     | TLS_ST_CR_CERT_REQ \<Rightarrow> call (tls_prepare_client_certificate e wst)
     | _ \<Rightarrow> do { change SSLfatal; State_Monad.return WORK_ERROR }
   }"

subsection \<open>Reading\<close>

text \<open>The transition for a message type. An accepted type goes to the history.\<close>

definition read_transition :: "'w flow_env \<Rightarrow> int \<Rightarrow> ('w, bool) tls" where
  "read_transition e mt = State (\<lambda>x.
     let (ok, s) = ossl_statem_client_read_transition (transition_calls e (net x)) (conn x) mt
     in (ok, x\<lparr>conn := s, received := (if ok then received x @ [mt] else received x)\<rparr>))"

text \<open>The sub-states of reading. Each tells with what the sub-machine returns, or that its loop goes on.\<close>

definition read_body :: "'w flow_env \<Rightarrow> ('w, sub_state_return option) tls" where
  "read_body e = do {
     ok \<leftarrow> call (tls_get_message_body e);
     if \<not> ok then finish SUB_STATE_ERROR
     else do {
       change (\<lambda>s. s\<lparr>first_packet := False\<rparr>);
       ret \<leftarrow> ossl_statem_client_process_message e;
       change (\<lambda>s. s\<lparr>init_num := 0\<rparr>);
       case ret of
         MSG_PROCESS_ERROR \<Rightarrow> do { check_fatal; finish SUB_STATE_ERROR }
       | MSG_PROCESS_FINISHED_READING \<Rightarrow> finish SUB_STATE_FINISHED
       | MSG_PROCESS_CONTINUE_PROCESSING \<Rightarrow> do {
           change (\<lambda>s. s\<lparr>read_state := READ_STATE_POST_PROCESS, read_state_work := WORK_MORE_A\<rparr>);
           again }
       | MSG_PROCESS_CONTINUE_READING \<Rightarrow> do { change (\<lambda>s. s\<lparr>read_state := READ_STATE_HEADER\<rparr>); again }
     }
   }"

definition read_message_header :: "'w flow_env \<Rightarrow> ('w, sub_state_return option) tls" where
  "read_message_header e = do {
     hdr \<leftarrow> call (tls_get_message_header e);
     case hdr of
       None \<Rightarrow> finish SUB_STATE_ERROR
     | Some mt \<Rightarrow> do {
         ok \<leftarrow> read_transition e mt;
         if \<not> ok then finish SUB_STATE_ERROR
         else do {
           s \<leftarrow> look id;
           if message_size s > ossl_statem_client_max_message_size s then fail_fatal
           else do {
             ok \<leftarrow> (if message_size s > 0 then call (grow_init_buf e) else State_Monad.return True);
             if \<not> ok then fail_fatal
             else do {
               change (\<lambda>s. s\<lparr>read_state := READ_STATE_BODY\<rparr>);
               read_body e } } } }
   }"

definition read_post_process :: "'w flow_env \<Rightarrow> ('w, sub_state_return option) tls" where
  "read_post_process e = do {
     wst \<leftarrow> look read_state_work;
     wst \<leftarrow> ossl_statem_client_post_process_message e wst;
     change (\<lambda>s. s\<lparr>read_state_work := wst\<rparr>);
     case wst of
       WORK_ERROR \<Rightarrow> do { check_fatal; finish SUB_STATE_ERROR }
     | WORK_FINISHED_CONTINUE \<Rightarrow> do { change (\<lambda>s. s\<lparr>read_state := READ_STATE_HEADER\<rparr>); again }
     | WORK_FINISHED_STOP \<Rightarrow> finish SUB_STATE_FINISHED
     | _ \<Rightarrow> finish SUB_STATE_ERROR
   }"

definition read_step :: "'w flow_env \<Rightarrow> ('w, sub_state_return option) tls" where
  "read_step e = do {
     st \<leftarrow> look read_state;
     case st of
       READ_STATE_HEADER \<Rightarrow> read_message_header e
     | READ_STATE_BODY \<Rightarrow> read_body e
     | READ_STATE_POST_PROCESS \<Rightarrow> read_post_process e
   }"

text \<open>A loop of a sub-machine, for at most the given number of rounds; \<open>None\<close> if it has not returned by then.\<close>

fun sub_state_loop :: "('w, sub_state_return option) tls \<Rightarrow> nat \<Rightarrow> 'w tls_state \<Rightarrow> (sub_state_return \<times> 'w tls_state) option" where
  "sub_state_loop step 0 x = None"
| "sub_state_loop step (Suc n) x = (case run_state step x of
      (Some ret, x') \<Rightarrow> Some (ret, x')
    | (None, x') \<Rightarrow> sub_state_loop step n x')"

definition read_state_machine :: "'w flow_env \<Rightarrow> nat \<Rightarrow> 'w tls_state \<Rightarrow> (sub_state_return \<times> 'w tls_state) option" where
  "read_state_machine e n x =
     sub_state_loop (read_step e) n
       (if read_state_first_init (conn x)
        then x\<lparr>conn := (conn x)\<lparr>first_packet := True, read_state_first_init := False\<rparr>\<rparr> else x)"

subsection \<open>Writing\<close>

text \<open>The transition to the next message to send. The history starts again with a ClientHello.\<close>

definition write_transition :: "'w flow_env \<Rightarrow> ('w, write_tran) tls" where
  "write_transition e = State (\<lambda>x.
     let (t, s) = ossl_statem_client_write_transition (transition_calls e (net x)) (conn x)
     in (t, x\<lparr>conn := s, received :=
          (if t = WRITE_TRAN_CONTINUE \<and> hand_state s = TLS_ST_CW_CLNT_HELLO then [] else received x)\<rparr>))"

definition write_post_work :: "'w flow_env \<Rightarrow> ('w, sub_state_return option) tls" where
  "write_post_work e = do {
     wst \<leftarrow> ossl_statem_client_post_work e;
     change (\<lambda>s. s\<lparr>write_state_work := wst\<rparr>);
     case wst of
       WORK_ERROR \<Rightarrow> do { check_fatal; finish SUB_STATE_ERROR }
     | WORK_FINISHED_CONTINUE \<Rightarrow> do { change (\<lambda>s. s\<lparr>write_state := WRITE_STATE_TRANSITION\<rparr>); again }
     | WORK_FINISHED_STOP \<Rightarrow> finish SUB_STATE_END_HANDSHAKE
     | _ \<Rightarrow> finish SUB_STATE_ERROR
   }"

definition to_post_work :: "('w, unit) tls" where
  "to_post_work = change (\<lambda>s. s\<lparr>write_state := WRITE_STATE_POST_WORK, write_state_work := WORK_MORE_A\<rparr>)"

definition write_send :: "'w flow_env \<Rightarrow> ('w, sub_state_return option) tls" where
  "write_send e = do {
     ret \<leftarrow> call (statem_do_write e);
     if ret \<le> 0 then finish SUB_STATE_ERROR
     else do { to_post_work; write_post_work e }
   }"

text \<open>Constructs the message of the state and goes on to send it.\<close>

definition write_message :: "'w flow_env \<Rightarrow> ('w, sub_state_return option) tls" where
  "write_message e = do {
     h \<leftarrow> look hand_state;
     case ossl_statem_client_construct_message h of
       None \<Rightarrow> fail_fatal
     | Some (f, mt) \<Rightarrow>
         if mt = SSL3_MT_DUMMY then do { to_post_work; again }
         else do {
           ok \<leftarrow> call (start_packet e mt);
           if \<not> ok then fail_fatal
           else do {
             ret \<leftarrow> (case f of None \<Rightarrow> State_Monad.return CON_FUNC_SUCCESS | Some c \<Rightarrow> call (tls_construct e c));
             case ret of
               CON_FUNC_ERROR \<Rightarrow> do { check_fatal; finish SUB_STATE_ERROR }
             | CON_FUNC_DONT_SEND \<Rightarrow> do { to_post_work; again }
             | CON_FUNC_SUCCESS \<Rightarrow> do {
                 ok \<leftarrow> call (finish_packet e mt);
                 if \<not> ok then fail_fatal else write_send e } } }
   }"

definition write_pre_work :: "'w flow_env \<Rightarrow> ('w, sub_state_return option) tls" where
  "write_pre_work e = do {
     wst \<leftarrow> ossl_statem_client_pre_work e;
     change (\<lambda>s. s\<lparr>write_state_work := wst\<rparr>);
     case wst of
       WORK_ERROR \<Rightarrow> do { check_fatal; finish SUB_STATE_ERROR }
     | WORK_FINISHED_CONTINUE \<Rightarrow> do { change (\<lambda>s. s\<lparr>write_state := WRITE_STATE_SEND\<rparr>); write_message e }
     | WORK_FINISHED_STOP \<Rightarrow> finish SUB_STATE_END_HANDSHAKE
     | _ \<Rightarrow> finish SUB_STATE_ERROR
   }"

definition write_next :: "'w flow_env \<Rightarrow> ('w, sub_state_return option) tls" where
  "write_next e = do {
     t \<leftarrow> write_transition e;
     case t of
       WRITE_TRAN_CONTINUE \<Rightarrow> do {
         change (\<lambda>s. s\<lparr>write_state := WRITE_STATE_PRE_WORK, write_state_work := WORK_MORE_A\<rparr>);
         again }
     | WRITE_TRAN_FINISHED \<Rightarrow> finish SUB_STATE_FINISHED
     | WRITE_TRAN_ERROR \<Rightarrow> do { check_fatal; finish SUB_STATE_ERROR }
   }"

definition write_step :: "'w flow_env \<Rightarrow> ('w, sub_state_return option) tls" where
  "write_step e = do {
     st \<leftarrow> look write_state;
     case st of
       WRITE_STATE_TRANSITION \<Rightarrow> write_next e
     | WRITE_STATE_PRE_WORK \<Rightarrow> write_pre_work e
     | WRITE_STATE_SEND \<Rightarrow> write_send e
     | WRITE_STATE_POST_WORK \<Rightarrow> write_post_work e
   }"

definition write_state_machine :: "'w flow_env \<Rightarrow> nat \<Rightarrow> 'w tls_state \<Rightarrow> (sub_state_return \<times> 'w tls_state) option" where
  "write_state_machine e n x = sub_state_loop (write_step e) n x"

subsection \<open>The message flow\<close>

definition SSL_in_before :: "ssl_connection \<Rightarrow> bool" where
  "SSL_in_before s \<longleftrightarrow> hand_state s = TLS_ST_BEFORE \<and> flow_state s = MSG_FLOW_UNINITED"

definition ossl_statem_clear :: "ssl_connection \<Rightarrow> ssl_connection" where
  "ossl_statem_clear s = s\<lparr>flow_state := MSG_FLOW_UNINITED, hand_state := TLS_ST_BEFORE, in_init := True\<rparr>"

definition ossl_ssl_connection_reset :: "'w flow_env \<Rightarrow> ('w, bool) tls" where
  "ossl_ssl_connection_reset e = do {
     change (\<lambda>s. s\<lparr>hello_retry_request := SSL_HRR_NONE, hit := False, ssl_shutdown := 0\<rparr>);
     reneg \<leftarrow> look renegotiate;
     if reneg then State_Monad.return False
     else do {
       change ossl_statem_clear;
       change (\<lambda>s. s\<lparr>tls_version := method_version s, init_buf := False, first_packet := False,
         key_update := SSL_KEY_UPDATE_NONE, peer_compresses := False, compress_certificate_sent := False,
         method_version := deflt_version s\<rparr>);
       call (reset_method e) }
   }"

definition setup_handshake :: "'w flow_env \<Rightarrow> ('w, bool) tls" where
  "setup_handshake e = do {
     ok \<leftarrow> call (setup_checks e);
     change (\<lambda>s. if ok then s\<lparr>hit := False, cert_req := 0\<rparr> else s);
     State_Monad.return ok
   }"

text \<open>The initialisation at the start of a handshake: whether it succeeded.\<close>

definition init_fatal :: "('w, bool) tls" where
  "init_fatal = do { change SSLfatal; State_Monad.return False }"

definition init_handshake :: "'w flow_env \<Rightarrow> ('w, bool) tls" where
  "init_handshake e = do {
     s \<leftarrow> look id;
     ok \<leftarrow> (if SSL_in_before s \<or> renegotiate s then setup_handshake e else State_Monad.return True);
     if \<not> ok then State_Monad.return False
     else do {
       change (\<lambda>s'. if (SSL_in_before s \<or> renegotiate s) \<and> first_handshake s' then s'\<lparr>read_state_first_init := True\<rparr> else s');
       change (\<lambda>s. s\<lparr>flow_state := MSG_FLOW_WRITING, write_state := WRITE_STATE_TRANSITION\<rparr>);
       State_Monad.return True }
   }"

definition init_flow :: "'w flow_env \<Rightarrow> ('w, bool) tls" where
  "init_flow e = do {
     change (\<lambda>s. if flow_state s = MSG_FLOW_UNINITED then s\<lparr>hand_state := TLS_ST_BEFORE\<rparr> else s);
     v \<leftarrow> look tls_version;
     if v div 256 \<noteq> 3 then init_fatal
     else do {
       ok \<leftarrow> call (ssl_security_version e);
       if \<not> ok then init_fatal
       else do {
         buf \<leftarrow> look init_buf;
         ok \<leftarrow> (if buf then State_Monad.return True else call (new_init_buf e));
         if \<not> ok then init_fatal
         else do {
           change (\<lambda>s. s\<lparr>init_buf := True, init_num := 0, change_cipher_spec := False\<rparr>);
           ok \<leftarrow> call (ssl_init_wbio_buffer e);
           if \<not> ok then init_fatal else init_handshake e } } }
   }"

text \<open>The loop that alternates between writing and reading. Each loop has at most \<open>n\<close> rounds.\<close>

fun flow_loop :: "'w flow_env \<Rightarrow> nat \<Rightarrow> nat \<Rightarrow> 'w tls_state \<Rightarrow> (bool \<times> 'w tls_state) option" where
  "flow_loop e n 0 x = None"
| "flow_loop e n (Suc k) x = (case flow_state (conn x) of
      MSG_FLOW_FINISHED \<Rightarrow> Some (True, x)
    | MSG_FLOW_READING \<Rightarrow> (case read_state_machine e n x of
          None \<Rightarrow> None
        | Some (SUB_STATE_FINISHED, x') \<Rightarrow>
            flow_loop e n k (x'\<lparr>conn := (conn x')\<lparr>flow_state := MSG_FLOW_WRITING, write_state := WRITE_STATE_TRANSITION\<rparr>\<rparr>)
        | Some (_, x') \<Rightarrow> Some (False, x'))
    | MSG_FLOW_WRITING \<Rightarrow> (case write_state_machine e n x of
          None \<Rightarrow> None
        | Some (SUB_STATE_FINISHED, x') \<Rightarrow>
            flow_loop e n k (x'\<lparr>conn := (conn x')\<lparr>flow_state := MSG_FLOW_READING, read_state := READ_STATE_HEADER\<rparr>\<rparr>)
        | Some (SUB_STATE_END_HANDSHAKE, x') \<Rightarrow> flow_loop e n k (x'\<lparr>conn := (conn x')\<lparr>flow_state := MSG_FLOW_FINISHED\<rparr>\<rparr>)
        | Some (SUB_STATE_ERROR, x') \<Rightarrow> Some (False, x'))
    | _ \<Rightarrow> Some (False, snd (run_state check_fatal x)))"

definition handshaking :: "int \<Rightarrow> ssl_connection \<Rightarrow> ssl_connection" where
  "handshaking d s = s\<lparr>in_handshake := in_handshake s + d\<rparr>"

text \<open>
  \<^verbatim>\<open>state_machine(s, 0)\<close>, which \<^verbatim>\<open>SSL_connect\<close> calls: 1 if the handshake is complete, -1 otherwise. When the reset of
  the connection fails the function returns without leaving the handshake again.
\<close>

definition state_machine :: "'w flow_env \<Rightarrow> nat \<Rightarrow> 'w tls_state \<Rightarrow> (int \<times> 'w tls_state) option" where
  "state_machine e n x =
     (if flow_state (conn x) = MSG_FLOW_ERROR then Some (- 1, x)
      else
        let
          x = snd (run_state (change (handshaking 1)) x);
          (ok, x) = (if \<not> in_init (conn x) \<or> SSL_in_before (conn x) then run_state (ossl_ssl_connection_reset e) x
                     else (True, x))
        in
          if \<not> ok then Some (- 1, x)
          else
            let
              (ok, x) = (if flow_state (conn x) = MSG_FLOW_UNINITED \<or> flow_state (conn x) = MSG_FLOW_FINISHED
                         then run_state (init_flow e) x else (True, x))
            in
              if \<not> ok then Some (- 1, snd (run_state (change (handshaking (- 1))) x))
              else (case flow_loop e n n x of
                  None \<Rightarrow> None
                | Some (success, x) \<Rightarrow> Some (if success then 1 else - 1, snd (run_state (change (handshaking (- 1))) x))))"

end
