(* ===== verification/Tls_Runs.thy ===== *)
theory Tls_Runs
  imports Tls_Handshake
begin

text \<open>
  Runs of the client's handshake state machine against any server: which messages must have been received before the
  handshake is complete.
\<close>

subsection \<open>Runs\<close>

text \<open>
  The functions that process a received message or prepare and finish one to be sent are not part of the
  machine. \<open>work_frame\<close> states what they leave alone: they do not move the state; the negotiated
  parameters are only set while the hellos are exchanged; a request for post-handshake authentication
  is only recorded by a transition; \<^verbatim>\<open>SSL_shutdown\<close> fails during a handshake; the program does not send early data.
\<close>

definition negotiating :: "handshake_state \<Rightarrow> bool" where
  "negotiating h \<longleftrightarrow> h \<in> {TLS_ST_BEFORE, TLS_ST_CW_CLNT_HELLO, TLS_ST_CR_SRVR_HELLO}"

definition shut_down :: "ssl_connection \<Rightarrow> bool" where
  "shut_down s \<longleftrightarrow> ssl_shutdown s AND SSL_SENT_SHUTDOWN \<noteq> 0"

definition work_frame :: "ssl_connection \<Rightarrow> ssl_connection \<Rightarrow> bool" where
  "work_frame s s' \<longleftrightarrow> hand_state s' = hand_state s \<and> is_dtls s' = is_dtls s \<and> early_data_state s' = early_data_state s \<and>
     (\<not> negotiating (hand_state s) \<longrightarrow> method_version s' = method_version s \<and> hit s' = hit s \<and>
        new_cipher s' = new_cipher s \<and> hello_retry_request s' = hello_retry_request s) \<and>
     (post_handshake_auth s' = SSL_PHA_REQUESTED \<longrightarrow> post_handshake_auth s = SSL_PHA_REQUESTED) \<and>
     (shut_down s' \<longrightarrow> shut_down s \<or> hand_state s = TLS_ST_OK)"

lemma work_frameD:
  assumes "work_frame s s'"
  shows "hand_state s' = hand_state s" "is_dtls s' = is_dtls s" "early_data_state s' = early_data_state s"
    "\<not> negotiating (hand_state s) \<Longrightarrow> method_version s' = method_version s \<and> hit s' = hit s \<and>
        new_cipher s' = new_cipher s \<and> hello_retry_request s' = hello_retry_request s"
    "post_handshake_auth s' = SSL_PHA_REQUESTED \<Longrightarrow> post_handshake_auth s = SSL_PHA_REQUESTED"
    "shut_down s' \<Longrightarrow> shut_down s \<or> hand_state s = TLS_ST_OK"
  using assms unfolding work_frame_def by blast+

text \<open>The work before a ClientHello is sent starts with \<^verbatim>\<open>s->shutdown = 0\<close>.\<close>

definition hello_reset :: "ssl_connection \<Rightarrow> ssl_connection" where
  "hello_reset s = (if hand_state s = TLS_ST_CW_CLNT_HELLO then s\<lparr>ssl_shutdown := 0\<rparr> else s)"

datatype tls_phase = Reading | Processing | Writing

text \<open>
  A run: the phase, the connection, and the types of the messages received since the last ClientHello. After a
  ServerHello the client only goes on to write if it was a HelloRetryRequest.
\<close>

inductive tls_run :: "tls_phase \<Rightarrow> ssl_connection \<Rightarrow> int list \<Rightarrow> bool" where
  start: "hand_state s = TLS_ST_BEFORE \<Longrightarrow> \<not> is_dtls s \<Longrightarrow> early_data_state s = SSL_EARLY_DATA_NONE \<Longrightarrow>
    post_handshake_auth s \<noteq> SSL_PHA_REQUESTED \<Longrightarrow> tls_run Writing s []"
| read: "tls_run Reading s r \<Longrightarrow> ossl_statem_client_read_transition calls s mt = (True, s') \<Longrightarrow>
    tls_run Processing s' (r @ [mt])"
| process: "tls_run Processing s r \<Longrightarrow> tls_run Reading s r"
| processed: "tls_run Processing s r \<Longrightarrow>
    (hand_state s = TLS_ST_CR_SRVR_HELLO \<Longrightarrow> hello_retry_request s = SSL_HRR_PENDING) \<Longrightarrow> tls_run Writing s r"
| send: "tls_run Writing s r \<Longrightarrow> ossl_statem_client_write_transition calls s = (WRITE_TRAN_CONTINUE, s') \<Longrightarrow>
    tls_run Writing (hello_reset s') (if hand_state s' = TLS_ST_CW_CLNT_HELLO then [] else r)"
| sent: "tls_run Writing s r \<Longrightarrow> ossl_statem_client_write_transition calls s = (WRITE_TRAN_FINISHED, s') \<Longrightarrow>
    tls_run Reading s' r"
| work: "tls_run p s r \<Longrightarrow> work_frame s s' \<Longrightarrow>
    (p = Writing \<Longrightarrow> hand_state s = TLS_ST_CR_SRVR_HELLO \<Longrightarrow> hello_retry_request s' = hello_retry_request s) \<Longrightarrow>
    tls_run p s' r"

subsection \<open>The messages received\<close>

text \<open>TLS 1.3 with a server certificate: what has been received when the server's Finished message has arrived.\<close>

definition server_auth13 :: "int list \<Rightarrow> bool" where
  "server_auth13 r \<longleftrightarrow> (\<exists>req cert post. set req \<subseteq> {SSL3_MT_CERTIFICATE_REQUEST} \<and> length req \<le> 1 \<and>
     cert \<in> {SSL3_MT_CERTIFICATE, SSL3_MT_COMPRESSED_CERTIFICATE} \<and>
     r = [SSL3_MT_SERVER_HELLO, SSL3_MT_ENCRYPTED_EXTENSIONS] @ req @
       [cert, SSL3_MT_CERTIFICATE_VERIFY, SSL3_MT_FINISHED] @ post)"

definition upto_cert13 :: "int list \<Rightarrow> bool" where
  "upto_cert13 r \<longleftrightarrow> (\<exists>req cert. set req \<subseteq> {SSL3_MT_CERTIFICATE_REQUEST} \<and> length req \<le> 1 \<and>
     cert \<in> {SSL3_MT_CERTIFICATE, SSL3_MT_COMPRESSED_CERTIFICATE} \<and>
     r = [SSL3_MT_SERVER_HELLO, SSL3_MT_ENCRYPTED_EXTENSIONS] @ req @ [cert])"

text \<open>What is known of the messages in each state of a TLS 1.3 handshake that does not resume a session.\<close>

definition calm :: "ssl_connection \<Rightarrow> bool" where
  "calm s \<longleftrightarrow> post_handshake_auth s \<noteq> SSL_PHA_REQUESTED \<and> \<not> shut_down s"

definition path13 :: "ssl_connection \<Rightarrow> int list \<Rightarrow> bool" where
  "path13 s r = (case hand_state s of
      TLS_ST_CR_ENCRYPTED_EXTENSIONS \<Rightarrow> r = [SSL3_MT_SERVER_HELLO, SSL3_MT_ENCRYPTED_EXTENSIONS] \<and> calm s
    | TLS_ST_CR_CERT_REQ \<Rightarrow>
        r = [SSL3_MT_SERVER_HELLO, SSL3_MT_ENCRYPTED_EXTENSIONS, SSL3_MT_CERTIFICATE_REQUEST] \<and> calm s \<or> server_auth13 r
    | TLS_ST_CR_CERT \<Rightarrow> upto_cert13 r \<or> server_auth13 r
    | TLS_ST_CR_COMP_CERT \<Rightarrow> upto_cert13 r \<or> server_auth13 r
    | TLS_ST_CR_CERT_VRFY \<Rightarrow> (\<exists>r'. upto_cert13 r' \<and> r = r' @ [SSL3_MT_CERTIFICATE_VERIFY]) \<or> server_auth13 r
    | _ \<Rightarrow> server_auth13 r)"

text \<open>The hellos, before the version is known.\<close>

definition hello_path :: "tls_phase \<Rightarrow> ssl_connection \<Rightarrow> int list \<Rightarrow> bool" where
  "hello_path p s r \<longleftrightarrow>
     (hand_state s = TLS_ST_BEFORE \<longrightarrow> r = [] \<and> p = Writing \<and> post_handshake_auth s \<noteq> SSL_PHA_REQUESTED) \<and>
     (hand_state s = TLS_ST_CW_CLNT_HELLO \<longrightarrow> r = [] \<and> calm s) \<and>
     (hand_state s = TLS_ST_CR_SRVR_HELLO \<longrightarrow> r = [SSL3_MT_SERVER_HELLO] \<and> calm s \<and>
        (p = Writing \<longrightarrow> hello_retry_request s = SSL_HRR_PENDING))"

definition run_inv :: "tls_phase \<Rightarrow> ssl_connection \<Rightarrow> int list \<Rightarrow> bool" where
  "run_inv p s r \<longleftrightarrow> \<not> is_dtls s \<and> early_data_state s = SSL_EARLY_DATA_NONE \<and> hello_path p s r \<and>
     (SSL_CONNECTION_IS_TLS13 s \<and> \<not> hit s \<and> \<not> negotiating (hand_state s) \<longrightarrow> path13 s r) \<and> hand_state s \<noteq> TLS_ST_EARLY_DATA \<and>
     (\<not> SSL_CONNECTION_IS_TLS13 s \<longrightarrow> post_handshake_auth s \<noteq> SSL_PHA_REQUESTED)"


lemmas transition_defs = taken_to_def no_transition_def go_on_def write_error_def SSLfatal_def

lemma IS_TLS13_hand_state [simp]: "SSL_CONNECTION_IS_TLS13 (s\<lparr>hand_state := h\<rparr>) = SSL_CONNECTION_IS_TLS13 s"
  "SSL_CONNECTION_IS_TLS13 (s\<lparr>hit := b\<rparr>) = SSL_CONNECTION_IS_TLS13 s"
  "SSL_CONNECTION_IS_TLS13 (s\<lparr>post_handshake_auth := a\<rparr>) = SSL_CONNECTION_IS_TLS13 s"
  "SSL_CONNECTION_IS_TLS13 (s\<lparr>cert_req := n\<rparr>) = SSL_CONNECTION_IS_TLS13 s"
  by (simp_all add: SSL_CONNECTION_IS_TLS13_def)

lemma upto_cert13I:
  "cert \<in> {SSL3_MT_CERTIFICATE, SSL3_MT_COMPRESSED_CERTIFICATE} \<Longrightarrow>
     upto_cert13 [SSL3_MT_SERVER_HELLO, SSL3_MT_ENCRYPTED_EXTENSIONS, cert]"
  "cert \<in> {SSL3_MT_CERTIFICATE, SSL3_MT_COMPRESSED_CERTIFICATE} \<Longrightarrow>
     upto_cert13 [SSL3_MT_SERVER_HELLO, SSL3_MT_ENCRYPTED_EXTENSIONS, SSL3_MT_CERTIFICATE_REQUEST, cert]"
proof -
  assume c: "cert \<in> {SSL3_MT_CERTIFICATE, SSL3_MT_COMPRESSED_CERTIFICATE}"
  show "upto_cert13 [SSL3_MT_SERVER_HELLO, SSL3_MT_ENCRYPTED_EXTENSIONS, cert]"
    unfolding upto_cert13_def by (rule exI [of _ "[]"], rule exI [of _ cert]) (use c in simp)
  show "upto_cert13 [SSL3_MT_SERVER_HELLO, SSL3_MT_ENCRYPTED_EXTENSIONS, SSL3_MT_CERTIFICATE_REQUEST, cert]"
    unfolding upto_cert13_def by (rule exI [of _ "[SSL3_MT_CERTIFICATE_REQUEST]"], rule exI [of _ cert]) (use c in simp)
qed

lemma server_auth13_finished: "upto_cert13 r \<Longrightarrow> server_auth13 (r @ [SSL3_MT_CERTIFICATE_VERIFY, SSL3_MT_FINISHED])"
  unfolding upto_cert13_def server_auth13_def by fastforce

lemma server_auth13_append: "server_auth13 r \<Longrightarrow> server_auth13 (r @ r')"
  unfolding server_auth13_def by fastforce

lemma read13_path:
  assumes "ossl_statem_client13_read_transition calls s mt = (True, s')"
    and "hello_path Reading s r" "hit s \<or> negotiating (hand_state s) \<or> path13 s r"
  shows "hello_path Processing s' (r @ [mt]) \<and> (hit s' \<or> negotiating (hand_state s') \<or> path13 s' (r @ [mt])) \<and>
    is_dtls s' = is_dtls s \<and> early_data_state s' = early_data_state s \<and> SSL_CONNECTION_IS_TLS13 s' = SSL_CONNECTION_IS_TLS13 s \<and>
    hand_state s' \<noteq> TLS_ST_EARLY_DATA"
  using assms
  by (cases "hand_state s")
    (auto simp: ossl_statem_client13_read_transition_def transition_defs hello_path_def path13_def negotiating_def calm_def shut_down_def
       Let_def upto_cert13I server_auth13_append server_auth13_finished split: if_splits)


lemmas read12_defs = client12_read_transition_def read_after_srvr_hello_def read_after_cert_status_def
  read_after_key_exch_def read_after_cert_req_def

lemma read12_path:
  assumes "client12_read_transition s mt = (True, s')" "hello_path Reading s r" "\<not> is_dtls s"
    "early_data_state s = SSL_EARLY_DATA_NONE" "hand_state s \<noteq> TLS_ST_EARLY_DATA"
  shows "hello_path Processing s' (r @ [mt]) \<and> is_dtls s' = is_dtls s \<and> early_data_state s' = early_data_state s \<and>
    SSL_CONNECTION_IS_TLS13 s' = SSL_CONNECTION_IS_TLS13 s \<and> post_handshake_auth s' = post_handshake_auth s \<and>
    hand_state s' \<noteq> TLS_ST_EARLY_DATA"
  using assms
  by (cases "hand_state s")
    (auto simp: read12_defs transition_defs hello_path_def calm_def shut_down_def split: if_splits)

lemma read_inv:
  assumes "ossl_statem_client_read_transition calls s mt = (True, s')" "run_inv Reading s r"
  shows "run_inv Processing s' (r @ [mt])"
proof (cases "SSL_CONNECTION_IS_TLS13 s")
  case True
  with assms(1) have "ossl_statem_client13_read_transition calls s mt = (True, s')"
    by (auto simp: ossl_statem_client_read_transition_def split: prod.splits if_splits)
  from read13_path [OF this] assms(2) True show ?thesis
    by (auto simp: run_inv_def)
next
  case False
  with assms(1) have "client12_read_transition s mt = (True, s')"
    by (auto simp: ossl_statem_client_read_transition_def split: prod.splits if_splits)
  from read12_path [OF this] assms(2) False show ?thesis
    by (auto simp: run_inv_def)
qed

lemma work_inv:
  assumes "work_frame s s'" "run_inv p s r" "q = Writing \<Longrightarrow> hand_state s = TLS_ST_CR_SRVR_HELLO \<Longrightarrow> hello_retry_request s' = SSL_HRR_PENDING"
    "hand_state s = TLS_ST_BEFORE \<Longrightarrow> q = Writing"
  shows "run_inv q s' r"
proof -
  note f = work_frameD [OF assms(1)]
  have "SSL_CONNECTION_IS_TLS13 s' = SSL_CONNECTION_IS_TLS13 s" if "\<not> negotiating (hand_state s)"
    using f(2) f(4) [OF that] by (simp add: SSL_CONNECTION_IS_TLS13_def)
  moreover have "calm s \<Longrightarrow> hand_state s \<noteq> TLS_ST_OK \<Longrightarrow> calm s'"
    using f(5,6) by (auto simp: calm_def)
  ultimately show ?thesis
    using assms(2-4) f(1-5) unfolding run_inv_def hello_path_def path13_def
    by (cases "hand_state s") (auto simp: negotiating_def calm_def)
qed

definition write13_states :: "handshake_state set" where
  "write13_states = {TLS_ST_OK, TLS_ST_PENDING_EARLY_DATA_END, TLS_ST_CW_END_OF_EARLY_DATA, TLS_ST_CW_CHANGE,
     TLS_ST_CW_COMP_CERT, TLS_ST_CW_CERT, TLS_ST_CW_CERT_VRFY, TLS_ST_CW_FINISHED, TLS_ST_CW_KEY_UPDATE}"

lemma write13_effect:
  assumes "ossl_statem_client13_write_transition s = (t, s')" "t \<noteq> WRITE_TRAN_ERROR"
  shows "s' = s\<lparr>hand_state := hand_state s'\<rparr> \<and> hand_state s' \<in> write13_states \<and>
    (hand_state s \<in> write13_states \<union> {TLS_ST_CR_FINISHED, TLS_ST_CR_KEY_UPDATE, TLS_ST_CR_SESSION_TICKET} \<or>
     hand_state s = TLS_ST_CR_CERT_REQ \<and> \<not> calm s)"
  using assms
  by (cases "hand_state s")
    (simp_all add: ossl_statem_client13_write_transition_def go_on_def write_error_def client_cert_or_finished_def
      write13_states_def shut_down_def calm_def split: if_splits, auto)

lemma path13_auth:
  assumes "path13 s r"
    "hand_state s \<in> write13_states \<union> {TLS_ST_CR_FINISHED, TLS_ST_CR_KEY_UPDATE, TLS_ST_CR_SESSION_TICKET} \<or>
     hand_state s = TLS_ST_CR_CERT_REQ \<and> \<not> calm s"
  shows "server_auth13 r"
  using assms by (auto simp: path13_def write13_states_def)

lemma auth_path13:
  assumes "server_auth13 r" "hand_state s \<in> write13_states"
  shows "path13 s r"
  using assms by (auto simp: path13_def write13_states_def)

lemma write13_states_states:
  assumes "h \<in> write13_states"
  shows "\<not> negotiating h" "h \<noteq> TLS_ST_EARLY_DATA"
  using assms by (auto simp: write13_states_def negotiating_def)

lemma run_inv_move:
  assumes "run_inv p s r" "s' = s\<lparr>hand_state := h\<rparr>" "h \<in> write13_states"
    "SSL_CONNECTION_IS_TLS13 s \<Longrightarrow> \<not> hit s \<Longrightarrow> server_auth13 r"
  shows "run_inv q s' r"
proof -
  have "hello_path q s' r"
    using write13_states_states [OF assms(3)] assms(2) by (simp add: hello_path_def negotiating_def)
  moreover have "SSL_CONNECTION_IS_TLS13 s' \<Longrightarrow> \<not> hit s' \<Longrightarrow> path13 s' r"
    using auth_path13 [of r s'] assms by simp
  ultimately show ?thesis
    using assms(1,2) write13_states_states [OF assms(3)] by (simp add: run_inv_def)
qed

lemma write13_inv:
  assumes "ossl_statem_client13_write_transition s = (t, s')" "t \<noteq> WRITE_TRAN_ERROR" "run_inv Writing s r"
    "SSL_CONNECTION_IS_TLS13 s"
  shows "run_inv q s' r \<and> \<not> negotiating (hand_state s')"
proof -
  note e = write13_effect [OF assms(1,2)]
  from e have n: "\<not> negotiating (hand_state s)"
    by (auto simp: write13_states_def negotiating_def)
  have "\<not> hit s \<Longrightarrow> server_auth13 r"
    using path13_auth [of s r] assms(3,4) e n by (auto simp: run_inv_def)
  from run_inv_move [OF assms(3)] this e show ?thesis
    using write13_states_states by blast
qed

lemma write12_effect:
  assumes "client12_write_transition calls s = (t, s')" "t \<noteq> WRITE_TRAN_ERROR" "early_data_state s = SSL_EARLY_DATA_NONE"
    "hand_state s \<noteq> TLS_ST_EARLY_DATA"
  shows "is_dtls s' = is_dtls s \<and> method_version s' = method_version s \<and> early_data_state s' = SSL_EARLY_DATA_NONE \<and>
    post_handshake_auth s' = post_handshake_auth s \<and> hand_state s' \<notin> {TLS_ST_EARLY_DATA, TLS_ST_BEFORE, TLS_ST_CR_SRVR_HELLO} \<and>
    (t = WRITE_TRAN_FINISHED \<longrightarrow> s' = s)"
  using assms
  by (cases "hand_state s")
    (simp_all add: client12_write_transition_def go_on_def write_error_def split: if_splits, auto)

lemma write12_send:
  assumes "client12_write_transition calls s = (t, s')" "t \<noteq> WRITE_TRAN_ERROR" "run_inv Writing s r"
    "\<not> SSL_CONNECTION_IS_TLS13 s"
  shows "run_inv Writing (hello_reset s') (if hand_state s' = TLS_ST_CW_CLNT_HELLO then [] else r)"
proof -
  have i: "\<not> is_dtls s" "early_data_state s = SSL_EARLY_DATA_NONE" "hand_state s \<noteq> TLS_ST_EARLY_DATA"
      "post_handshake_auth s \<noteq> SSL_PHA_REQUESTED"
    using assms(3,4) by (simp_all add: run_inv_def)
  note e = write12_effect [OF assms(1,2) i(2,3)]
  have "\<not> SSL_CONNECTION_IS_TLS13 (hello_reset s')"
    using e assms(4) by (simp add: SSL_CONNECTION_IS_TLS13_def hello_reset_def)
  with e i show ?thesis
    by (simp add: run_inv_def hello_path_def hello_reset_def calm_def shut_down_def)
qed

lemma send_inv:
  assumes "ossl_statem_client_write_transition calls s = (WRITE_TRAN_CONTINUE, s')" "run_inv Writing s r"
  shows "run_inv Writing (hello_reset s') (if hand_state s' = TLS_ST_CW_CLNT_HELLO then [] else r)"
proof (cases "SSL_CONNECTION_IS_TLS13 s")
  case True
  with assms(1) have "ossl_statem_client13_write_transition s = (WRITE_TRAN_CONTINUE, s')"
    by (simp add: ossl_statem_client_write_transition_def)
  from write13_inv [OF this _ assms(2) True, of Writing] show ?thesis
    by (auto simp: hello_reset_def negotiating_def)
next
  case False
  with assms(1) have "client12_write_transition calls s = (WRITE_TRAN_CONTINUE, s')"
    by (simp add: ossl_statem_client_write_transition_def)
  from write12_send [OF this _ assms(2) False] show ?thesis by simp
qed

lemma sent_inv:
  assumes "ossl_statem_client_write_transition calls s = (WRITE_TRAN_FINISHED, s')" "run_inv Writing s r"
  shows "run_inv Reading s' r"
proof (cases "SSL_CONNECTION_IS_TLS13 s")
  case True
  with assms(1) have "ossl_statem_client13_write_transition s = (WRITE_TRAN_FINISHED, s')"
    by (simp add: ossl_statem_client_write_transition_def)
  from write13_inv [OF this _ assms(2) True, of Reading] show ?thesis by simp
next
  case False
  with assms(1) have "client12_write_transition calls s = (WRITE_TRAN_FINISHED, s')"
    by (simp add: ossl_statem_client_write_transition_def)
  moreover have "early_data_state s = SSL_EARLY_DATA_NONE" "hand_state s \<noteq> TLS_ST_EARLY_DATA"
    using assms(2) by (simp_all add: run_inv_def)
  ultimately have "s' = s" "hand_state s \<notin> {TLS_ST_BEFORE, TLS_ST_CR_SRVR_HELLO}"
    using write12_effect [of calls s WRITE_TRAN_FINISHED s'] by auto
  with assms(2) show ?thesis by (simp add: run_inv_def hello_path_def)
qed

lemma tls_run_inv: "tls_run p s r \<Longrightarrow> run_inv p s r"
proof (induction rule: tls_run.induct)
  case (start s)
  then show ?case by (simp add: run_inv_def hello_path_def negotiating_def)
next
  case (read s r calls mt s')
  then show ?case by (blast intro: read_inv)
next
  case (process s r)
  then show ?case by (auto simp: run_inv_def hello_path_def)
next
  case (processed s r)
  then show ?case by (auto simp: run_inv_def hello_path_def)
next
  case (send s r calls s')
  then show ?case by (blast intro: send_inv)
next
  case (sent s r calls s')
  then show ?case by (blast intro: sent_inv)
next
  case (work p s r s')
  then show ?case
    by (intro work_inv [of s s' p]) (auto simp: run_inv_def hello_path_def)
qed

subsection \<open>The older versions\<close>

text \<open>
  The flights of a server that authenticates with a certificate, for a cipher suite that does (\<open>kx\<close>) or
  does not need a ServerKeyExchange message.
\<close>

definition upto_status12 :: "int list \<Rightarrow> bool" where
  "upto_status12 r \<longleftrightarrow> r = [SSL3_MT_SERVER_HELLO, SSL3_MT_CERTIFICATE] \<or>
     r = [SSL3_MT_SERVER_HELLO, SSL3_MT_CERTIFICATE, SSL3_MT_CERTIFICATE_STATUS]"

definition upto_key_exch12 :: "bool \<Rightarrow> int list \<Rightarrow> bool" where
  "upto_key_exch12 kx r \<longleftrightarrow> (\<exists>r'. upto_status12 r' \<and> (r = r' @ [SSL3_MT_SERVER_KEY_EXCHANGE] \<or> \<not> kx \<and> r = r'))"

definition upto_done12 :: "bool \<Rightarrow> int list \<Rightarrow> bool" where
  "upto_done12 kx r \<longleftrightarrow> (\<exists>r' req. upto_key_exch12 kx r' \<and> req \<in> {[], [SSL3_MT_CERTIFICATE_REQUEST]} \<and>
     r = r' @ req @ [SSL3_MT_SERVER_DONE])"

definition upto_change12 :: "bool \<Rightarrow> int list \<Rightarrow> bool" where
  "upto_change12 kx r \<longleftrightarrow> (\<exists>r' ticket. upto_done12 kx r' \<and> ticket \<in> {[], [SSL3_MT_NEWSESSION_TICKET]} \<and>
     r = r' @ ticket @ [SSL3_MT_CHANGE_CIPHER_SPEC])"

definition server_auth12 :: "bool \<Rightarrow> int list \<Rightarrow> bool" where
  "server_auth12 kx r \<longleftrightarrow> (\<exists>r' post. upto_change12 kx r' \<and> r = r' @ [SSL3_MT_FINISHED] @ post)"

definition cert_cipher :: "ssl_connection \<Rightarrow> bool" where
  "cert_cipher s \<longleftrightarrow> algorithm_auth (new_cipher s) AND (SSL_aNULL OR SSL_aSRP OR SSL_aPSK) = 0"

definition path12 :: "ssl_connection \<Rightarrow> int list \<Rightarrow> bool" where
  "path12 s r = (let kx = key_exchange_expected s in case hand_state s of
      TLS_ST_CR_SRVR_HELLO \<Rightarrow> r = [SSL3_MT_SERVER_HELLO]
    | TLS_ST_CR_CERT \<Rightarrow> r = [SSL3_MT_SERVER_HELLO, SSL3_MT_CERTIFICATE]
    | TLS_ST_CR_CERT_STATUS \<Rightarrow> upto_status12 r
    | TLS_ST_CR_KEY_EXCH \<Rightarrow> upto_key_exch12 kx r
    | TLS_ST_CR_CERT_REQ \<Rightarrow> (\<exists>r'. upto_key_exch12 kx r' \<and> r = r' @ [SSL3_MT_CERTIFICATE_REQUEST])
    | TLS_ST_CR_SRVR_DONE \<Rightarrow> upto_done12 kx r
    | TLS_ST_CW_CERT \<Rightarrow> upto_done12 kx r
    | TLS_ST_CW_KEY_EXCH \<Rightarrow> upto_done12 kx r
    | TLS_ST_CW_CERT_VRFY \<Rightarrow> upto_done12 kx r
    | TLS_ST_CW_CHANGE \<Rightarrow> upto_done12 kx r \<or> hello_retry_request s = SSL_HRR_PENDING
    | TLS_ST_CW_NEXT_PROTO \<Rightarrow> upto_done12 kx r
    | TLS_ST_CW_FINISHED \<Rightarrow> upto_done12 kx r
    | TLS_ST_CR_SESSION_TICKET \<Rightarrow> (\<exists>r'. upto_done12 kx r' \<and> r = r' @ [SSL3_MT_NEWSESSION_TICKET])
    | TLS_ST_CR_CHANGE \<Rightarrow> upto_change12 kx r
    | TLS_ST_CR_FINISHED \<Rightarrow> server_auth12 kx r
    | TLS_ST_CR_HELLO_REQ \<Rightarrow> server_auth12 kx r
    | TLS_ST_OK \<Rightarrow> server_auth12 kx r
    | _ \<Rightarrow> False)"

named_theorems flights12

lemma upto_status12I [flights12]:
  "upto_status12 [SSL3_MT_SERVER_HELLO, SSL3_MT_CERTIFICATE]"
  "upto_status12 [SSL3_MT_SERVER_HELLO, SSL3_MT_CERTIFICATE, SSL3_MT_CERTIFICATE_STATUS]"
  by (simp_all add: upto_status12_def)

lemma upto_key_exch12I [flights12]:
  "upto_status12 r \<Longrightarrow> upto_key_exch12 kx (r @ [SSL3_MT_SERVER_KEY_EXCHANGE])"
  "upto_status12 r \<Longrightarrow> \<not> kx \<Longrightarrow> upto_key_exch12 kx r"
  "upto_status12 r \<Longrightarrow> \<not> kx \<Longrightarrow> \<exists>r'. upto_key_exch12 kx r' \<and> r @ [SSL3_MT_CERTIFICATE_REQUEST] = r' @ [SSL3_MT_CERTIFICATE_REQUEST]"
  "upto_key_exch12 kx r \<Longrightarrow> \<exists>r'. upto_key_exch12 kx r' \<and> r @ [SSL3_MT_CERTIFICATE_REQUEST] = r' @ [SSL3_MT_CERTIFICATE_REQUEST]"
  unfolding upto_key_exch12_def by blast+

lemma upto_done12I [flights12]:
  "upto_key_exch12 kx r \<Longrightarrow> upto_done12 kx (r @ [SSL3_MT_SERVER_DONE])"
  "upto_key_exch12 kx r \<Longrightarrow> upto_done12 kx ((r @ [SSL3_MT_CERTIFICATE_REQUEST]) @ [SSL3_MT_SERVER_DONE])"
  "upto_status12 r \<Longrightarrow> \<not> kx \<Longrightarrow> upto_done12 kx (r @ [SSL3_MT_SERVER_DONE])"
  unfolding upto_done12_def by (auto intro: upto_key_exch12I)

lemma upto_change12I [flights12]:
  "upto_done12 kx r \<Longrightarrow> upto_change12 kx (r @ [SSL3_MT_CHANGE_CIPHER_SPEC])"
  "upto_done12 kx r \<Longrightarrow> upto_change12 kx ((r @ [SSL3_MT_NEWSESSION_TICKET]) @ [SSL3_MT_CHANGE_CIPHER_SPEC])"
  unfolding upto_change12_def by auto

lemma server_auth12I [flights12]:
  "upto_change12 kx r \<Longrightarrow> server_auth12 kx (r @ [SSL3_MT_FINISHED])"
  "server_auth12 kx r \<Longrightarrow> server_auth12 kx (r @ post)"
  unfolding server_auth12_def by auto

lemma key_exchange_expected_hand_state [simp]:
  "key_exchange_expected (s\<lparr>hand_state := h\<rparr>) = key_exchange_expected s"
  by (simp add: key_exchange_expected_def)

lemmas path12_defs = read12_defs path12_def taken_to_def no_transition_def Let_def

lemma read12_path12:
  assumes "client12_read_transition s mt = (True, s')" "path12 s r" "cert_cipher s" "\<not> hit s'" "\<not> is_dtls s"
  shows "path12 s' (r @ [mt])"
proof (cases "hand_state s")
  case TLS_ST_CR_SRVR_HELLO
  then show ?thesis using assms
    by (auto simp: client12_read_transition_def read_after_srvr_hello_def path12_def taken_to_def no_transition_def
      cert_cipher_def split: if_splits)
next
  case TLS_ST_CR_CERT
  then have "upto_status12 r" "upto_status12 (r @ [SSL3_MT_CERTIFICATE_STATUS])"
    using assms(2) by (simp_all add: path12_def upto_status12_def)
  with TLS_ST_CR_CERT show ?thesis using assms(1)
    by (auto simp: path12_defs split: if_splits intro: flights12)
next
  case TLS_ST_CR_CERT_STATUS
  then show ?thesis using assms(1,2)
    by (auto simp: path12_defs split: if_splits intro: flights12)
next
  case TLS_ST_CR_KEY_EXCH
  then show ?thesis using assms(1,2)
    by (auto simp: path12_defs split: if_splits intro: flights12)
next
  case TLS_ST_CR_CERT_REQ
  then obtain r' where "upto_key_exch12 (key_exchange_expected s) r'" "r = r' @ [SSL3_MT_CERTIFICATE_REQUEST]"
    using assms(2) by (auto simp: path12_def Let_def)
  with upto_done12I(2) [OF this(1)] TLS_ST_CR_CERT_REQ show ?thesis using assms(1)
    by (auto simp: path12_defs split: if_splits)
next
  case TLS_ST_CW_FINISHED
  then show ?thesis using assms(1,2)
    by (auto simp: path12_defs split: if_splits intro: flights12)
next
  case TLS_ST_CR_SESSION_TICKET
  then obtain r' where "upto_done12 (key_exchange_expected s) r'" "r = r' @ [SSL3_MT_NEWSESSION_TICKET]"
    using assms(2) by (auto simp: path12_def Let_def)
  with upto_change12I(2) [OF this(1)] TLS_ST_CR_SESSION_TICKET show ?thesis using assms(1)
    by (auto simp: path12_defs split: if_splits)
next
  case TLS_ST_CR_CHANGE
  then show ?thesis using assms(1,2)
    by (auto simp: path12_defs split: if_splits intro: flights12)
next
  case TLS_ST_OK
  then show ?thesis using assms(1,2)
    by (auto simp: path12_defs split: if_splits intro: flights12)
qed (use assms(1,2) in \<open>simp_all add: client12_read_transition_def path12_def no_transition_def\<close>)

lemma write12_path12:
  assumes "client12_write_transition calls s = (t, s')" "t \<noteq> WRITE_TRAN_ERROR" "path12 s r" "\<not> hit s'"
    "hand_state s = TLS_ST_CR_SRVR_HELLO \<Longrightarrow> hello_retry_request s = SSL_HRR_PENDING"
    "hand_state s' \<noteq> TLS_ST_CW_CLNT_HELLO" "early_data_state s = SSL_EARLY_DATA_NONE"
  shows "path12 s' r"
  using assms
  by (cases "hand_state s")
    (simp_all add: client12_write_transition_def go_on_def write_error_def path12_def Let_def split: if_splits, auto)

definition run_inv12 :: "ssl_connection \<Rightarrow> int list \<Rightarrow> bool" where
  "run_inv12 s r \<longleftrightarrow> (\<not> SSL_CONNECTION_IS_TLS13 s \<and> \<not> hit s \<and> cert_cipher s \<and>
     hand_state s \<notin> {TLS_ST_BEFORE, TLS_ST_CW_CLNT_HELLO} \<longrightarrow> path12 s r)"

lemma read_inv12:
  assumes "ossl_statem_client_read_transition calls s mt = (True, s')" "run_inv Reading s r" "run_inv12 s r"
  shows "run_inv12 s' (r @ [mt])"
proof (cases "SSL_CONNECTION_IS_TLS13 s")
  case True
  with assms(1) have "ossl_statem_client13_read_transition calls s mt = (True, s')"
    by (auto simp: ossl_statem_client_read_transition_def split: prod.splits if_splits)
  from read13_path [OF this] assms(2) True show ?thesis by (auto simp: run_inv_def run_inv12_def)
next
  case False
  with assms(1) have e: "client12_read_transition s mt = (True, s')"
    by (auto simp: ossl_statem_client_read_transition_def split: prod.splits if_splits)
  have i: "\<not> is_dtls s" "hello_path Reading s r" using assms(2) by (simp_all add: run_inv_def)
  have f: "hit s \<Longrightarrow> hit s'" "new_cipher s' = new_cipher s"
    using e by (cases "hand_state s"; auto simp: path12_defs split: if_splits)+
  show ?thesis
  proof (cases "hand_state s = TLS_ST_CW_CLNT_HELLO")
    case True
    with e i show ?thesis
      by (auto simp: run_inv12_def client12_read_transition_def taken_to_def no_transition_def path12_def
        hello_path_def split: if_splits)
  next
    case False
    moreover have "hand_state s \<noteq> TLS_ST_BEFORE" using i(2) by (auto simp: hello_path_def)
    ultimately show ?thesis
      using read12_path12 [OF e] f i(1) \<open>\<not> SSL_CONNECTION_IS_TLS13 s\<close> assms(3)
      by (auto simp: run_inv12_def cert_cipher_def)
  qed
qed

lemma work_inv12:
  assumes "work_frame s s'" "run_inv p s r" "run_inv12 s r"
  shows "run_inv12 s' r"
proof (cases "negotiating (hand_state s)")
  case True
  with work_frameD(1) [OF assms(1)] assms(2) show ?thesis
    by (auto simp: run_inv12_def run_inv_def hello_path_def path12_def negotiating_def)
next
  case False
  note f = work_frameD [OF assms(1)]
  have "SSL_CONNECTION_IS_TLS13 s' = SSL_CONNECTION_IS_TLS13 s" "cert_cipher s' = cert_cipher s"
      "key_exchange_expected s' = key_exchange_expected s"
    using f(2) f(4) [OF False]
    by (simp_all add: SSL_CONNECTION_IS_TLS13_def cert_cipher_def key_exchange_expected_def)
  moreover from this have "path12 s' r = path12 s r"
    using f(1) f(4) [OF False] by (cases "hand_state s") (simp_all add: path12_def)
  ultimately show ?thesis
    using f(1) f(4) [OF False] assms(3) by (simp add: run_inv12_def)
qed

lemma write_inv12:
  assumes "ossl_statem_client_write_transition calls s = (t, s')" "t \<noteq> WRITE_TRAN_ERROR" "run_inv Writing s r" "run_inv12 s r"
  shows "run_inv12 s' r"
proof (cases "SSL_CONNECTION_IS_TLS13 s")
  case True
  with assms(1) have "ossl_statem_client13_write_transition s = (t, s')"
    by (simp add: ossl_statem_client_write_transition_def)
  from write13_effect [OF this assms(2)] True show ?thesis
    by (metis IS_TLS13_hand_state run_inv12_def)
next
  case False
  with assms(1) have e: "client12_write_transition calls s = (t, s')"
    by (simp add: ossl_statem_client_write_transition_def)
  have i: "early_data_state s = SSL_EARLY_DATA_NONE"
      "hand_state s = TLS_ST_CR_SRVR_HELLO \<Longrightarrow> hello_retry_request s = SSL_HRR_PENDING"
      "hand_state s \<noteq> TLS_ST_EARLY_DATA"
    using assms(3) by (simp_all add: run_inv_def hello_path_def)
  have "hand_state s' = TLS_ST_CW_CLNT_HELLO \<or> hit s' = hit s \<and> cert_cipher s' = cert_cipher s \<and>
      hand_state s \<notin> {TLS_ST_BEFORE, TLS_ST_CW_CLNT_HELLO}"
    using e assms(2) i
    by (cases "hand_state s")
      (simp_all add: client12_write_transition_def go_on_def write_error_def cert_cipher_def split: if_splits, auto)
  then show ?thesis
    using write12_path12 [OF e assms(2)] i assms(4) False by (auto simp: run_inv12_def)
qed

lemma hello_reset_inv12: "run_inv12 s r \<Longrightarrow> run_inv12 (hello_reset s) (if hand_state s = TLS_ST_CW_CLNT_HELLO then [] else r)"
  by (simp add: run_inv12_def hello_reset_def)

lemma tls_run_inv12: "tls_run p s r \<Longrightarrow> run_inv12 s r"
proof (induction rule: tls_run.induct)
  case (start s)
  then show ?case by (simp add: run_inv12_def)
next
  case (read s r calls mt s')
  then show ?case using read_inv12 tls_run_inv by blast
next
  case (process s r)
  then show ?case by simp
next
  case (processed s r)
  then show ?case by simp
next
  case (send s r calls s')
  then show ?case
    using write_inv12 [OF send.hyps(2) _ tls_run_inv [OF send.hyps(1)] send.IH] by (simp add: hello_reset_inv12)
next
  case (sent s r calls s')
  then show ?case using write_inv12 [OF sent.hyps(2) _ tls_run_inv [OF sent.hyps(1)]] by simp
next
  case (work p s r s')
  then show ?case using work_inv12 tls_run_inv by blast
qed

subsection \<open>Authentication of the server\<close>

lemma run_authenticated13:
  assumes "tls_run p s r" "SSL_CONNECTION_IS_TLS13 s" "\<not> hit s" "hand_state s \<in> {TLS_ST_CW_FINISHED, TLS_ST_OK}"
  shows "server_auth13 r"
  using tls_run_inv [OF assms(1)] assms(2-) by (auto simp: run_inv_def path13_def negotiating_def)

lemma run_authenticated12:
  assumes "tls_run p s r" "\<not> SSL_CONNECTION_IS_TLS13 s" "\<not> hit s" "cert_cipher s" "hand_state s = TLS_ST_OK"
  shows "server_auth12 (key_exchange_expected s) r"
  using tls_run_inv12 [OF assms(1)] assms(2-) by (simp add: run_inv12_def path12_def)

end
