(* ===== verification/Tls_Connect.thy ===== *)
theory Tls_Connect
  imports Tls_Flow Tls_Runs
begin

text \<open>
  The message flow implements the runs of the handshake: what has been received when \<^verbatim>\<open>SSL_connect\<close> reports success.
\<close>

subsection \<open>The functions called\<close>

text \<open>
  What the functions called leave alone: besides what \<^const>\<open>work_frame\<close> states, the members of the state machine, except
  that a fatal error may be recorded.
\<close>

definition statem_frame :: "ssl_connection \<Rightarrow> ssl_connection \<Rightarrow> bool" where
  "statem_frame s s' \<longleftrightarrow> work_frame s s' \<and> read_state s' = read_state s \<and> write_state s' = write_state s \<and>
     (in_init s \<longrightarrow> in_init s') \<and> (flow_state s' = flow_state s \<or> flow_state s' = MSG_FLOW_ERROR)"

definition external_ok :: "('w, 'a) external \<Rightarrow> bool" where
  "external_ok f \<longleftrightarrow> (\<forall>s w. statem_frame s (fst (snd (f s w))))"

text \<open>
  The assumptions on the parameters of the message flow. The last one: a ServerHello is the last message to be read
  only if it was a HelloRetryRequest.
\<close>

definition flow_env_ok :: "'w flow_env \<Rightarrow> bool" where
  "flow_env_ok e \<longleftrightarrow>
     external_ok (reset_method e) \<and> external_ok (ssl_security_version e) \<and> external_ok (new_init_buf e) \<and>
     external_ok (ssl_init_wbio_buffer e) \<and> external_ok (setup_checks e) \<and> external_ok (tls_get_message_header e) \<and>
     external_ok (grow_init_buf e) \<and> external_ok (tls_get_message_body e) \<and> (\<forall>f. external_ok (tls_process e f)) \<and>
     (\<forall>t. external_ok (tls_post_process_server_certificate e t)) \<and> (\<forall>t. external_ok (tls_prepare_client_certificate e t)) \<and>
     external_ok (ssl_set_new_record_layer e) \<and> external_ok (ssl_free_wbio_buffer e) \<and> (\<forall>mt. external_ok (start_packet e mt)) \<and>
     (\<forall>c. external_ok (tls_construct e c)) \<and> (\<forall>mt. external_ok (finish_packet e mt)) \<and> external_ok (statem_do_write e) \<and>
     external_ok (statem_flush e) \<and> external_ok (tls_client_key_exchange_post_work e) \<and>
     external_ok (tls13_change_cipher_state e) \<and> external_ok (setup_key_block e) \<and> external_ok (change_cipher_state e) \<and>
     external_ok (tls13_save_handshake_digest_for_pha e) \<and> external_ok (tls13_update_key e) \<and>
     (\<forall>s w s' w'. tls_process e process_server_hello s w = (MSG_PROCESS_FINISHED_READING, s', w') \<longrightarrow>
        hello_retry_request s' = SSL_HRR_PENDING)"

lemma flow_env_okD:
  assumes "flow_env_ok e"
  shows "external_ok (reset_method e)" "external_ok (ssl_security_version e)" "external_ok (new_init_buf e)"
    "external_ok (ssl_init_wbio_buffer e)" "external_ok (setup_checks e)" "external_ok (tls_get_message_header e)"
    "external_ok (grow_init_buf e)" "external_ok (tls_get_message_body e)" "external_ok (tls_process e f)"
    "external_ok (tls_post_process_server_certificate e t)" "external_ok (tls_prepare_client_certificate e t)"
    "external_ok (ssl_set_new_record_layer e)" "external_ok (ssl_free_wbio_buffer e)" "external_ok (start_packet e mt)"
    "external_ok (tls_construct e c)" "external_ok (finish_packet e mt)" "external_ok (statem_do_write e)"
    "external_ok (statem_flush e)" "external_ok (tls_client_key_exchange_post_work e)"
    "external_ok (tls13_change_cipher_state e)" "external_ok (setup_key_block e)" "external_ok (change_cipher_state e)"
    "external_ok (tls13_save_handshake_digest_for_pha e)" "external_ok (tls13_update_key e)"
  using assms unfolding flow_env_ok_def by simp_all

lemma server_hello_retry:
  assumes "flow_env_ok e" "tls_process e process_server_hello s w = (MSG_PROCESS_FINISHED_READING, s', w')"
  shows "hello_retry_request s' = SSL_HRR_PENDING"
  using assms unfolding flow_env_ok_def by blast

subsection \<open>Frames\<close>

lemma work_frame_refl [simp]: "work_frame s s"
  by (simp add: work_frame_def)

lemma work_frame_trans: "work_frame s s' \<Longrightarrow> work_frame s' s'' \<Longrightarrow> work_frame s s''"
  by (auto simp: work_frame_def)

lemma statem_frame_refl [simp]: "statem_frame s s"
  by (simp add: statem_frame_def)

lemma statem_frame_trans: "statem_frame s s' \<Longrightarrow> statem_frame s' s'' \<Longrightarrow> statem_frame s s''"
  by (auto simp: statem_frame_def intro: work_frame_trans)

text \<open>A computation that leaves alone what the functions called do.\<close>

definition framed :: "('w, 'a) tls \<Rightarrow> bool" where
  "framed m \<longleftrightarrow> (\<forall>x a y. run_state m x = (a, y) \<longrightarrow> statem_frame (conn x) (conn y) \<and> received y = received x)"

named_theorems framed_rules

lemma framedD:
  assumes "framed m" "run_state m x = (a, y)"
  shows "statem_frame (conn x) (conn y)" "received y = received x"
  using assms by (auto simp: framed_def)

lemma framed_return [framed_rules]: "framed (State_Monad.return a)"
  by (simp add: framed_def State_Monad.return_def)

lemma framed_look [framed_rules]: "framed (look f)"
  by (simp add: framed_def look_def)

lemma framed_bind [framed_rules]: "framed m \<Longrightarrow> (\<And>a. framed (f a)) \<Longrightarrow> framed (State_Monad.bind m f)"
  unfolding framed_def State_Monad.bind_def
  by (auto split: prod.splits intro: statem_frame_trans) (metis statem_frame_trans)+

lemma framed_call [framed_rules]: "external_ok f \<Longrightarrow> framed (call f)"
  by (auto simp: framed_def call_def external_ok_def split: prod.splits) (metis fst_conv snd_conv)

lemma framed_change: "(\<And>s. statem_frame s (f s)) \<Longrightarrow> framed (change f)"
  by (auto simp: framed_def change_def)

lemma framed_if [framed_rules]: "(b \<Longrightarrow> framed m) \<Longrightarrow> (\<not> b \<Longrightarrow> framed m') \<Longrightarrow> framed (if b then m else m')"
  by simp

lemmas frame_defs = statem_frame_def work_frame_def shut_down_def

lemma SSLfatal_frame: "statem_frame s (SSLfatal s)"
  by (simp add: frame_defs SSLfatal_def)

lemma SSLfatal_flow [simp]: "flow_state (SSLfatal s) = MSG_FLOW_ERROR"
  by (simp add: SSLfatal_def)

lemma framed_SSLfatal [framed_rules]: "framed (change SSLfatal)"
  by (rule framed_change) (rule SSLfatal_frame)

lemma framed_members [framed_rules]:
  "framed (change (\<lambda>s. s\<lparr>init_num := v\<rparr>))"
  "framed (change (\<lambda>s. s\<lparr>first_packet := b\<rparr>))"
  "framed (change (\<lambda>s. s\<lparr>read_state_work := t\<rparr>))"
  "framed (change (\<lambda>s. s\<lparr>write_state_work := t\<rparr>))"
  by (rule framed_change, simp add: frame_defs)+

lemma framed_continue_if [framed_rules]: "framed (continue_if ok)"
  unfolding continue_if_def by (rule framed_return)

lemma framed_post_process:
  assumes "flow_env_ok e"
  shows "framed (ossl_statem_client_post_process_message e wst)"
  unfolding ossl_statem_client_post_process_message_def
  by (intro framed_rules) (auto split: handshake_state.split intro!: framed_rules flow_env_okD [OF assms])

lemma framed_process:
  assumes "flow_env_ok e"
  shows "framed (ossl_statem_client_process_message e)"
  unfolding ossl_statem_client_process_message_def
  by (intro framed_rules) (auto split: option.split intro!: framed_rules flow_env_okD [OF assms])

lemma framed_post_work:
  assumes "flow_env_ok e"
  shows "framed (ossl_statem_client_post_work e)"
proof -
  have "framed (post_work_change e s)" for s
    unfolding post_work_change_def by (intro framed_rules flow_env_okD [OF assms])
  moreover have "framed (post_work_finished e)"
    unfolding post_work_finished_def by (intro framed_rules flow_env_okD [OF assms])
  ultimately show ?thesis
    unfolding ossl_statem_client_post_work_def
    by (intro framed_rules) (auto split: handshake_state.split intro!: framed_rules flow_env_okD [OF assms])
qed

subsection \<open>Assertions\<close>

definition valid :: "('s \<Rightarrow> bool) \<Rightarrow> ('s, 'a) state \<Rightarrow> ('a \<Rightarrow> 's \<Rightarrow> bool) \<Rightarrow> bool" where
  "valid P m Q \<longleftrightarrow> (\<forall>x a y. P x \<longrightarrow> run_state m x = (a, y) \<longrightarrow> Q a y)"

lemma validD: "valid P m Q \<Longrightarrow> P x \<Longrightarrow> run_state m x = (a, y) \<Longrightarrow> Q a y"
  by (simp add: valid_def)

lemma valid_bind:
  assumes "valid P m R" "\<And>a. valid (R a) (f a) Q"
  shows "valid P (State_Monad.bind m f) Q"
  using assms unfolding valid_def State_Monad.bind_def by (auto split: prod.splits)

lemma valid_return: "(\<And>x. P x \<Longrightarrow> Q a x) \<Longrightarrow> valid P (State_Monad.return a) Q"
  by (simp add: valid_def State_Monad.return_def)

lemma valid_look: "(\<And>x. P x \<Longrightarrow> Q (f (conn x)) x) \<Longrightarrow> valid P (look f) Q"
  by (simp add: valid_def look_def)

lemma valid_look_bind: "(\<And>a. valid P (f a) Q) \<Longrightarrow> valid P (State_Monad.bind (look g) f) Q"
  by (simp add: valid_def State_Monad.bind_def look_def)

lemma valid_change: "(\<And>x. P x \<Longrightarrow> Q () (x\<lparr>conn := f (conn x)\<rparr>)) \<Longrightarrow> valid P (change f) Q"
  by (simp add: valid_def change_def)

lemma valid_framed:
  assumes "framed m" "\<And>x y a. P x \<Longrightarrow> statem_frame (conn x) (conn y) \<Longrightarrow> received y = received x \<Longrightarrow> Q a y"
  shows "valid P m Q"
  using assms unfolding valid_def framed_def by blast

lemma valid_if: "(b \<Longrightarrow> valid P m Q) \<Longrightarrow> (\<not> b \<Longrightarrow> valid P m' Q) \<Longrightarrow> valid P (if b then m else m') Q"
  by simp

lemma valid_pre: "valid P' m Q \<Longrightarrow> (\<And>x. P x \<Longrightarrow> P' x) \<Longrightarrow> valid P m Q"
  unfolding valid_def by blast

lemma valid_fatal:
  assumes "\<And>x. flow_state (conn x) = MSG_FLOW_ERROR \<Longrightarrow> Q (Some SUB_STATE_ERROR) x"
  shows "valid P (do { check_fatal; finish SUB_STATE_ERROR }) Q" "valid P fail_fatal Q"
  unfolding check_fatal_def fail_fatal_def finish_def
  by (rule valid_bind [where R = "\<lambda>_ x. flow_state (conn x) = MSG_FLOW_ERROR"],
      simp add: valid_def change_def, rule valid_return, simp add: assms)+

lemma valid_change_again:
  assumes "\<And>x. P x \<Longrightarrow> Q None (x\<lparr>conn := f (conn x)\<rparr>)"
  shows "valid P (do { change f; again }) Q"
  unfolding again_def
  by (rule valid_bind [where R = "\<lambda>_. Q None"]) (auto intro: valid_change valid_return assms)

subsection \<open>Reading\<close>

definition read_ok :: "tls_phase \<Rightarrow> read_state \<Rightarrow> 'w tls_state \<Rightarrow> bool" where
  "read_ok p st x \<longleftrightarrow> tls_run p (conn x) (received x) \<and> in_init (conn x) \<and> read_state (conn x) = st \<and>
     flow_state (conn x) \<in> {MSG_FLOW_READING, MSG_FLOW_ERROR}"

definition read_live :: "'w tls_state \<Rightarrow> bool" where
  "read_live x \<longleftrightarrow> read_ok Reading READ_STATE_HEADER x \<or> read_ok Processing READ_STATE_BODY x \<or>
     read_ok Processing READ_STATE_POST_PROCESS x"

definition read_result :: "sub_state_return option \<Rightarrow> 'w tls_state \<Rightarrow> bool" where
  "read_result ret x = (case ret of
      None \<Rightarrow> read_live x
    | Some SUB_STATE_FINISHED \<Rightarrow> tls_run Writing (conn x) (received x) \<and> in_init (conn x)
    | Some SUB_STATE_ERROR \<Rightarrow> flow_state (conn x) = MSG_FLOW_ERROR \<or> read_live x
    | Some SUB_STATE_END_HANDSHAKE \<Rightarrow> False)"

lemma read_ok_frame:
  assumes "read_ok p st x" "statem_frame (conn x) (conn y)" "received y = received x" "p \<noteq> Writing"
  shows "read_ok p st y"
  using assms tls_run.work [of p "conn x" "received x" "conn y"] by (auto simp: read_ok_def statem_frame_def)

lemma read_ok_framed: "framed m \<Longrightarrow> p \<noteq> Writing \<Longrightarrow> valid (read_ok p st) m (\<lambda>_. read_ok p st)"
  by (rule valid_framed) (auto intro: read_ok_frame)

lemma read_ok_state:
  assumes "read_ok p st x" "p \<noteq> Writing" "work_frame (conn x) s" "in_init s" "read_state s = st'"
    "flow_state s = flow_state (conn x)"
  shows "read_ok p st' (x\<lparr>conn := s\<rparr>)"
  using assms tls_run.work [of p "conn x" "received x" s] by (auto simp: read_ok_def)

lemma read_ok_process: "read_ok Processing st x \<Longrightarrow> read_ok Reading st x"
  by (auto simp: read_ok_def intro: tls_run.process)

lemma read_error: "read_ok p st x \<Longrightarrow> (p, st) \<in> {(Reading, READ_STATE_HEADER), (Processing, READ_STATE_BODY),
    (Processing, READ_STATE_POST_PROCESS)} \<Longrightarrow> read_result (Some SUB_STATE_ERROR) x"
  by (auto simp: read_result_def read_live_def)

lemma valid_read_fatal:
  "valid P (do { check_fatal; finish SUB_STATE_ERROR }) read_result" "valid P fail_fatal read_result"
  by (rule valid_fatal, simp add: read_result_def)+

lemma process_finished_reading:
  assumes "flow_env_ok e" "run_state (ossl_statem_client_process_message e) x = (MSG_PROCESS_FINISHED_READING, y)"
    "hand_state (conn x) = TLS_ST_CR_SRVR_HELLO"
  shows "hello_retry_request (conn y) = SSL_HRR_PENDING"
  using assms(2,3) server_hello_retry [OF assms(1)]
  by (auto simp: ossl_statem_client_process_message_def State_Monad.bind_def look_def call_def client_process_fun_def
    split: prod.splits)

text \<open>The result of processing a message: if it was the last of the server's flight the client may write.\<close>

definition processed_ok :: "msg_process_return \<Rightarrow> 'w tls_state \<Rightarrow> bool" where
  "processed_ok ret x \<longleftrightarrow> read_ok Processing READ_STATE_BODY x \<and>
     (ret = MSG_PROCESS_FINISHED_READING \<and> hand_state (conn x) = TLS_ST_CR_SRVR_HELLO \<longrightarrow>
        hello_retry_request (conn x) = SSL_HRR_PENDING)"

lemma process_valid:
  assumes "flow_env_ok e"
  shows "valid (read_ok Processing READ_STATE_BODY) (ossl_statem_client_process_message e) processed_ok"
  unfolding valid_def
proof (intro allI impI)
  fix x :: "'a tls_state" and a y
  assume x: "read_ok Processing READ_STATE_BODY x" and r: "run_state (ossl_statem_client_process_message e) x = (a, y)"
  note k = framedD [OF framed_process [OF assms] r]
  have "hand_state (conn y) = hand_state (conn x)"
    using k(1) by (simp add: frame_defs)
  with process_finished_reading [OF assms, of x y] read_ok_frame [OF x k] r show "processed_ok a y"
    by (auto simp: processed_ok_def)
qed

lemma read_ok_init_num:
  assumes "read_ok p st x" "p \<noteq> Writing"
  shows "read_ok p st (x\<lparr>conn := (conn x)\<lparr>init_num := 0\<rparr>\<rparr>)"
  using assms by (intro read_ok_state [OF assms]) (auto simp: work_frame_def shut_down_def read_ok_def)

lemma change_processed:
  "valid (processed_ok ret) (change (\<lambda>s. s\<lparr>init_num := 0\<rparr>)) (\<lambda>_. processed_ok ret)"
  by (rule valid_change) (auto simp: processed_ok_def dest: read_ok_init_num)

lemma processed_valid:
  "valid (processed_ok ret)
    (case ret of
       MSG_PROCESS_ERROR \<Rightarrow> do { check_fatal; finish SUB_STATE_ERROR }
     | MSG_PROCESS_FINISHED_READING \<Rightarrow> finish SUB_STATE_FINISHED
     | MSG_PROCESS_CONTINUE_PROCESSING \<Rightarrow> do {
         change (\<lambda>s. s\<lparr>read_state := READ_STATE_POST_PROCESS, read_state_work := WORK_MORE_A\<rparr>);
         again }
     | MSG_PROCESS_CONTINUE_READING \<Rightarrow> do { change (\<lambda>s. s\<lparr>read_state := READ_STATE_HEADER\<rparr>); again })
    read_result"
proof (cases ret)
  case MSG_PROCESS_ERROR
  then show ?thesis using valid_read_fatal by simp
next
  case MSG_PROCESS_FINISHED_READING
  then show ?thesis
    by (auto simp: finish_def read_result_def processed_ok_def read_ok_def intro!: valid_return tls_run.processed)
next
  case MSG_PROCESS_CONTINUE_PROCESSING
  have "read_ok Processing READ_STATE_POST_PROCESS
      (x\<lparr>conn := (conn x)\<lparr>read_state := READ_STATE_POST_PROCESS, read_state_work := WORK_MORE_A\<rparr>\<rparr>)"
    if "processed_ok ret x" for x :: "'a tls_state"
    using that by (intro read_ok_state [where st = READ_STATE_BODY])
      (auto simp: processed_ok_def read_ok_def work_frame_def shut_down_def)
  with MSG_PROCESS_CONTINUE_PROCESSING show ?thesis
    by (auto simp: read_result_def read_live_def intro!: valid_change_again)
next
  case MSG_PROCESS_CONTINUE_READING
  have "read_ok Reading READ_STATE_HEADER (x\<lparr>conn := (conn x)\<lparr>read_state := READ_STATE_HEADER\<rparr>\<rparr>)"
    if "processed_ok ret x" for x :: "'a tls_state"
    using that by (intro read_ok_process read_ok_state [where st = READ_STATE_BODY])
      (auto simp: processed_ok_def read_ok_def work_frame_def shut_down_def)
  with MSG_PROCESS_CONTINUE_READING show ?thesis
    by (auto simp: read_result_def read_live_def intro!: valid_change_again)
qed

lemma read_body_valid:
  assumes "flow_env_ok e"
  shows "valid (read_ok Processing READ_STATE_BODY) (read_body e) read_result"
  unfolding read_body_def
  apply (rule valid_bind, rule read_ok_framed [OF framed_call], rule flow_env_okD [OF assms], simp)
  apply (rule valid_if)
   apply (simp add: finish_def, rule valid_return, simp add: read_error)
  apply (rule valid_bind, rule read_ok_framed [OF framed_members(2)], simp)
  apply (rule valid_bind, rule process_valid [OF assms])
  apply (rule valid_bind, rule change_processed)
  apply (rule processed_valid)
  done

lemma read13_members:
  assumes "ossl_statem_client13_read_transition calls s mt = (ok, s')"
  shows "is_dtls s' = is_dtls s \<and> (ok \<longrightarrow> in_init s' = in_init s \<and> read_state s' = read_state s \<and> flow_state s' = flow_state s)"
  using assms
  by (cases "hand_state s") (auto simp: ossl_statem_client13_read_transition_def taken_to_def no_transition_def
    SSLfatal_def Let_def split: if_splits)

lemma read12_members:
  assumes "client12_read_transition s mt = (ok, s')"
  shows "is_dtls s' = is_dtls s \<and> in_init s' = in_init s \<and> read_state s' = read_state s \<and> flow_state s' = flow_state s"
  using assms
  by (cases "hand_state s") (auto simp: read12_defs taken_to_def no_transition_def split: if_splits)

lemma read_members:
  assumes "ossl_statem_client_read_transition calls s mt = (ok, s')" "\<not> is_dtls s"
  shows "ok \<Longrightarrow> in_init s' = in_init s \<and> read_state s' = read_state s \<and> flow_state s' = flow_state s"
    "\<not> ok \<Longrightarrow> flow_state s' = MSG_FLOW_ERROR"
proof -
  obtain ok' s1 where t: "(if SSL_CONNECTION_IS_TLS13 s then ossl_statem_client13_read_transition calls s mt
      else client12_read_transition s mt) = (ok', s1)" by fastforce
  then have "is_dtls s1 = is_dtls s"
    "ok' \<Longrightarrow> in_init s1 = in_init s \<and> read_state s1 = read_state s \<and> flow_state s1 = flow_state s"
    using read13_members read12_members by (auto split: if_splits)
  with assms t show "ok \<Longrightarrow> in_init s' = in_init s \<and> read_state s' = read_state s \<and> flow_state s' = flow_state s"
    "\<not> ok \<Longrightarrow> flow_state s' = MSG_FLOW_ERROR"
    by (auto simp: ossl_statem_client_read_transition_def split: if_splits)
qed

lemma read_transition_valid:
  "valid (read_ok Reading READ_STATE_HEADER) (read_transition e mt)
     (\<lambda>ok x. if ok then read_ok Processing READ_STATE_HEADER x else flow_state (conn x) = MSG_FLOW_ERROR)"
  unfolding valid_def
proof (intro allI impI)
  fix x :: "'a tls_state" and ok y
  assume x: "read_ok Reading READ_STATE_HEADER x" and r: "run_state (read_transition e mt) x = (ok, y)"
  let ?t = "ossl_statem_client_read_transition (transition_calls e (net x)) (conn x) mt"
  from x have run: "tls_run Reading (conn x) (received x)" by (simp add: read_ok_def)
  then have nd: "\<not> is_dtls (conn x)" using tls_run_inv by (auto simp: run_inv_def)
  obtain s where t: "?t = (ok, s)" "y = x\<lparr>conn := s, received := (if ok then received x @ [mt] else received x)\<rparr>"
    using r by (auto simp: read_transition_def split: prod.splits)
  show "if ok then read_ok Processing READ_STATE_HEADER y else flow_state (conn y) = MSG_FLOW_ERROR"
  proof (cases ok)
    case True
    with t run have "tls_run Processing s (received x @ [mt])" by (auto intro: tls_run.read)
    moreover have "in_init s = in_init (conn x) \<and> read_state s = read_state (conn x) \<and> flow_state s = flow_state (conn x)"
      using read_members(1) [OF t(1) nd] True by blast
    ultimately show ?thesis using x t(2) True by (simp add: read_ok_def)
  next
    case False
    with t(1) nd have "flow_state s = MSG_FLOW_ERROR"
      by (auto dest: read_members(2))
    with False t(2) show ?thesis by simp
  qed
qed

lemma read_message_header_valid:
  assumes "flow_env_ok e"
  shows "valid (read_ok Reading READ_STATE_HEADER) (read_message_header e) read_result"
proof -
  have grow: "valid (read_ok Processing READ_STATE_HEADER)
      (if message_size s > 0 then call (grow_init_buf e) else State_Monad.return True)
      (\<lambda>_. read_ok Processing READ_STATE_HEADER)" for s
    by (rule read_ok_framed) (intro framed_rules flow_env_okD [OF assms], simp)
  have body: "valid (read_ok Processing READ_STATE_HEADER)
      (do { change (\<lambda>s. s\<lparr>read_state := READ_STATE_BODY\<rparr>); read_body e }) read_result"
    by (rule valid_bind [OF valid_change read_body_valid [OF assms]],
        rule read_ok_state [where st = READ_STATE_HEADER and p = Processing])
      (auto simp: read_ok_def work_frame_def shut_down_def)
  have accepted: "valid (read_ok Processing READ_STATE_HEADER)
      (do { s \<leftarrow> look id;
            if message_size s > ossl_statem_client_max_message_size s then fail_fatal
            else do {
              ok \<leftarrow> (if message_size s > 0 then call (grow_init_buf e) else State_Monad.return True);
              if \<not> ok then fail_fatal
              else do { change (\<lambda>s. s\<lparr>read_state := READ_STATE_BODY\<rparr>); read_body e } } }) read_result"
    by (rule valid_look_bind)
      (intro valid_if valid_read_fatal valid_bind [OF grow] body)
  show ?thesis
    unfolding read_message_header_def
    apply (rule valid_bind, rule read_ok_framed [OF framed_call], rule flow_env_okD [OF assms], simp)
    subgoal for hdr
      apply (cases hdr; simp)
       apply (simp add: finish_def, rule valid_return, simp add: read_error)
      apply (rule valid_bind [OF read_transition_valid])
      apply (rule valid_if)
       apply (simp add: finish_def read_result_def, rule valid_return, simp add: read_result_def)
      using accepted by simp
    done
qed

definition post_processed_ok :: "work_state \<Rightarrow> 'w tls_state \<Rightarrow> bool" where
  "post_processed_ok wst x \<longleftrightarrow> read_ok Processing READ_STATE_POST_PROCESS x \<and>
     (wst \<noteq> WORK_ERROR \<longrightarrow> hand_state (conn x) \<noteq> TLS_ST_CR_SRVR_HELLO)"

lemma post_process_valid:
  assumes "flow_env_ok e"
  shows "valid (read_ok Processing READ_STATE_POST_PROCESS) (ossl_statem_client_post_process_message e wst) post_processed_ok"
  unfolding valid_def
proof (intro allI impI)
  fix x :: "'a tls_state" and a y
  assume x: "read_ok Processing READ_STATE_POST_PROCESS x"
    and r: "run_state (ossl_statem_client_post_process_message e wst) x = (a, y)"
  note k = framedD [OF framed_post_process [OF assms] r]
  have "a = WORK_ERROR" if "hand_state (conn x) = TLS_ST_CR_SRVR_HELLO"
    using r that
    by (simp add: ossl_statem_client_post_process_message_def State_Monad.bind_def look_def change_def
      State_Monad.return_def)
  moreover have "hand_state (conn y) = hand_state (conn x)" using k(1) by (simp add: frame_defs)
  ultimately show "post_processed_ok a y"
    using read_ok_frame [OF x k] by (auto simp: post_processed_ok_def)
qed

lemma read_ok_post_process:
  assumes "read_ok Processing READ_STATE_POST_PROCESS x"
  shows "read_ok Processing READ_STATE_POST_PROCESS (x\<lparr>conn := (conn x)\<lparr>read_state_work := t\<rparr>\<rparr>)"
    "read_ok Reading READ_STATE_HEADER (x\<lparr>conn := (conn x)\<lparr>read_state := READ_STATE_HEADER\<rparr>\<rparr>)"
proof -
  have i: "in_init (conn x)" using assms by (simp add: read_ok_def)
  show "read_ok Processing READ_STATE_POST_PROCESS (x\<lparr>conn := (conn x)\<lparr>read_state_work := t\<rparr>\<rparr>)"
    using i by (intro read_ok_frame [OF assms]) (simp_all add: frame_defs)
  show "read_ok Reading READ_STATE_HEADER (x\<lparr>conn := (conn x)\<lparr>read_state := READ_STATE_HEADER\<rparr>\<rparr>)"
    using i by (intro read_ok_process read_ok_state [OF assms]) (simp_all add: work_frame_def shut_down_def)
qed

lemma post_processed_valid:
  "valid (post_processed_ok wst)
     (case wst of
        WORK_ERROR \<Rightarrow> do { check_fatal; finish SUB_STATE_ERROR }
      | WORK_FINISHED_CONTINUE \<Rightarrow> do { change (\<lambda>s. s\<lparr>read_state := READ_STATE_HEADER\<rparr>); again }
      | WORK_FINISHED_STOP \<Rightarrow> finish SUB_STATE_FINISHED
      | _ \<Rightarrow> finish SUB_STATE_ERROR) read_result"
proof -
  have e: "valid (post_processed_ok wst) (finish SUB_STATE_ERROR) read_result"
    unfolding finish_def by (rule valid_return) (auto simp: post_processed_ok_def intro: read_error)
  have c: "valid (post_processed_ok wst) (do { change (\<lambda>s. s\<lparr>read_state := READ_STATE_HEADER\<rparr>); again }) read_result"
    by (rule valid_change_again) (simp add: post_processed_ok_def read_result_def read_live_def read_ok_post_process)
  have f: "valid (post_processed_ok wst) (finish SUB_STATE_FINISHED) read_result" if "wst = WORK_FINISHED_STOP"
    unfolding finish_def using that
    by (intro valid_return) (auto simp: post_processed_ok_def read_result_def read_ok_def intro: tls_run.processed)
  from e c f valid_read_fatal(1) show ?thesis by (cases wst) simp_all
qed

lemma read_post_process_valid:
  assumes "flow_env_ok e"
  shows "valid (read_ok Processing READ_STATE_POST_PROCESS) (read_post_process e) read_result"
proof -
  show ?thesis
    unfolding read_post_process_def
    apply (rule valid_look_bind)
    apply (rule valid_bind [OF post_process_valid [OF assms]])
    subgoal for _ wst
      by (rule valid_bind [OF valid_change post_processed_valid]) (simp add: post_processed_ok_def read_ok_post_process)
    done
qed

lemma read_step_valid:
  assumes "flow_env_ok e"
  shows "valid read_live (read_step e) read_result"
  unfolding valid_def
proof (intro allI impI)
  fix x :: "'a tls_state" and a y
  assume x: "read_live x" and "run_state (read_step e) x = (a, y)"
  then have r: "run_state (case read_state (conn x) of
       READ_STATE_HEADER \<Rightarrow> read_message_header e
     | READ_STATE_BODY \<Rightarrow> read_body e
     | READ_STATE_POST_PROCESS \<Rightarrow> read_post_process e) x = (a, y)"
    by (simp add: read_step_def State_Monad.bind_def look_def)
  from x consider "read_ok Reading READ_STATE_HEADER x" | "read_ok Processing READ_STATE_BODY x"
    | "read_ok Processing READ_STATE_POST_PROCESS x" by (auto simp: read_live_def)
  then show "read_result a y"
  proof cases
    case 1
    with r validD [OF read_message_header_valid [OF assms] 1] show ?thesis by (simp add: read_ok_def)
  next
    case 2
    with r validD [OF read_body_valid [OF assms] 2] show ?thesis by (simp add: read_ok_def)
  next
    case 3
    with r validD [OF read_post_process_valid [OF assms] 3] show ?thesis by (simp add: read_ok_def)
  qed
qed

lemma sub_state_loop_valid:
  assumes "sub_state_loop step n x = Some (ret, y)" "P x" "\<And>x a y. P x \<Longrightarrow> run_state step x = (a, y) \<Longrightarrow> Q a y" "\<And>x. Q None x \<Longrightarrow> P x"
  shows "Q (Some ret) y"
  using assms(1,2)
proof (induction n arbitrary: x)
  case (Suc n)
  obtain a z where r: "run_state step x = (a, z)" by fastforce
  with assms(3) Suc.prems(2) have "Q a z" by blast
  with r Suc assms(4) show ?case by (cases a) auto
qed simp

lemma read_state_machine_valid:
  assumes "flow_env_ok e" "read_live x" "read_state_machine e n x = Some (ret, y)"
  shows "read_result (Some ret) y"
proof -
  let ?x = "if read_state_first_init (conn x)
    then x\<lparr>conn := (conn x)\<lparr>first_packet := True, read_state_first_init := False\<rparr>\<rparr> else x"
  have "read_ok p st (x\<lparr>conn := (conn x)\<lparr>first_packet := True, read_state_first_init := False\<rparr>\<rparr>)"
    if "read_ok p st x" "p \<noteq> Writing" for p st
    using that by (intro read_ok_state [OF that]) (auto simp: read_ok_def work_frame_def shut_down_def)
  with assms(2) have "read_live ?x" by (auto simp: read_live_def)
  with assms(3) show ?thesis
    unfolding read_state_machine_def
    by (rule sub_state_loop_valid) (auto dest: validD [OF read_step_valid [OF assms(1)]] simp: read_result_def)
qed

subsection \<open>Writing\<close>

text \<open>
  Between a transition and the work before its message a ClientHello has not yet reset the shutdown state of the
  connection.
\<close>

definition write_ok :: "write_state \<Rightarrow> 'w tls_state \<Rightarrow> bool" where
  "write_ok st x \<longleftrightarrow>
     tls_run Writing (if st = WRITE_STATE_PRE_WORK then hello_reset (conn x) else conn x) (received x) \<and> in_init (conn x) \<and>
     write_state (conn x) = st \<and> flow_state (conn x) \<in> {MSG_FLOW_WRITING, MSG_FLOW_ERROR} \<and>
     (st \<noteq> WRITE_STATE_TRANSITION \<longrightarrow> hand_state (conn x) \<noteq> TLS_ST_CR_SRVR_HELLO)"

definition write_live :: "'w tls_state \<Rightarrow> bool" where
  "write_live x \<longleftrightarrow> (\<exists>st. write_ok st x)"

definition write_result :: "sub_state_return option \<Rightarrow> 'w tls_state \<Rightarrow> bool" where
  "write_result ret x = (case ret of
      None \<Rightarrow> write_live x
    | Some SUB_STATE_FINISHED \<Rightarrow> tls_run Reading (conn x) (received x) \<and> in_init (conn x)
    | Some SUB_STATE_END_HANDSHAKE \<Rightarrow> tls_run Writing (conn x) (received x) \<and> hand_state (conn x) = TLS_ST_OK
    | Some SUB_STATE_ERROR \<Rightarrow> flow_state (conn x) = MSG_FLOW_ERROR \<or> write_live x)"

lemma valid_write_fatal:
  "valid P (do { check_fatal; finish SUB_STATE_ERROR }) write_result" "valid P fail_fatal write_result"
  by (rule valid_fatal, simp add: write_result_def)+

lemma write_error_live: "write_ok st x \<Longrightarrow> write_result (Some SUB_STATE_ERROR) x"
  by (auto simp: write_result_def write_live_def)

lemma write_ok_state:
  assumes "write_ok st x" "st \<notin> {WRITE_STATE_TRANSITION, WRITE_STATE_PRE_WORK}" "st' \<noteq> WRITE_STATE_PRE_WORK" "work_frame (conn x) s"
    "in_init s" "write_state s = st'" "flow_state s = flow_state (conn x) \<or> flow_state s = MSG_FLOW_ERROR"
  shows "write_ok st' (x\<lparr>conn := s\<rparr>)"
  using assms tls_run.work [of Writing "conn x" "received x" s] by (auto simp: write_ok_def work_frame_def)

lemma write_ok_framed:
  assumes "framed m" "st \<notin> {WRITE_STATE_TRANSITION, WRITE_STATE_PRE_WORK}"
  shows "valid (write_ok st) m (\<lambda>_. write_ok st)"
proof (rule valid_framed [OF assms(1)])
  fix x y :: "'a tls_state"
  assume a: "write_ok st x" "statem_frame (conn x) (conn y)" "received y = received x"
  then have "write_ok st (x\<lparr>conn := conn y\<rparr>)"
    using assms(2) by (intro write_ok_state [OF a(1)]) (auto simp: statem_frame_def write_ok_def)
  with a(3) show "write_ok st y" by (simp add: write_ok_def split: if_splits)
qed

definition never_stops :: "('s, work_state) state \<Rightarrow> bool" where
  "never_stops m \<longleftrightarrow> (\<forall>x. fst (run_state m x) \<noteq> WORK_FINISHED_STOP)"

lemma never_stops_rules:
  "(\<And>a. never_stops (f a)) \<Longrightarrow> never_stops (State_Monad.bind m f)"
  "t \<noteq> WORK_FINISHED_STOP \<Longrightarrow> never_stops (State_Monad.return t)"
  "never_stops (continue_if ok)"
  "(b \<Longrightarrow> never_stops m1) \<Longrightarrow> (\<not> b \<Longrightarrow> never_stops m2) \<Longrightarrow> never_stops (if b then m1 else m2)"
  unfolding never_stops_def
  by (auto simp: State_Monad.bind_def State_Monad.return_def continue_if_def split: prod.splits)

lemma post_work_never_stops: "never_stops (ossl_statem_client_post_work e)"
proof -
  have "never_stops (post_work_change e s)" for s
    unfolding post_work_change_def by (intro never_stops_rules)
  moreover have "never_stops (post_work_finished e)"
    unfolding post_work_finished_def by (intro never_stops_rules) simp
  ultimately show ?thesis
    unfolding ossl_statem_client_post_work_def
    by (intro never_stops_rules) (auto split: handshake_state.split intro!: never_stops_rules)
qed

lemma write_ok_move:
  assumes "write_ok st x" "st \<notin> {WRITE_STATE_TRANSITION, WRITE_STATE_PRE_WORK}" "st' \<noteq> WRITE_STATE_PRE_WORK"
  shows "write_ok st' (x\<lparr>conn := (conn x)\<lparr>write_state := st'\<rparr>\<rparr>)"
    "write_ok st' (x\<lparr>conn := (conn x)\<lparr>write_state := st', write_state_work := t\<rparr>\<rparr>)"
  using assms
  by (intro write_ok_state [OF assms]; simp add: write_ok_def work_frame_def shut_down_def)+

lemma write_post_work_valid:
  assumes "flow_env_ok e"
  shows "valid (write_ok WRITE_STATE_POST_WORK) (write_post_work e) write_result"
proof -
  let ?P = "write_ok WRITE_STATE_POST_WORK :: 'a tls_state \<Rightarrow> bool"
  have work: "valid ?P (ossl_statem_client_post_work e) (\<lambda>wst x. ?P x \<and> wst \<noteq> WORK_FINISHED_STOP)"
    using write_ok_framed [OF framed_post_work [OF assms], of WRITE_STATE_POST_WORK] post_work_never_stops [of e]
    by (auto simp: valid_def never_stops_def) (metis fst_conv)
  have err: "valid ?P (finish SUB_STATE_ERROR) write_result"
    unfolding finish_def by (rule valid_return) (rule write_error_live)
  have cont: "valid ?P (do { change (\<lambda>s. s\<lparr>write_state := WRITE_STATE_TRANSITION\<rparr>); again }) write_result"
    by (rule valid_change_again) (auto simp: write_result_def write_live_def dest: write_ok_move(1))
  have keep: "valid (\<lambda>x. ?P x \<and> wst \<noteq> WORK_FINISHED_STOP) (change (\<lambda>s. s\<lparr>write_state_work := wst\<rparr>))
      (\<lambda>_ x. ?P x \<and> wst \<noteq> WORK_FINISHED_STOP)" for wst
    by (rule valid_change, intro conjI write_ok_state [where st = WRITE_STATE_POST_WORK])
      (auto simp: write_ok_def work_frame_def shut_down_def)
  have "valid (\<lambda>x. ?P x \<and> wst \<noteq> WORK_FINISHED_STOP)
      (case wst of
         WORK_ERROR \<Rightarrow> do { check_fatal; finish SUB_STATE_ERROR }
       | WORK_FINISHED_CONTINUE \<Rightarrow> do { change (\<lambda>s. s\<lparr>write_state := WRITE_STATE_TRANSITION\<rparr>); again }
       | WORK_FINISHED_STOP \<Rightarrow> finish SUB_STATE_END_HANDSHAKE
       | _ \<Rightarrow> finish SUB_STATE_ERROR) write_result" for wst
    using valid_pre [OF err] valid_pre [OF cont] valid_write_fatal(1)
    by (cases wst) (simp_all add: valid_def)
  then show ?thesis
    unfolding write_post_work_def by (intro valid_bind [OF work] valid_bind [OF keep])
qed

lemma write_send_valid:
  assumes "flow_env_ok e"
  shows "valid (write_ok WRITE_STATE_SEND) (write_send e) write_result"
proof -
  have "valid (write_ok WRITE_STATE_SEND) to_post_work (\<lambda>_. write_ok WRITE_STATE_POST_WORK)"
    unfolding to_post_work_def by (rule valid_change, rule write_ok_move(2) [where st = WRITE_STATE_SEND]) simp_all
  from valid_bind [OF this write_post_work_valid [OF assms]]
  have "valid (write_ok WRITE_STATE_SEND) (do { to_post_work; write_post_work e }) write_result" .
  then show ?thesis
    unfolding write_send_def finish_def
    by (intro valid_bind [OF write_ok_framed [OF framed_call]] flow_env_okD [OF assms] valid_if valid_return write_error_live)
      simp_all
qed

lemma write_message_valid:
  assumes "flow_env_ok e"
  shows "valid (write_ok WRITE_STATE_SEND) (write_message e) write_result"
proof -
  let ?P = "write_ok WRITE_STATE_SEND :: 'a tls_state \<Rightarrow> bool"
  have post: "valid ?P (do { to_post_work; again }) write_result"
    unfolding to_post_work_def
    by (rule valid_change_again) (auto simp: write_result_def write_live_def dest: write_ok_move(2))
  have construct: "valid ?P (case f of None \<Rightarrow> State_Monad.return CON_FUNC_SUCCESS | Some c \<Rightarrow> call (tls_construct e c)) (\<lambda>_. ?P)" for f
    by (rule write_ok_framed) (auto split: option.split intro!: framed_rules flow_env_okD [OF assms])
  have start: "valid ?P (call (start_packet e mt)) (\<lambda>_. ?P)" "valid ?P (call (finish_packet e mt)) (\<lambda>_. ?P)" for mt
    by (rule write_ok_framed; auto intro!: framed_rules flow_env_okD [OF assms])+
  have sent: "valid ?P
      (case ret of
         CON_FUNC_ERROR \<Rightarrow> do { check_fatal; finish SUB_STATE_ERROR }
       | CON_FUNC_DONT_SEND \<Rightarrow> do { to_post_work; again }
       | CON_FUNC_SUCCESS \<Rightarrow> do {
           ok \<leftarrow> call (finish_packet e mt);
           if \<not> ok then fail_fatal else write_send e }) write_result" for ret mt
    using post valid_write_fatal(1)
    by (cases ret) (auto intro!: valid_bind [OF start(2)] valid_if valid_write_fatal write_send_valid [OF assms])
  have message: "valid ?P
      (case ossl_statem_client_construct_message h of
         None \<Rightarrow> fail_fatal
       | Some (f, mt) \<Rightarrow>
           if mt = SSL3_MT_DUMMY then do { to_post_work; again }
           else do {
             ok \<leftarrow> call (start_packet e mt);
             if \<not> ok then fail_fatal
             else do {
               ret \<leftarrow> (case f of None \<Rightarrow> State_Monad.return CON_FUNC_SUCCESS | Some c \<Rightarrow> call (tls_construct e c));
               case ret of
                 CON_FUNC_ERROR \<Rightarrow> do { check_fatal; finish SUB_STATE_ERROR }
               | CON_FUNC_DONT_SEND \<Rightarrow> do { to_post_work; again }
               | CON_FUNC_SUCCESS \<Rightarrow> do {
                   ok \<leftarrow> call (finish_packet e mt);
                   if \<not> ok then fail_fatal else write_send e } } }) write_result" for h
  proof (cases "ossl_statem_client_construct_message h")
    case (Some c)
    then show ?thesis
      by (cases c) (simp only: option.case prod.case,
        intro post valid_if valid_write_fatal valid_bind [OF start(1)] valid_bind [OF construct] sent)
  qed (simp add: valid_write_fatal)
  show ?thesis
    unfolding write_message_def by (rule valid_look_bind, rule message)
qed

text \<open>The end of a handshake.\<close>

definition end_ok :: "'w tls_state \<Rightarrow> bool" where
  "end_ok x \<longleftrightarrow> tls_run Writing (conn x) (received x) \<and> hand_state (conn x) = TLS_ST_OK"

lemma end_ok_frame:
  "end_ok x \<Longrightarrow> work_frame (conn x) (conn y) \<Longrightarrow> received y = received x \<Longrightarrow> end_ok y"
  using tls_run.work [of Writing "conn x" "received x" "conn y"] by (auto simp: end_ok_def work_frame_def)

lemma end_ok_change:
  assumes "\<And>s. hand_state s = TLS_ST_OK \<Longrightarrow> work_frame s (f s)"
  shows "valid end_ok (change f) (\<lambda>_. end_ok)"
  by (rule valid_change, rule end_ok_frame) (auto simp: end_ok_def intro: assms)

lemma finish_handshake_valid:
  assumes "flow_env_ok e"
  shows "valid end_ok (tls_finish_handshake e True True)
    (\<lambda>wst x. wst = WORK_FINISHED_STOP \<and> end_ok x \<or> wst = WORK_ERROR \<and> flow_state (conn x) = MSG_FLOW_ERROR)"
proof -
  have free: "valid end_ok (call (ssl_free_wbio_buffer e)) (\<lambda>_. end_ok)"
    by (rule valid_framed [OF framed_call [OF flow_env_okD(13) [OF assms]]]) (auto simp: statem_frame_def intro: end_ok_frame)
  have fatal: "valid end_ok (do { change SSLfatal; State_Monad.return WORK_ERROR })
      (\<lambda>wst x. wst = WORK_FINISHED_STOP \<and> end_ok x \<or> wst = WORK_ERROR \<and> flow_state (conn x) = MSG_FLOW_ERROR)"
    by (rule valid_bind [where R = "\<lambda>_ x. flow_state (conn x) = MSG_FLOW_ERROR"])
      (auto intro!: valid_change valid_return)
  show ?thesis
    unfolding tls_finish_handshake_def if_True not_True_eq_False if_False
    apply (rule valid_bind)
     apply (rule valid_bind [OF end_ok_change free])
     apply (simp add: work_frame_def shut_down_def)
    apply (rule valid_if, rule fatal)
    apply (rule valid_bind [OF end_ok_change], simp add: work_frame_def shut_down_def)+
    apply (rule valid_return, simp)
    done
qed

definition pre_ok :: "'w tls_state \<Rightarrow> bool" where
  "pre_ok x \<longleftrightarrow> tls_run Writing (conn x) (received x) \<and> in_init (conn x) \<and> write_state (conn x) = WRITE_STATE_PRE_WORK \<and>
     flow_state (conn x) \<in> {MSG_FLOW_WRITING, MSG_FLOW_ERROR} \<and> hand_state (conn x) \<noteq> TLS_ST_CR_SRVR_HELLO"

definition pre_result :: "work_state \<Rightarrow> 'w tls_state \<Rightarrow> bool" where
  "pre_result wst x \<longleftrightarrow> (wst = WORK_FINISHED_STOP \<longrightarrow> end_ok x) \<and> (wst = WORK_FINISHED_CONTINUE \<longrightarrow> pre_ok x) \<and>
     wst \<in> {WORK_FINISHED_STOP, WORK_FINISHED_CONTINUE, WORK_ERROR}"

lemma pre_ok_frame:
  assumes "pre_ok x" "statem_frame (conn x) (conn y)" "received y = received x"
  shows "pre_ok y"
  using assms tls_run.work [of Writing "conn x" "received x" "conn y"]
  by (auto simp: pre_ok_def statem_frame_def work_frame_def)

lemma continue_if_valid: "valid (\<lambda>x. ok \<longrightarrow> pre_ok x) (continue_if ok) pre_result"
  unfolding continue_if_def by (rule valid_return) (simp add: pre_result_def)

lemma pre_work_hello:
  assumes "flow_env_ok e"
  shows "valid (\<lambda>x. write_ok WRITE_STATE_PRE_WORK x \<and> hand_state (conn x) = TLS_ST_CW_CLNT_HELLO)
    (do { change (\<lambda>s. s\<lparr>ssl_shutdown := 0\<rparr>);
          if b then do { ok \<leftarrow> call (ssl_set_new_record_layer e); continue_if ok } else continue_if True }) pre_result"
proof -
  have reset: "valid (\<lambda>x. write_ok WRITE_STATE_PRE_WORK x \<and> hand_state (conn x) = TLS_ST_CW_CLNT_HELLO)
      (change (\<lambda>s. s\<lparr>ssl_shutdown := 0\<rparr>)) (\<lambda>_. pre_ok)"
    by (rule valid_change) (auto simp: write_ok_def pre_ok_def hello_reset_def)
  have layer: "valid pre_ok (call (ssl_set_new_record_layer e)) (\<lambda>ok x. ok \<longrightarrow> pre_ok x)"
    by (rule valid_framed [OF framed_call [OF flow_env_okD(12) [OF assms]]]) (auto intro: pre_ok_frame)
  show ?thesis
    by (intro valid_bind [OF reset] valid_if valid_bind [OF layer] continue_if_valid valid_pre [OF continue_if_valid]) simp
qed

lemma pre_work_valid:
  assumes "flow_env_ok e"
  shows "valid (write_ok WRITE_STATE_PRE_WORK) (ossl_statem_client_pre_work e) pre_result"
  unfolding valid_def
proof (intro allI impI)
  fix x :: "'a tls_state" and a y
  assume x: "write_ok WRITE_STATE_PRE_WORK x" and r: "run_state (ossl_statem_client_pre_work e) x = (a, y)"
  let ?s = "conn x"
  have run: "tls_run Writing (hello_reset ?s) (received x)" using x by (simp add: write_ok_def)
  then have early: "early_data_state ?s = SSL_EARLY_DATA_NONE" "hand_state ?s \<noteq> TLS_ST_EARLY_DATA"
    using tls_run_inv [OF run] by (auto simp: run_inv_def hello_reset_def split: if_splits)
  consider "hand_state ?s = TLS_ST_CW_CLNT_HELLO" | "hand_state ?s = TLS_ST_OK"
    | "hand_state ?s \<notin> {TLS_ST_CW_CLNT_HELLO, TLS_ST_OK}" by blast
  then show "pre_result a y"
  proof cases
    case 1
    with r have "run_state (do { change (\<lambda>s. s\<lparr>ssl_shutdown := 0\<rparr>);
        if ext_early_data ?s = SSL_EARLY_DATA_REJECTED then do { ok \<leftarrow> call (ssl_set_new_record_layer e); continue_if ok }
        else continue_if True }) x = (a, y)"
      by (simp add: ossl_statem_client_pre_work_def State_Monad.bind_def look_def)
    from validD [OF pre_work_hello [OF assms] _ this] x 1 show ?thesis by simp
  next
    case 2
    with r have "run_state (tls_finish_handshake e True True) x = (a, y)"
      by (simp add: ossl_statem_client_pre_work_def State_Monad.bind_def look_def)
    moreover have "end_ok x" using run 2 by (simp add: end_ok_def hello_reset_def)
    ultimately show ?thesis
      using validD [OF finish_handshake_valid [OF assms]] by (fastforce simp: pre_result_def)
  next
    case 3
    with r early have "run_state (continue_if True) x = (a, y)"
      by (cases "hand_state ?s") (simp_all add: ossl_statem_client_pre_work_def State_Monad.bind_def look_def)
    moreover have "pre_ok x" using x 3 by (simp add: write_ok_def pre_ok_def hello_reset_def)
    ultimately show ?thesis using validD [OF continue_if_valid] by blast
  qed
qed

lemma pre_result_work:
  assumes "pre_result wst x"
  shows "pre_result wst (x\<lparr>conn := (conn x)\<lparr>write_state_work := t\<rparr>\<rparr>)"
proof -
  let ?y = "x\<lparr>conn := (conn x)\<lparr>write_state_work := t\<rparr>\<rparr>"
  have "statem_frame (conn x) (conn ?y)" by (simp add: frame_defs)
  with assms show ?thesis
    using pre_ok_frame [of x ?y] end_ok_frame [of x ?y] by (auto simp: pre_result_def statem_frame_def)
qed

lemma pre_ok_send:
  assumes "pre_ok x"
  shows "write_ok WRITE_STATE_SEND (x\<lparr>conn := (conn x)\<lparr>write_state := WRITE_STATE_SEND\<rparr>\<rparr>)"
  using assms tls_run.work [of Writing "conn x" "received x" "(conn x)\<lparr>write_state := WRITE_STATE_SEND\<rparr>"]
  by (auto simp: pre_ok_def write_ok_def work_frame_def shut_down_def)

lemma write_pre_work_valid:
  assumes "flow_env_ok e"
  shows "valid (write_ok WRITE_STATE_PRE_WORK) (write_pre_work e) write_result"
proof -
  have send: "valid (pre_result WORK_FINISHED_CONTINUE)
      (do { change (\<lambda>s. s\<lparr>write_state := WRITE_STATE_SEND\<rparr>); write_message e }) write_result"
    by (rule valid_bind [OF valid_change write_message_valid [OF assms]]) (simp add: pre_result_def pre_ok_send)
  have stop: "valid (pre_result WORK_FINISHED_STOP) (finish SUB_STATE_END_HANDSHAKE) write_result"
    unfolding finish_def by (rule valid_return) (simp add: pre_result_def write_result_def end_ok_def)
  have more: "valid (pre_result wst :: 'a tls_state \<Rightarrow> bool) (finish SUB_STATE_ERROR) write_result"
    if "wst \<in> {WORK_MORE_A, WORK_MORE_B, WORK_MORE_C}" for wst
    using that by (auto simp: valid_def pre_result_def)
  have work: "valid (pre_result wst)
      (case wst of
         WORK_ERROR \<Rightarrow> do { check_fatal; finish SUB_STATE_ERROR }
       | WORK_FINISHED_CONTINUE \<Rightarrow> do { change (\<lambda>s. s\<lparr>write_state := WRITE_STATE_SEND\<rparr>); write_message e }
       | WORK_FINISHED_STOP \<Rightarrow> finish SUB_STATE_END_HANDSHAKE
       | _ \<Rightarrow> finish SUB_STATE_ERROR) write_result" for wst
    using send stop more valid_write_fatal(1) by (cases wst) simp_all
  show ?thesis
    unfolding write_pre_work_def
    by (rule valid_bind [OF pre_work_valid [OF assms]], rule valid_bind [OF valid_change work], rule pre_result_work)
qed

subsection \<open>The next message to send\<close>

lemma write13_members:
  assumes "ossl_statem_client13_write_transition s = (t, s')"
  shows "t \<noteq> WRITE_TRAN_ERROR \<Longrightarrow> in_init s' = in_init s \<and> flow_state s' = flow_state s \<and> hand_state s' \<noteq> TLS_ST_CR_SRVR_HELLO"
  using write13_effect [OF assms] by (auto simp: write13_states_def)

lemma write12_members:
  assumes "client12_write_transition calls s = (t, s')"
  shows "t \<noteq> WRITE_TRAN_ERROR \<Longrightarrow> in_init s' = in_init s \<and> flow_state s' = flow_state s \<and> hand_state s' \<noteq> TLS_ST_CR_SRVR_HELLO"
  using assms
  by (cases "hand_state s") (auto simp: client12_write_transition_def go_on_def write_error_def split: if_splits)

lemma write_next_valid:
  "valid (write_ok WRITE_STATE_TRANSITION) (write_next e) write_result"
  unfolding valid_def
proof (intro allI impI)
  fix x :: "'a tls_state" and a y
  assume x: "write_ok WRITE_STATE_TRANSITION x" and r: "run_state (write_next e) x = (a, y)"
  let ?c = "transition_calls e (net x)"
  have run: "tls_run Writing (conn x) (received x)" and i: "in_init (conn x)"
    using x by (simp_all add: write_ok_def)
  obtain t s where t: "ossl_statem_client_write_transition ?c (conn x) = (t, s)" by fastforce
  have m: "in_init s = in_init (conn x) \<and> flow_state s = flow_state (conn x) \<and> hand_state s \<noteq> TLS_ST_CR_SRVR_HELLO"
    if "t \<noteq> WRITE_TRAN_ERROR"
    using t that write13_members write12_members
    by (auto simp: ossl_statem_client_write_transition_def split: if_splits)
  show "write_result a y"
  proof (cases t)
    case WRITE_TRAN_ERROR
    with t r show ?thesis
      by (auto simp: write_next_def write_transition_def State_Monad.bind_def State_Monad.return_def check_fatal_def
        change_def finish_def write_result_def)
  next
    case WRITE_TRAN_FINISHED
    with t r run i m tls_run.sent [OF run, of ?c s] show ?thesis
      by (auto simp: write_next_def write_transition_def State_Monad.bind_def State_Monad.return_def finish_def
        write_result_def)
  next
    case WRITE_TRAN_CONTINUE
    let ?r = "if hand_state s = TLS_ST_CW_CLNT_HELLO then [] else received x"
    let ?s = "s\<lparr>write_state := WRITE_STATE_PRE_WORK, write_state_work := WORK_MORE_A\<rparr>"
    have "tls_run Writing (hello_reset s) ?r"
      using tls_run.send [OF run] t WRITE_TRAN_CONTINUE by blast
    then have "tls_run Writing (hello_reset ?s) ?r"
      by (rule tls_run.work) (auto simp: work_frame_def shut_down_def hello_reset_def)
    moreover have "a = None" "y = x\<lparr>conn := ?s, received := ?r\<rparr>"
      using t r WRITE_TRAN_CONTINUE
      by (auto simp: write_next_def write_transition_def State_Monad.bind_def State_Monad.return_def change_def again_def)
    ultimately have "write_ok WRITE_STATE_PRE_WORK y"
      using m i x WRITE_TRAN_CONTINUE by (auto simp: write_ok_def)
    then show ?thesis using \<open>a = None\<close> by (auto simp: write_result_def write_live_def)
  qed
qed

lemma write_step_valid:
  assumes "flow_env_ok e"
  shows "valid write_live (write_step e) write_result"
  unfolding valid_def
proof (intro allI impI)
  fix x :: "'a tls_state" and a y
  assume "write_live x" and "run_state (write_step e) x = (a, y)"
  then obtain st where x: "write_ok st x" and r: "run_state (case st of
       WRITE_STATE_TRANSITION \<Rightarrow> write_next e
     | WRITE_STATE_PRE_WORK \<Rightarrow> write_pre_work e
     | WRITE_STATE_SEND \<Rightarrow> write_send e
     | WRITE_STATE_POST_WORK \<Rightarrow> write_post_work e) x = (a, y)"
    by (auto simp: write_step_def State_Monad.bind_def look_def write_live_def write_ok_def)
  show "write_result a y"
  proof (cases st)
    case WRITE_STATE_TRANSITION
    with x r show ?thesis using validD [OF write_next_valid] by fastforce
  next
    case WRITE_STATE_PRE_WORK
    with x r show ?thesis using validD [OF write_pre_work_valid [OF assms]] by fastforce
  next
    case WRITE_STATE_SEND
    with x r show ?thesis using validD [OF write_send_valid [OF assms]] by fastforce
  next
    case WRITE_STATE_POST_WORK
    with x r show ?thesis using validD [OF write_post_work_valid [OF assms]] by fastforce
  qed
qed

lemma write_state_machine_valid:
  assumes "flow_env_ok e" "write_live x" "write_state_machine e n x = Some (ret, y)"
  shows "write_result (Some ret) y"
  using assms(3,2) unfolding write_state_machine_def
  by (rule sub_state_loop_valid) (auto dest: validD [OF write_step_valid [OF assms(1)]] simp: write_result_def)

subsection \<open>The message flow\<close>

text \<open>The invariant between two calls of the state machine, until it has reported success.\<close>

definition fresh :: "'w tls_state \<Rightarrow> bool" where
  "fresh x \<longleftrightarrow> \<not> is_dtls (conn x) \<and> early_data_state (conn x) = SSL_EARLY_DATA_NONE \<and>
     post_handshake_auth (conn x) \<noteq> SSL_PHA_REQUESTED \<and> in_init (conn x) \<and> received x = [] \<and>
     flow_state (conn x) \<in> {MSG_FLOW_UNINITED, MSG_FLOW_ERROR}"

definition flow_inv :: "'w tls_state \<Rightarrow> bool" where
  "flow_inv x = (case flow_state (conn x) of
      MSG_FLOW_UNINITED \<Rightarrow> fresh x
    | MSG_FLOW_READING \<Rightarrow> read_live x
    | MSG_FLOW_WRITING \<Rightarrow> write_live x
    | MSG_FLOW_FINISHED \<Rightarrow> end_ok x
    | MSG_FLOW_ERROR \<Rightarrow> True)"

lemma fresh_frame: "fresh x \<Longrightarrow> statem_frame (conn x) (conn y) \<Longrightarrow> received y = received x \<Longrightarrow> fresh y"
  by (auto simp: fresh_def statem_frame_def work_frame_def)

lemma fresh_inv: "fresh x \<Longrightarrow> flow_inv x"
  by (auto simp: fresh_def flow_inv_def)

lemma reset_valid:
  assumes "flow_env_ok e"
  shows "valid fresh (ossl_ssl_connection_reset e) (\<lambda>_. fresh)"
proof -
  have changes: "valid fresh (change (\<lambda>s. s\<lparr>hello_retry_request := SSL_HRR_NONE, hit := False, ssl_shutdown := 0\<rparr>)) (\<lambda>_. fresh)"
      "valid fresh (change ossl_statem_clear) (\<lambda>_. fresh)"
      "valid fresh (change (\<lambda>s. s\<lparr>tls_version := method_version s, init_buf := False, first_packet := False,
         key_update := SSL_KEY_UPDATE_NONE, peer_compresses := False, compress_certificate_sent := False,
         method_version := deflt_version s\<rparr>)) (\<lambda>_. fresh)"
    by (rule valid_change, simp add: fresh_def ossl_statem_clear_def)+
  have new_method: "valid fresh (call (reset_method e)) (\<lambda>_. fresh)"
    by (rule valid_framed [OF framed_call [OF flow_env_okD(1) [OF assms]]]) (rule fresh_frame)
  show ?thesis
    unfolding ossl_ssl_connection_reset_def
    apply (rule valid_bind [OF changes(1)])
    apply (rule valid_look_bind)
    apply (rule valid_if)
     apply (rule valid_return, assumption)
    apply (rule valid_bind [OF changes(2)], rule valid_bind [OF changes(3)], rule new_method)
    done
qed

definition starting :: "'w tls_state \<Rightarrow> bool" where
  "starting x \<longleftrightarrow> fresh x \<and> hand_state (conn x) = TLS_ST_BEFORE"

definition init_result :: "bool \<Rightarrow> 'w tls_state \<Rightarrow> bool" where
  "init_result ok x \<longleftrightarrow> (if ok then write_live x \<and> flow_state (conn x) = MSG_FLOW_WRITING
     else flow_inv x \<and> flow_state (conn x) \<noteq> MSG_FLOW_FINISHED)"

lemma starting_framed: "framed m \<Longrightarrow> valid starting m (\<lambda>_. starting)"
  by (rule valid_framed) (auto simp: starting_def frame_defs intro: fresh_frame)

lemma starting_change:
  assumes "\<And>x :: 'w tls_state. starting x \<Longrightarrow> starting (x\<lparr>conn := f (conn x)\<rparr>)"
  shows "valid (starting :: 'w tls_state \<Rightarrow> bool) (change f) (\<lambda>_. starting)"
  by (rule valid_change) (rule assms)

lemma init_fatal_valid: "valid P init_fatal init_result"
  unfolding init_fatal_def
  by (rule valid_bind [where R = "\<lambda>_ x. flow_state (conn x) = MSG_FLOW_ERROR"])
    (auto simp: init_result_def flow_inv_def intro!: valid_change valid_return)

lemma setup_handshake_valid:
  assumes "flow_env_ok e"
  shows "valid starting (setup_handshake e) (\<lambda>_. starting)"
proof -
  have "valid starting (change (\<lambda>s. if ok then s\<lparr>hit := False, cert_req := 0\<rparr> else s)) (\<lambda>_. starting)" for ok
    by (rule starting_change) (simp add: starting_def fresh_def)
  then show ?thesis
    unfolding setup_handshake_def
    by (intro valid_bind [OF starting_framed [OF framed_call]] flow_env_okD [OF assms]) (rule valid_bind, assumption, rule valid_return)
qed

lemma init_handshake_valid:
  assumes "flow_env_ok e"
  shows "valid starting (init_handshake e) init_result"
proof -
  have set_up: "valid starting (if b then setup_handshake e else State_Monad.return True) (\<lambda>_. starting)" for b
    by (intro valid_if setup_handshake_valid assms valid_return)
  have first: "valid starting (change (\<lambda>s'. if b \<and> first_handshake s' then s'\<lparr>read_state_first_init := True\<rparr> else s')) (\<lambda>_. starting)" for b
    by (rule starting_change) (auto simp: starting_def fresh_def)
  have writing: "valid starting (do { change (\<lambda>s. s\<lparr>flow_state := MSG_FLOW_WRITING, write_state := WRITE_STATE_TRANSITION\<rparr>);
      State_Monad.return True }) init_result"
    by (rule valid_bind [where R = "\<lambda>_. init_result True"])
      (auto simp: starting_def fresh_def init_result_def write_live_def write_ok_def intro!: valid_change valid_return tls_run.start)
  show ?thesis
    unfolding init_handshake_def
    apply (rule valid_look_bind)
    apply (rule valid_bind [OF set_up], rule valid_if)
     apply (rule valid_return, auto simp: init_result_def starting_def fresh_inv fresh_def)[1]
    apply (rule valid_bind [OF first], rule writing)
    done
qed

lemma init_flow_valid:
  assumes "flow_env_ok e"
  shows "valid (\<lambda>x. fresh x \<and> flow_state (conn x) = MSG_FLOW_UNINITED) (init_flow e) init_result"
proof -
  have buf: "valid starting (if b then State_Monad.return True else call (new_init_buf e)) (\<lambda>_. starting)" for b
    by (rule starting_framed) (intro framed_rules flow_env_okD [OF assms])
  have bufs: "valid starting (change (\<lambda>s. s\<lparr>init_buf := True, init_num := 0, change_cipher_spec := False\<rparr>)) (\<lambda>_. starting)"
    by (rule starting_change) (simp add: starting_def fresh_def)
  have calls: "valid starting (call (ssl_security_version e)) (\<lambda>_. starting)"
      "valid starting (call (ssl_init_wbio_buffer e)) (\<lambda>_. starting)"
    by (rule starting_framed, intro framed_rules flow_env_okD [OF assms])+
  show ?thesis
    unfolding init_flow_def
    apply (rule valid_bind [where R = "\<lambda>_. starting"])
     apply (rule valid_change, simp add: starting_def fresh_def)
    apply (rule valid_look_bind)
    apply (intro valid_if init_fatal_valid)
    apply (rule valid_bind [OF calls(1)], intro valid_if init_fatal_valid)
    apply (rule valid_look_bind)
    apply (rule valid_bind [OF buf], intro valid_if init_fatal_valid)
    apply (rule valid_bind [OF bufs])
    apply (rule valid_bind [OF calls(2)], intro valid_if init_fatal_valid)
    apply (rule init_handshake_valid [OF assms])
    done
qed

lemma flow_inv_reading:
  assumes "tls_run Reading (conn x) (received x)" "in_init (conn x)"
  shows "flow_inv (x\<lparr>conn := (conn x)\<lparr>flow_state := MSG_FLOW_READING, read_state := READ_STATE_HEADER\<rparr>\<rparr>)"
  using assms
    tls_run.work [OF assms(1), of "(conn x)\<lparr>flow_state := MSG_FLOW_READING, read_state := READ_STATE_HEADER\<rparr>"]
  by (simp add: flow_inv_def read_live_def read_ok_def work_frame_def shut_down_def)

lemma flow_inv_writing:
  assumes "tls_run Writing (conn x) (received x)" "in_init (conn x)"
  shows "flow_inv (x\<lparr>conn := (conn x)\<lparr>flow_state := MSG_FLOW_WRITING, write_state := WRITE_STATE_TRANSITION\<rparr>\<rparr>)"
  using assms
    tls_run.work [OF assms(1), of "(conn x)\<lparr>flow_state := MSG_FLOW_WRITING, write_state := WRITE_STATE_TRANSITION\<rparr>"]
  by (auto simp: flow_inv_def write_live_def write_ok_def work_frame_def shut_down_def)

lemma flow_inv_finished:
  assumes "tls_run Writing (conn x) (received x)" "hand_state (conn x) = TLS_ST_OK"
  shows "flow_inv (x\<lparr>conn := (conn x)\<lparr>flow_state := MSG_FLOW_FINISHED\<rparr>\<rparr>)"
  using assms tls_run.work [OF assms(1), of "(conn x)\<lparr>flow_state := MSG_FLOW_FINISHED\<rparr>"]
  by (simp add: flow_inv_def end_ok_def work_frame_def shut_down_def)

lemma live_inv:
  "flow_state (conn x) = MSG_FLOW_ERROR \<or> read_live x \<Longrightarrow> flow_inv x"
  "flow_state (conn x) = MSG_FLOW_ERROR \<or> write_live x \<Longrightarrow> flow_inv x"
  by (auto simp: flow_inv_def read_live_def write_live_def read_ok_def write_ok_def)

lemma flow_loop_inv:
  assumes "flow_env_ok e" "flow_loop e n k x = Some (ok, y)" "flow_inv x" "flow_state (conn x) \<noteq> MSG_FLOW_UNINITED"
  shows "flow_inv y \<and> (ok \<longleftrightarrow> flow_state (conn y) = MSG_FLOW_FINISHED)"
  using assms(2-4)
proof (induction k arbitrary: x)
  case (Suc k)
  show ?case
  proof (cases "flow_state (conn x)")
    case MSG_FLOW_READING
    then obtain ret z where r: "read_state_machine e n x = Some (ret, z)"
      using Suc.prems(1) by (auto split: option.splits)
    have "read_live x" using Suc.prems(2) MSG_FLOW_READING by (simp add: flow_inv_def)
    note v = read_state_machine_valid [OF assms(1) this r]
    show ?thesis
    proof (cases ret)
      case SUB_STATE_FINISHED
      with v have "flow_inv (z\<lparr>conn := (conn z)\<lparr>flow_state := MSG_FLOW_WRITING, write_state := WRITE_STATE_TRANSITION\<rparr>\<rparr>)"
        by (intro flow_inv_writing) (simp_all add: read_result_def)
      from Suc.IH [OF _ this] r MSG_FLOW_READING Suc.prems(1) SUB_STATE_FINISHED show ?thesis by simp
    next
      case SUB_STATE_ERROR
      with v have "flow_state (conn z) = MSG_FLOW_ERROR \<or> read_live z" by (simp add: read_result_def)
      moreover from this have "flow_state (conn z) \<noteq> MSG_FLOW_FINISHED" by (auto simp: read_live_def read_ok_def)
      ultimately show ?thesis using live_inv(1) [of z] r MSG_FLOW_READING Suc.prems(1) SUB_STATE_ERROR by simp
    next
      case SUB_STATE_END_HANDSHAKE
      with v show ?thesis by (simp add: read_result_def)
    qed
  next
    case MSG_FLOW_WRITING
    then obtain ret z where r: "write_state_machine e n x = Some (ret, z)"
      using Suc.prems(1) by (auto split: option.splits)
    have "write_live x" using Suc.prems(2) MSG_FLOW_WRITING by (simp add: flow_inv_def)
    note v = write_state_machine_valid [OF assms(1) this r]
    show ?thesis
    proof (cases ret)
      case SUB_STATE_FINISHED
      with v have "flow_inv (z\<lparr>conn := (conn z)\<lparr>flow_state := MSG_FLOW_READING, read_state := READ_STATE_HEADER\<rparr>\<rparr>)"
        by (intro flow_inv_reading) (simp_all add: write_result_def)
      from Suc.IH [OF _ this] r MSG_FLOW_WRITING Suc.prems(1) SUB_STATE_FINISHED show ?thesis by simp
    next
      case SUB_STATE_ERROR
      with v have "flow_state (conn z) = MSG_FLOW_ERROR \<or> write_live z" by (simp add: write_result_def)
      moreover from this have "flow_state (conn z) \<noteq> MSG_FLOW_FINISHED" by (auto simp: write_live_def write_ok_def)
      ultimately show ?thesis using live_inv(2) [of z] r MSG_FLOW_WRITING Suc.prems(1) SUB_STATE_ERROR by simp
    next
      case SUB_STATE_END_HANDSHAKE
      with v have "flow_inv (z\<lparr>conn := (conn z)\<lparr>flow_state := MSG_FLOW_FINISHED\<rparr>\<rparr>)"
        by (intro flow_inv_finished) (simp_all add: write_result_def)
      from Suc.IH [OF _ this] r MSG_FLOW_WRITING Suc.prems(1) SUB_STATE_END_HANDSHAKE show ?thesis by simp
    qed
  next
    case MSG_FLOW_ERROR
    with Suc.prems show ?thesis by (auto simp: check_fatal_def change_def flow_inv_def split: if_splits)
  qed (use Suc.prems in auto)
qed simp

text \<open>The counter of nested handshakes has no influence.\<close>

lemma tls_run_handshaking: "tls_run p s r \<Longrightarrow> tls_run p (handshaking d s) r"
  by (erule tls_run.work) (simp_all add: handshaking_def work_frame_def shut_down_def)

lemma flow_inv_handshaking:
  assumes "flow_inv x"
  shows "flow_inv (x\<lparr>conn := handshaking d (conn x)\<rparr>)"
proof -
  let ?y = "x\<lparr>conn := handshaking d (conn x)\<rparr>"
  have same: "flow_state (handshaking d s) = flow_state s" "in_init (handshaking d s) = in_init s"
      "hand_state (handshaking d s) = hand_state s" "read_state (handshaking d s) = read_state s"
      "write_state (handshaking d s) = write_state s" "hello_reset (handshaking d s) = handshaking d (hello_reset s)" for s
    by (simp_all add: handshaking_def hello_reset_def)
  have "read_ok p st x \<Longrightarrow> read_ok p st ?y" for p st
    by (auto simp: read_ok_def same intro: tls_run_handshaking)
  moreover have "write_ok st x \<Longrightarrow> write_ok st ?y" for st
    by (auto simp: write_ok_def same intro: tls_run_handshaking)
  moreover have "end_ok x \<Longrightarrow> end_ok ?y" by (simp add: end_ok_def same tls_run_handshaking)
  moreover have "fresh x \<Longrightarrow> fresh ?y" by (simp add: fresh_def handshaking_def)
  ultimately show ?thesis
    using assms by (cases "flow_state (conn x)") (auto simp: flow_inv_def same read_live_def write_live_def)
qed

text \<open>The parts of \<^const>\<open>state_machine\<close>: entering the handshake, the reset, the initialisation and the loop.\<close>

definition entered :: "'w flow_env \<Rightarrow> 'w tls_state \<Rightarrow> bool \<times> 'w tls_state" where
  "entered e x =
     (let x = x\<lparr>conn := handshaking 1 (conn x)\<rparr>
      in if \<not> in_init (conn x) \<or> SSL_in_before (conn x) then run_state (ossl_ssl_connection_reset e) x else (True, x))"

definition initialised :: "'w flow_env \<Rightarrow> 'w tls_state \<Rightarrow> bool \<times> 'w tls_state" where
  "initialised e x =
     (if flow_state (conn x) = MSG_FLOW_UNINITED \<or> flow_state (conn x) = MSG_FLOW_FINISHED
      then run_state (init_flow e) x else (True, x))"

definition leave :: "'w tls_state \<Rightarrow> 'w tls_state" where
  "leave x = x\<lparr>conn := handshaking (- 1) (conn x)\<rparr>"

lemma state_machine_parts:
  assumes "flow_state (conn x) \<noteq> MSG_FLOW_ERROR"
  shows "state_machine e n x = (case entered e x of
      (ok, y) \<Rightarrow> if \<not> ok then Some (- 1, y)
        else (case initialised e y of
            (ok, z) \<Rightarrow> if \<not> ok then Some (- 1, leave z)
              else map_option (\<lambda>(success, z). (if success then 1 else - 1, leave z)) (flow_loop e n n z)))"
proof -
  have c: "snd (run_state (change (handshaking d)) y) = y\<lparr>conn := handshaking d (conn y)\<rparr>" for d and y :: "'a tls_state"
    by (simp add: change_def)
  show ?thesis
    unfolding state_machine_def entered_def initialised_def leave_def Let_def c using assms
    by (auto split: prod.split option.split)
qed

lemma entered_inv:
  assumes "flow_env_ok e" "flow_inv x" "flow_state (conn x) \<notin> {MSG_FLOW_FINISHED, MSG_FLOW_ERROR}" "entered e x = (ok, y)"
  shows "flow_inv y" "flow_state (conn y) \<noteq> MSG_FLOW_FINISHED"
proof -
  define x1 where "x1 = x\<lparr>conn := handshaking 1 (conn x)\<rparr>"
  have i1: "flow_inv x1" and f1: "flow_state (conn x1) = flow_state (conn x)"
    using flow_inv_handshaking [OF assms(2)] by (simp_all add: x1_def handshaking_def)
  have "in_init (conn x1)"
    using i1 f1 assms(3) by (cases "flow_state (conn x1)")
      (auto simp: flow_inv_def fresh_def read_live_def read_ok_def write_live_def write_ok_def)
  moreover have "(if \<not> in_init (conn x1) \<or> SSL_in_before (conn x1) then run_state (ossl_ssl_connection_reset e) x1
      else (True, x1)) = (ok, y)"
    using assms(4) unfolding entered_def Let_def x1_def .
  ultimately have "y = x1 \<or> fresh x1 \<and> run_state (ossl_ssl_connection_reset e) x1 = (ok, y)"
    using i1 by (auto simp: SSL_in_before_def flow_inv_def split: if_splits)
  then have "y = x1 \<or> fresh y"
    using validD [OF reset_valid [OF assms(1)], of x1 ok y] by blast
  then show "flow_inv y" "flow_state (conn y) \<noteq> MSG_FLOW_FINISHED"
    using i1 f1 assms(3) fresh_inv [of y] by (auto simp: fresh_def)
qed

lemma initialised_inv:
  assumes "flow_env_ok e" "flow_inv x" "flow_state (conn x) \<noteq> MSG_FLOW_FINISHED" "initialised e x = (ok, y)"
  shows "flow_inv y" "ok \<Longrightarrow> flow_state (conn y) \<noteq> MSG_FLOW_UNINITED" "flow_state (conn y) \<noteq> MSG_FLOW_FINISHED"
proof -
  have "y = x \<and> flow_state (conn x) \<noteq> MSG_FLOW_UNINITED \<or>
      fresh x \<and> flow_state (conn x) = MSG_FLOW_UNINITED \<and> run_state (init_flow e) x = (ok, y)"
    using assms(2-4) by (cases "flow_state (conn x)") (simp_all add: flow_inv_def initialised_def)
  then have "y = x \<and> flow_state (conn x) \<noteq> MSG_FLOW_UNINITED \<or> init_result ok y"
    using validD [OF init_flow_valid [OF assms(1)], of x ok y] by blast
  then show "flow_inv y" "ok \<Longrightarrow> flow_state (conn y) \<noteq> MSG_FLOW_UNINITED" "flow_state (conn y) \<noteq> MSG_FLOW_FINISHED"
    using assms(2,3) live_inv(2) [of y] by (auto simp: init_result_def split: if_splits)
qed

lemma leave_inv: "flow_inv x \<Longrightarrow> flow_inv (leave x)" "flow_state (conn (leave x)) = flow_state (conn x)"
  by (simp_all add: leave_def flow_inv_handshaking) (simp add: handshaking_def)

lemma state_machine_inv:
  assumes "flow_env_ok e" "flow_inv x" "flow_state (conn x) \<noteq> MSG_FLOW_FINISHED" "state_machine e n x = Some (ret, y)"
  shows "flow_inv y \<and> (ret = 1 \<longleftrightarrow> flow_state (conn y) = MSG_FLOW_FINISHED)"
proof (cases "flow_state (conn x) = MSG_FLOW_ERROR")
  case True
  with assms show ?thesis by (auto simp: state_machine_def)
next
  case False
  obtain ok x2 where e: "entered e x = (ok, x2)" by fastforce
  obtain ok' x3 where i: "initialised e x2 = (ok', x3)" by fastforce
  note e_inv = entered_inv [OF assms(1,2) _ e]
  note i_inv = initialised_inv [OF assms(1) e_inv i]
  show ?thesis
  proof (cases "ok \<and> ok'")
    case True
    with assms(4) e i state_machine_parts [OF False, of e n] obtain success z where
      z: "flow_loop e n n x3 = Some (success, z)" "ret = (if success then 1 else - 1)" "y = leave z" by auto
    have "flow_inv z \<and> (success \<longleftrightarrow> flow_state (conn z) = MSG_FLOW_FINISHED)"
      using flow_loop_inv [OF assms(1) z(1)] i_inv False assms(3) True by simp
    with z(2,3) leave_inv [of z] show ?thesis by simp
  next
    case not: False
    with assms(4) e i state_machine_parts [OF False, of e n] have "y = x2 \<or> y = leave x3" "ret = - 1" by (auto split: if_splits)
    moreover have "flow_inv x2 \<and> flow_state (conn x2) \<noteq> MSG_FLOW_FINISHED" "flow_inv x3 \<and> flow_state (conn x3) \<noteq> MSG_FLOW_FINISHED"
      using e_inv i_inv False assms(3) by simp_all
    ultimately show ?thesis using leave_inv [of x3] by auto
  qed
qed

subsection \<open>Authentication of the server\<close>

text \<open>
  The calls of \<^verbatim>\<open>SSL_connect\<close> for a connection, from its creation to the call that reports success. A call that has not
  completed the handshake may be repeated; anything may happen outside the connection in between.
\<close>

inductive connecting :: "'w flow_env \<Rightarrow> 'w tls_state \<Rightarrow> bool" for e where
  create: "fresh x \<Longrightarrow> connecting e x"
| retry: "connecting e x \<Longrightarrow> state_machine e n x = Some (ret, y) \<Longrightarrow> ret \<noteq> 1 \<Longrightarrow> connecting e (y\<lparr>net := w\<rparr>)"

lemma flow_inv_net: "flow_inv x \<Longrightarrow> flow_inv (x\<lparr>net := w\<rparr>)"
  by (cases "flow_state (conn x)")
    (simp_all add: flow_inv_def read_live_def read_ok_def write_live_def write_ok_def end_ok_def fresh_def split: if_splits)

lemma connecting_inv:
  assumes "flow_env_ok e" "connecting e x"
  shows "flow_inv x \<and> flow_state (conn x) \<noteq> MSG_FLOW_FINISHED"
  using assms(2)
proof (induction rule: connecting.induct)
  case (create x)
  then show ?case using fresh_inv [of x] by (auto simp: fresh_def)
next
  case (retry x n ret y w)
  then show ?case using state_machine_inv [OF assms(1), of x n ret y] flow_inv_net [of y w] by simp
qed

lemma connected:
  assumes "flow_env_ok e" "connecting e x" "state_machine e n x = Some (1, y)"
  shows "end_ok y"
  using state_machine_inv [OF assms(1) _ _ assms(3)] connecting_inv [OF assms(1,2)] by (auto simp: flow_inv_def)

end
