(* ===== verification/Tls_Returns.thy ===== *)
theory Tls_Returns
  imports Tls_Connect
begin

text \<open>\<^verbatim>\<open>SSL_connect\<close> returns: the loops of the message flow end.\<close>

subsection \<open>Writing\<close>

text \<open>The work for one message stays in its state.\<close>

definition same_state :: "ssl_connection \<Rightarrow> ssl_connection \<Rightarrow> bool" where
  "same_state s s' \<longleftrightarrow> hand_state s' = hand_state s \<and>
     (\<not> negotiating (hand_state s) \<longrightarrow> SSL_CONNECTION_IS_TLS13 s' = SSL_CONNECTION_IS_TLS13 s)"

definition steady :: "('w, 'a) tls \<Rightarrow> bool" where
  "steady m \<longleftrightarrow> (\<forall>x a y. run_state m x = (a, y) \<longrightarrow> same_state (conn x) (conn y))"

lemma same_state_trans: "same_state s s' \<Longrightarrow> same_state s' s'' \<Longrightarrow> same_state s s''"
  by (auto simp: same_state_def)

lemma frame_same_state: "statem_frame s s' \<Longrightarrow> same_state s s'"
  by (auto simp: same_state_def frame_defs SSL_CONNECTION_IS_TLS13_def)

lemma framed_steady: "framed m \<Longrightarrow> steady m"
  by (auto simp: framed_def steady_def frame_same_state)

lemma steady_bind: "steady m \<Longrightarrow> (\<And>a. steady (f a)) \<Longrightarrow> steady (State_Monad.bind m f)"
  unfolding steady_def State_Monad.bind_def by (auto split: prod.splits) (metis same_state_trans)

lemma steady_change: "(\<And>s. same_state s (f s)) \<Longrightarrow> steady (change f)"
  by (auto simp: steady_def change_def)

text \<open>The states of the sub-machine in which it goes on.\<close>

definition goes_on_in :: "(ssl_connection \<Rightarrow> bool) \<Rightarrow> ('w, sub_state_return option) tls \<Rightarrow> bool" where
  "goes_on_in P m \<longleftrightarrow> (\<forall>x y. run_state m x = (None, y) \<longrightarrow> P (conn y))"

lemma goes_on_rules:
  "goes_on_in P (finish r)"
  "(\<And>s. P (f s)) \<Longrightarrow> goes_on_in P (do { change f; again })"
  "(\<And>a. goes_on_in P (g a)) \<Longrightarrow> goes_on_in P (State_Monad.bind m g)"
  "(b \<Longrightarrow> goes_on_in P m1) \<Longrightarrow> (\<not> b \<Longrightarrow> goes_on_in P m2) \<Longrightarrow> goes_on_in P (if b then m1 else m2)"
  "goes_on_in P fail_fatal"
  "goes_on_in P (do { check_fatal; finish r })"
  by (auto simp: goes_on_in_def finish_def again_def fail_fatal_def check_fatal_def State_Monad.bind_def State_Monad.return_def change_def
    split: prod.splits)

lemma steady_rules:
  "steady (State_Monad.return a)" "steady (look g)" "steady (change SSLfatal)" "steady check_fatal" "steady again"
  "steady fail_fatal" "steady (finish r)" "steady to_post_work" "steady (continue_if ok)"
  "steady (change (\<lambda>s. s\<lparr>write_state := st\<rparr>))" "steady (change (\<lambda>s. s\<lparr>write_state_work := t\<rparr>))"
  "steady (change (\<lambda>s. s\<lparr>ssl_shutdown := 0\<rparr>))"
  "external_ok k \<Longrightarrow> steady (call k)"
  "(b \<Longrightarrow> steady m1) \<Longrightarrow> (\<not> b \<Longrightarrow> steady m2) \<Longrightarrow> steady (if b then m1 else m2)"
  unfolding check_fatal_def again_def fail_fatal_def finish_def to_post_work_def continue_if_def
  by (auto intro!: framed_steady framed_rules steady_bind steady_change
    simp: same_state_def SSL_CONNECTION_IS_TLS13_def SSLfatal_def)

lemma finish_handshake_steady:
  assumes "flow_env_ok e"
  shows "steady (tls_finish_handshake e b b')"
  unfolding tls_finish_handshake_def
  by (intro steady_bind steady_rules flow_env_okD [OF assms] steady_change)
    (auto simp: same_state_def SSL_CONNECTION_IS_TLS13_def)

lemma pre_work_steady:
  assumes "flow_env_ok e"
  shows "steady (ossl_statem_client_pre_work e)"
  unfolding ossl_statem_client_pre_work_def
  by (intro steady_bind steady_rules)
    (auto split: handshake_state.split intro!: steady_bind steady_rules flow_env_okD [OF assms] finish_handshake_steady [OF assms])

lemma write_post_work_steady:
  assumes "flow_env_ok e"
  shows "steady (write_post_work e)"
  unfolding write_post_work_def
  by (intro steady_bind framed_steady [OF framed_post_work [OF assms]] steady_rules)
    (auto split: work_state.split intro!: steady_bind steady_rules)

lemma write_send_steady:
  assumes "flow_env_ok e"
  shows "steady (write_send e)"
  unfolding write_send_def
  by (intro steady_bind steady_rules flow_env_okD [OF assms] write_post_work_steady [OF assms])

lemma write_pre_work_steady:
  assumes "flow_env_ok e"
  shows "steady (write_pre_work e)"
proof -
  have "steady (write_message e)"
    unfolding write_message_def
    by (intro steady_bind steady_rules)
      (auto split: option.split con_func_return.split
        intro!: steady_bind steady_rules flow_env_okD [OF assms] write_send_steady [OF assms])
  then show ?thesis
    unfolding write_pre_work_def
    by (intro steady_bind pre_work_steady [OF assms] steady_rules)
      (auto split: work_state.split intro!: steady_bind steady_rules)
qed

lemma write_post_work_goes_on: "goes_on_in (\<lambda>s. write_state s = WRITE_STATE_TRANSITION) (write_post_work e)"
proof -
  have "goes_on_in (\<lambda>s. write_state s = WRITE_STATE_TRANSITION)
      (case wst of
         WORK_ERROR \<Rightarrow> do { check_fatal; finish SUB_STATE_ERROR }
       | WORK_FINISHED_CONTINUE \<Rightarrow> do { change (\<lambda>s. s\<lparr>write_state := WRITE_STATE_TRANSITION\<rparr>); again }
       | WORK_FINISHED_STOP \<Rightarrow> finish SUB_STATE_END_HANDSHAKE
       | _ \<Rightarrow> finish SUB_STATE_ERROR)" for wst
    by (cases wst) (simp_all add: goes_on_rules(1,2,6))
  then show ?thesis
    unfolding write_post_work_def by (intro goes_on_rules(3))
qed

lemma write_send_goes_on: "goes_on_in (\<lambda>s. write_state s = WRITE_STATE_TRANSITION) (write_send e)"
  unfolding write_send_def by (intro goes_on_rules write_post_work_goes_on)

lemma write_message_goes_on:
  "goes_on_in (\<lambda>s. write_state s \<in> {WRITE_STATE_TRANSITION, WRITE_STATE_POST_WORK}) (write_message e)"
proof -
  let ?P = "\<lambda>s. write_state s \<in> {WRITE_STATE_TRANSITION, WRITE_STATE_POST_WORK}"
  have send: "goes_on_in ?P (write_send e)"
    using write_send_goes_on [of e] by (auto simp: goes_on_in_def)
  have post: "goes_on_in ?P (do { to_post_work; again })"
    unfolding to_post_work_def by (rule goes_on_rules(2)) simp
  have sent: "goes_on_in ?P
      (case ret of
         CON_FUNC_ERROR \<Rightarrow> do { check_fatal; finish SUB_STATE_ERROR }
       | CON_FUNC_DONT_SEND \<Rightarrow> do { to_post_work; again }
       | CON_FUNC_SUCCESS \<Rightarrow> do {
           ok \<leftarrow> call (finish_packet e mt);
           if \<not> ok then fail_fatal else write_send e })" for ret mt
    by (cases ret) (simp_all only: con_func_return.case, intro goes_on_rules(6), intro goes_on_rules(3-5) send, rule post)
  show ?thesis
    unfolding write_message_def
    apply (rule goes_on_rules(3))
    subgoal for h
      by (cases "ossl_statem_client_construct_message h"; simp only: option.case prod.case split: prod.split)
        (intro allI impI goes_on_rules(4,5) post goes_on_rules(3) [of _ _ "call k" for k] goes_on_rules(3) [OF sent])+
    done
qed

lemma write_pre_work_goes_on:
  "goes_on_in (\<lambda>s. write_state s \<in> {WRITE_STATE_TRANSITION, WRITE_STATE_POST_WORK}) (write_pre_work e)"
proof -
  have "goes_on_in (\<lambda>s. write_state s \<in> {WRITE_STATE_TRANSITION, WRITE_STATE_POST_WORK})
      (case wst of
         WORK_ERROR \<Rightarrow> do { check_fatal; finish SUB_STATE_ERROR }
       | WORK_FINISHED_CONTINUE \<Rightarrow> do { change (\<lambda>s. s\<lparr>write_state := WRITE_STATE_SEND\<rparr>); write_message e }
       | WORK_FINISHED_STOP \<Rightarrow> finish SUB_STATE_END_HANDSHAKE
       | _ \<Rightarrow> finish SUB_STATE_ERROR)" for wst
    using goes_on_rules(3) [OF write_message_goes_on]
    by (cases wst) (simp_all add: goes_on_rules(1,6))
  then show ?thesis
    unfolding write_pre_work_def by (intro goes_on_rules(3))
qed

text \<open>How many messages may still be sent before the sub-machine returns, for the states of a client that sends no early data.\<close>

definition rank13 :: "handshake_state \<Rightarrow> nat" where
  "rank13 h = (case h of
      TLS_ST_CW_CLNT_HELLO \<Rightarrow> 0
    | TLS_ST_CW_CERT_VRFY \<Rightarrow> 2
    | TLS_ST_OK \<Rightarrow> 2
    | TLS_ST_CW_CERT \<Rightarrow> 3
    | TLS_ST_CW_COMP_CERT \<Rightarrow> 3
    | TLS_ST_CR_SRVR_HELLO \<Rightarrow> 4
    | TLS_ST_CW_CHANGE \<Rightarrow> 4
    | TLS_ST_CW_END_OF_EARLY_DATA \<Rightarrow> 4
    | TLS_ST_CR_CERT_REQ \<Rightarrow> 4
    | TLS_ST_PENDING_EARLY_DATA_END \<Rightarrow> 5
    | TLS_ST_CR_FINISHED \<Rightarrow> 6
    | _ \<Rightarrow> 1)"

definition rank12 :: "handshake_state \<Rightarrow> nat" where
  "rank12 h = (case h of
      TLS_ST_CW_CLNT_HELLO \<Rightarrow> 0
    | TLS_ST_CW_NEXT_PROTO \<Rightarrow> 2
    | TLS_ST_CW_CHANGE \<Rightarrow> 3
    | TLS_ST_CW_CERT_VRFY \<Rightarrow> 4
    | TLS_ST_CR_SRVR_HELLO \<Rightarrow> 4
    | TLS_ST_CR_FINISHED \<Rightarrow> 4
    | TLS_ST_CW_KEY_EXCH \<Rightarrow> 5
    | TLS_ST_CW_CERT \<Rightarrow> 6
    | TLS_ST_CR_SRVR_DONE \<Rightarrow> 7
    | _ \<Rightarrow> 1)"

definition write_rank :: "ssl_connection \<Rightarrow> nat" where
  "write_rank s = (if SSL_CONNECTION_IS_TLS13 s then rank13 (hand_state s) else rank12 (hand_state s))"

definition write_measure :: "ssl_connection \<Rightarrow> nat" where
  "write_measure s =
     (if write_state s = WRITE_STATE_PRE_WORK \<and> hand_state s = TLS_ST_OK then 0
      else 3 * write_rank s + (case write_state s of
          WRITE_STATE_TRANSITION \<Rightarrow> 0
        | WRITE_STATE_PRE_WORK \<Rightarrow> 2
        | _ \<Rightarrow> 1))"

lemma write_rank_same_state: "same_state s s' \<Longrightarrow> write_rank s' = write_rank s"
  by (cases "hand_state s") (simp_all add: same_state_def negotiating_def write_rank_def rank13_def rank12_def)

lemma write_rank_bound: "write_rank s \<le> 7"
  by (simp add: write_rank_def rank13_def rank12_def split: handshake_state.split)

lemma rank13_transition:
  assumes "ossl_statem_client13_write_transition s = (WRITE_TRAN_CONTINUE, s')"
  shows "rank13 (hand_state s) > 0 \<and> (hand_state s' = TLS_ST_OK \<or> rank13 (hand_state s') < rank13 (hand_state s)) \<and>
    SSL_CONNECTION_IS_TLS13 s' = SSL_CONNECTION_IS_TLS13 s"
  using assms
  by (cases "hand_state s")
    (auto simp: ossl_statem_client13_write_transition_def go_on_def write_error_def client_cert_or_finished_def rank13_def
      split: if_splits)

lemma rank12_transition:
  assumes "client12_write_transition calls s = (WRITE_TRAN_CONTINUE, s')" "early_data_state s = SSL_EARLY_DATA_NONE"
  shows "rank12 (hand_state s) > 0 \<and> (hand_state s' = TLS_ST_OK \<or> rank12 (hand_state s') < rank12 (hand_state s)) \<and>
    SSL_CONNECTION_IS_TLS13 s' = SSL_CONNECTION_IS_TLS13 s"
  using assms
  by (cases "hand_state s")
    (auto simp: client12_write_transition_def go_on_def write_error_def rank12_def SSL_CONNECTION_IS_TLS13_def
      split: if_splits)

lemma transition_rank:
  assumes "ossl_statem_client_write_transition calls s = (WRITE_TRAN_CONTINUE, s')" "early_data_state s = SSL_EARLY_DATA_NONE"
  shows "write_rank s > 0 \<and> (hand_state s' = TLS_ST_OK \<or> write_rank s' < write_rank s)"
  using assms rank13_transition [of s s'] rank12_transition [of calls s s']
  by (simp add: ossl_statem_client_write_transition_def write_rank_def split: if_splits)

text \<open>In the state \<^const>\<open>TLS_ST_OK\<close> the work before a message ends the handshake or fails.\<close>

lemma write_pre_work_ok:
  assumes "flow_env_ok e" "write_ok WRITE_STATE_PRE_WORK x" "run_state (write_pre_work e) x = (None, y)"
  shows "hand_state (conn x) \<noteq> TLS_ST_OK"
proof
  assume ok: "hand_state (conn x) = TLS_ST_OK"
  obtain wst z where w: "run_state (ossl_statem_client_pre_work e) x = (wst, z)" by fastforce
  with ok have "run_state (tls_finish_handshake e True True) x = (wst, z)"
    by (simp add: ossl_statem_client_pre_work_def State_Monad.bind_def look_def)
  moreover have "end_ok x" using assms(2) ok by (simp add: write_ok_def end_ok_def hello_reset_def)
  ultimately have "wst = WORK_FINISHED_STOP \<or> wst = WORK_ERROR"
    using validD [OF finish_handshake_valid [OF assms(1)]] by blast
  with w assms(3) show False
    by (auto simp: write_pre_work_def State_Monad.bind_def State_Monad.return_def change_def check_fatal_def finish_def)
qed

lemma write_next_decreases:
  assumes "write_ok WRITE_STATE_TRANSITION x" "run_state (write_next e) x = (None, y)"
  shows "write_measure (conn y) < write_measure (conn x)"
proof -
  let ?c = "transition_calls e (net x)"
  obtain t s where t: "ossl_statem_client_write_transition ?c (conn x) = (t, s)" by fastforce
  with assms(2) have r: "t = WRITE_TRAN_CONTINUE"
      "conn y = s\<lparr>write_state := WRITE_STATE_PRE_WORK, write_state_work := WORK_MORE_A\<rparr>"
    by (auto simp: write_next_def write_transition_def State_Monad.bind_def State_Monad.return_def change_def again_def
      finish_def check_fatal_def split: write_tran.splits)
  have st: "write_state (conn x) = WRITE_STATE_TRANSITION" and "tls_run Writing (conn x) (received x)"
    using assms(1) by (simp_all add: write_ok_def)
  then have "early_data_state (conn x) = SSL_EARLY_DATA_NONE"
    using tls_run_inv by (auto simp: run_inv_def)
  from transition_rank [OF _ this] t r(1)
  have "write_rank (conn x) > 0 \<and> (hand_state s = TLS_ST_OK \<or> write_rank s < write_rank (conn x))" by simp
  moreover have "write_rank (conn y) = write_rank s" "hand_state (conn y) = hand_state s"
    using r(2) by (simp_all add: write_rank_def SSL_CONNECTION_IS_TLS13_def)
  ultimately show ?thesis using r(2) st by (auto simp: write_measure_def)
qed

lemma write_step_decreases:
  assumes "flow_env_ok e" "write_live x" "run_state (write_step e) x = (None, y)"
  shows "write_measure (conn y) < write_measure (conn x)"
proof -
  from assms(2,3) obtain st where x: "write_ok st x" and r: "run_state (case st of
       WRITE_STATE_TRANSITION \<Rightarrow> write_next e
     | WRITE_STATE_PRE_WORK \<Rightarrow> write_pre_work e
     | WRITE_STATE_SEND \<Rightarrow> write_send e
     | WRITE_STATE_POST_WORK \<Rightarrow> write_post_work e) x = (None, y)"
    by (auto simp: write_step_def State_Monad.bind_def look_def write_live_def write_ok_def)
  from x have st: "write_state (conn x) = st" by (simp add: write_ok_def)
  show ?thesis
  proof (cases st)
    case WRITE_STATE_TRANSITION
    with x r write_next_decreases show ?thesis by fastforce
  next
    case WRITE_STATE_PRE_WORK
    with x r have "hand_state (conn x) \<noteq> TLS_ST_OK" using write_pre_work_ok [OF assms(1)] by fastforce
    moreover have "same_state (conn x) (conn y)"
      using write_pre_work_steady [OF assms(1)] r WRITE_STATE_PRE_WORK by (auto simp: steady_def)
    moreover have "write_state (conn y) \<in> {WRITE_STATE_TRANSITION, WRITE_STATE_POST_WORK}"
      using write_pre_work_goes_on [of e] r WRITE_STATE_PRE_WORK by (auto simp: goes_on_in_def)
    ultimately show ?thesis
      using st WRITE_STATE_PRE_WORK write_rank_same_state by (auto simp: write_measure_def)
  next
    case WRITE_STATE_SEND
    have "same_state (conn x) (conn y)"
      using write_send_steady [OF assms(1)] r WRITE_STATE_SEND by (auto simp: steady_def)
    moreover have "write_state (conn y) = WRITE_STATE_TRANSITION"
      using write_send_goes_on [of e] r WRITE_STATE_SEND by (auto simp: goes_on_in_def)
    ultimately show ?thesis
      using st WRITE_STATE_SEND write_rank_same_state by (auto simp: write_measure_def)
  next
    case WRITE_STATE_POST_WORK
    have "same_state (conn x) (conn y)"
      using write_post_work_steady [OF assms(1)] r WRITE_STATE_POST_WORK by (auto simp: steady_def)
    moreover have "write_state (conn y) = WRITE_STATE_TRANSITION"
      using write_post_work_goes_on [of e] r WRITE_STATE_POST_WORK by (auto simp: goes_on_in_def)
    ultimately show ?thesis
      using st WRITE_STATE_POST_WORK write_rank_same_state by (auto simp: write_measure_def)
  qed
qed

text \<open>A loop whose rounds decrease a measure returns.\<close>

lemma sub_state_loop_returns:
  assumes "P x" "\<mu> x < n" "\<And>x y. P x \<Longrightarrow> run_state step x = (None, y) \<Longrightarrow> P y \<and> \<mu> y < \<mu> x"
  shows "\<exists>ret y. sub_state_loop step n x = Some (ret, y)"
  using assms(1,2)
proof (induction n arbitrary: x)
  case (Suc n)
  obtain a y where r: "run_state step x = (a, y)" by fastforce
  show ?case
  proof (cases a)
    case None
    with assms(3) [OF Suc.prems(1)] r have "P y" "\<mu> y < n" using Suc.prems(2) by fastforce+
    with Suc.IH r None show ?thesis by fastforce
  qed (use r in auto)
qed simp

lemma write_returns:
  assumes "flow_env_ok e" "write_live x" "24 \<le> n"
  shows "\<exists>ret y. write_state_machine e n x = Some (ret, y)"
  unfolding write_state_machine_def
proof (rule sub_state_loop_returns [where P = write_live and \<mu> = "\<lambda>x. write_measure (conn x)"])
  show "write_measure (conn x) < n"
    using write_rank_bound [of "conn x"] assms(3) by (auto simp: write_measure_def split: write_state.split)
next
  fix x y :: "'a tls_state"
  assume "write_live x" "run_state (write_step e) x = (None, y)"
  then show "write_live y \<and> write_measure (conn y) < write_measure (conn x)"
    using validD [OF write_step_valid [OF assms(1)], of x None y] write_step_decreases [OF assms(1)]
    by (auto simp: write_result_def)
qed (rule assms(2))

subsection \<open>Input\<close>

text \<open>
  The server sends finitely many messages: \<open>\<mu>\<close> bounds the number of headers that can still be read, and no call adds to it.
\<close>

definition input_kept :: "('w \<Rightarrow> nat) \<Rightarrow> ('w, 'a) external \<Rightarrow> bool" where
  "input_kept \<mu> f \<longleftrightarrow> (\<forall>s w. \<mu> (snd (snd (f s w))) \<le> \<mu> w)"

definition finite_input :: "('w \<Rightarrow> nat) \<Rightarrow> 'w flow_env \<Rightarrow> bool" where
  "finite_input \<mu> e \<longleftrightarrow>
     input_kept \<mu> (reset_method e) \<and> input_kept \<mu> (ssl_security_version e) \<and> input_kept \<mu> (new_init_buf e) \<and>
     input_kept \<mu> (ssl_init_wbio_buffer e) \<and> input_kept \<mu> (setup_checks e) \<and> input_kept \<mu> (tls_get_message_header e) \<and>
     input_kept \<mu> (grow_init_buf e) \<and> input_kept \<mu> (tls_get_message_body e) \<and> (\<forall>f. input_kept \<mu> (tls_process e f)) \<and>
     (\<forall>t. input_kept \<mu> (tls_post_process_server_certificate e t)) \<and> (\<forall>t. input_kept \<mu> (tls_prepare_client_certificate e t)) \<and>
     input_kept \<mu> (ssl_set_new_record_layer e) \<and> input_kept \<mu> (ssl_free_wbio_buffer e) \<and> (\<forall>mt. input_kept \<mu> (start_packet e mt)) \<and>
     (\<forall>c. input_kept \<mu> (tls_construct e c)) \<and> (\<forall>mt. input_kept \<mu> (finish_packet e mt)) \<and> input_kept \<mu> (statem_do_write e) \<and>
     input_kept \<mu> (statem_flush e) \<and> input_kept \<mu> (tls_client_key_exchange_post_work e) \<and>
     input_kept \<mu> (tls13_change_cipher_state e) \<and> input_kept \<mu> (setup_key_block e) \<and> input_kept \<mu> (change_cipher_state e) \<and>
     input_kept \<mu> (tls13_save_handshake_digest_for_pha e) \<and> input_kept \<mu> (tls13_update_key e) \<and>
     (\<forall>s w mt s' w'. tls_get_message_header e s w = (Some mt, s', w') \<longrightarrow> \<mu> w' < \<mu> w)"

lemma finite_inputD:
  assumes "finite_input \<mu> e"
  shows "input_kept \<mu> (reset_method e)" "input_kept \<mu> (ssl_security_version e)" "input_kept \<mu> (new_init_buf e)"
    "input_kept \<mu> (ssl_init_wbio_buffer e)" "input_kept \<mu> (setup_checks e)" "input_kept \<mu> (tls_get_message_header e)"
    "input_kept \<mu> (grow_init_buf e)" "input_kept \<mu> (tls_get_message_body e)" "input_kept \<mu> (tls_process e f)"
    "input_kept \<mu> (tls_post_process_server_certificate e t)" "input_kept \<mu> (tls_prepare_client_certificate e t)"
    "input_kept \<mu> (ssl_set_new_record_layer e)" "input_kept \<mu> (ssl_free_wbio_buffer e)" "input_kept \<mu> (start_packet e mt)"
    "input_kept \<mu> (tls_construct e c)" "input_kept \<mu> (finish_packet e mt)" "input_kept \<mu> (statem_do_write e)"
    "input_kept \<mu> (statem_flush e)" "input_kept \<mu> (tls_client_key_exchange_post_work e)"
    "input_kept \<mu> (tls13_change_cipher_state e)" "input_kept \<mu> (setup_key_block e)" "input_kept \<mu> (change_cipher_state e)"
    "input_kept \<mu> (tls13_save_handshake_digest_for_pha e)" "input_kept \<mu> (tls13_update_key e)"
  using assms unfolding finite_input_def by simp_all

definition uses_input :: "('w \<Rightarrow> nat) \<Rightarrow> ('w, 'a) tls \<Rightarrow> bool" where
  "uses_input \<mu> m \<longleftrightarrow> (\<forall>x a y. run_state m x = (a, y) \<longrightarrow> \<mu> (net y) \<le> \<mu> (net x))"

lemma uses_bind: "uses_input \<mu> m \<Longrightarrow> (\<And>a. uses_input \<mu> (f a)) \<Longrightarrow> uses_input \<mu> (State_Monad.bind m f)"
  unfolding uses_input_def State_Monad.bind_def by (auto split: prod.splits) (meson le_trans)

lemma uses_call: "input_kept \<mu> k \<Longrightarrow> uses_input \<mu> (call k)"
  by (auto simp: uses_input_def input_kept_def call_def split: prod.splits) (metis snd_conv)

lemma uses_change: "uses_input \<mu> (change f)"
  by (simp add: uses_input_def change_def)

lemma uses_rules:
  "uses_input \<mu> (State_Monad.return a)" "uses_input \<mu> (look g)" "uses_input \<mu> check_fatal" "uses_input \<mu> again"
  "uses_input \<mu> fail_fatal" "uses_input \<mu> (finish r)" "uses_input \<mu> to_post_work" "uses_input \<mu> (continue_if ok)"
  "uses_input \<mu> init_fatal"
  "(b \<Longrightarrow> uses_input \<mu> m1) \<Longrightarrow> (\<not> b \<Longrightarrow> uses_input \<mu> m2) \<Longrightarrow> uses_input \<mu> (if b then m1 else m2)"
  by (auto simp: uses_input_def again_def finish_def look_def State_Monad.return_def continue_if_def to_post_work_def
    change_def check_fatal_def fail_fatal_def init_fatal_def State_Monad.bind_def)

lemma read_transition_uses: "uses_input \<mu> (read_transition e mt)"
  by (auto simp: uses_input_def read_transition_def split: prod.splits)

lemma write_transition_uses: "uses_input \<mu> (write_transition e)"
  by (auto simp: uses_input_def write_transition_def split: prod.splits)

lemmas uses = uses_bind uses_call uses_change uses_rules

lemma process_uses:
  assumes "finite_input \<mu> e"
  shows "uses_input \<mu> (ossl_statem_client_process_message e)"
  unfolding ossl_statem_client_process_message_def
  by (intro uses) (auto split: option.split intro!: uses finite_inputD [OF assms])

lemma post_process_uses:
  assumes "finite_input \<mu> e"
  shows "uses_input \<mu> (ossl_statem_client_post_process_message e wst)"
  unfolding ossl_statem_client_post_process_message_def
  by (intro uses) (auto split: handshake_state.split intro!: uses finite_inputD [OF assms])

lemma read_body_uses:
  assumes "finite_input \<mu> e"
  shows "uses_input \<mu> (read_body e)"
  unfolding read_body_def
  by (intro uses finite_inputD [OF assms] process_uses [OF assms]) (auto split: msg_process_return.split intro!: uses)

lemma read_post_process_uses:
  assumes "finite_input \<mu> e"
  shows "uses_input \<mu> (read_post_process e)"
  unfolding read_post_process_def
  by (intro uses post_process_uses [OF assms]) (auto split: work_state.split intro!: uses)

lemma pre_work_uses:
  assumes "finite_input \<mu> e"
  shows "uses_input \<mu> (ossl_statem_client_pre_work e)"
proof -
  have "uses_input \<mu> (tls_finish_handshake e b b')" for b b'
    unfolding tls_finish_handshake_def by (intro uses finite_inputD [OF assms])
  then show ?thesis
    unfolding ossl_statem_client_pre_work_def
    by (intro uses) (auto split: handshake_state.split intro!: uses finite_inputD [OF assms])
qed

lemma post_work_uses:
  assumes "finite_input \<mu> e"
  shows "uses_input \<mu> (ossl_statem_client_post_work e)"
proof -
  have "uses_input \<mu> (post_work_change e s)" for s
    unfolding post_work_change_def by (intro uses finite_inputD [OF assms])
  moreover have "uses_input \<mu> (post_work_finished e)"
    unfolding post_work_finished_def by (intro uses finite_inputD [OF assms])
  ultimately show ?thesis
    unfolding ossl_statem_client_post_work_def
    by (intro uses) (auto split: handshake_state.split intro!: uses finite_inputD [OF assms])
qed

lemma write_step_uses:
  assumes "finite_input \<mu> e"
  shows "uses_input \<mu> (write_step e)"
proof -
  have post: "uses_input \<mu> (write_post_work e)"
    unfolding write_post_work_def
    by (intro uses post_work_uses [OF assms]) (auto split: work_state.split intro!: uses)
  have send: "uses_input \<mu> (write_send e)"
    unfolding write_send_def by (intro uses finite_inputD [OF assms] post)
  have message: "uses_input \<mu> (write_message e)"
    unfolding write_message_def
    by (intro uses) (auto split: option.split con_func_return.split intro!: uses finite_inputD [OF assms] send)
  have pre: "uses_input \<mu> (write_pre_work e)"
    unfolding write_pre_work_def
    by (intro uses pre_work_uses [OF assms]) (auto split: work_state.split intro!: uses message)
  have "uses_input \<mu> (write_next e)"
    unfolding write_next_def
    by (intro uses write_transition_uses) (auto split: write_tran.split intro!: uses)
  with post send pre show ?thesis
    unfolding write_step_def by (intro uses) (auto split: write_state.split)
qed

lemma sub_state_loop_uses:
  assumes "uses_input \<mu> step" "sub_state_loop step n x = Some (ret, y)"
  shows "\<mu> (net y) \<le> \<mu> (net x)"
  using assms(2)
proof (induction n arbitrary: x)
  case (Suc n)
  obtain a z where r: "run_state step x = (a, z)" by fastforce
  with assms(1) have "\<mu> (net z) \<le> \<mu> (net x)" by (auto simp: uses_input_def)
  with Suc r show ?case by (cases a) fastforce+
qed simp

subsection \<open>Reading\<close>

text \<open>Reading a message uses up input.\<close>

lemma read_message_header_uses:
  assumes "finite_input \<mu> e" "run_state (read_message_header e) x = (a, y)"
  shows "\<mu> (net y) \<le> \<mu> (net x)" "a \<noteq> Some SUB_STATE_ERROR \<Longrightarrow> \<mu> (net y) < \<mu> (net x)"
proof -
  obtain hdr z where h: "run_state (call (tls_get_message_header e)) x = (hdr, z)" by fastforce
  have "\<mu> (net y) \<le> \<mu> (net x) \<and> (a \<noteq> Some SUB_STATE_ERROR \<longrightarrow> \<mu> (net y) < \<mu> (net x))"
  proof (cases hdr)
    case None
    have "\<mu> (net z) \<le> \<mu> (net x)"
      using uses_call [OF finite_inputD(6) [OF assms(1)]] h by (auto simp: uses_input_def)
    with None h assms(2) show ?thesis
      by (auto simp: read_message_header_def State_Monad.bind_def finish_def State_Monad.return_def)
  next
    case (Some mt)
    have "\<mu> (net z) < \<mu> (net x)"
      using h Some assms(1) by (auto simp: call_def finite_input_def split: prod.splits)
    moreover have "run_state (do {
         ok \<leftarrow> read_transition e mt;
         if \<not> ok then finish SUB_STATE_ERROR
         else do {
           s \<leftarrow> look id;
           if message_size s > ossl_statem_client_max_message_size s then fail_fatal
           else do {
             ok \<leftarrow> (if message_size s > 0 then call (grow_init_buf e) else State_Monad.return True);
             if \<not> ok then fail_fatal
             else do {
               change (\<lambda>s. s\<lparr>read_state := READ_STATE_BODY\<rparr>);
               read_body e } } } }) z = (a, y)" (is "run_state ?m z = _")
      using h Some assms(2) by (simp add: read_message_header_def State_Monad.bind_def [of "call (tls_get_message_header e)"])
    moreover have "uses_input \<mu> ?m"
      by (intro uses read_transition_uses finite_inputD [OF assms(1)] read_body_uses [OF assms(1)])
    ultimately show ?thesis by (fastforce simp: uses_input_def)
  qed
  then show "\<mu> (net y) \<le> \<mu> (net x)" "a \<noteq> Some SUB_STATE_ERROR \<Longrightarrow> \<mu> (net y) < \<mu> (net x)" by blast+
qed

lemma read_body_goes_on:
  "goes_on_in (\<lambda>s. read_state s \<in> {READ_STATE_HEADER, READ_STATE_POST_PROCESS}) (read_body e)"
proof -
  have "goes_on_in (\<lambda>s. read_state s \<in> {READ_STATE_HEADER, READ_STATE_POST_PROCESS})
      (case ret of
         MSG_PROCESS_ERROR \<Rightarrow> do { check_fatal; finish SUB_STATE_ERROR }
       | MSG_PROCESS_FINISHED_READING \<Rightarrow> finish SUB_STATE_FINISHED
       | MSG_PROCESS_CONTINUE_PROCESSING \<Rightarrow> do {
           change (\<lambda>s. s\<lparr>read_state := READ_STATE_POST_PROCESS, read_state_work := WORK_MORE_A\<rparr>);
           again }
       | MSG_PROCESS_CONTINUE_READING \<Rightarrow> do { change (\<lambda>s. s\<lparr>read_state := READ_STATE_HEADER\<rparr>); again })" for ret
    by (cases ret) (simp_all add: goes_on_rules(1,2,6))
  then show ?thesis
    unfolding read_body_def by (intro goes_on_rules(3) goes_on_rules(4) goes_on_rules(1))
qed

lemma read_message_header_goes_on:
  "goes_on_in (\<lambda>s. read_state s \<in> {READ_STATE_HEADER, READ_STATE_POST_PROCESS}) (read_message_header e)"
  unfolding read_message_header_def
  apply (rule goes_on_rules(3))
  subgoal for hdr
    by (cases hdr; simp only: option.case)
      (intro goes_on_rules(1), intro goes_on_rules(3) goes_on_rules(4) goes_on_rules(1,5) read_body_goes_on)
  done

lemma read_post_process_goes_on: "goes_on_in (\<lambda>s. read_state s = READ_STATE_HEADER) (read_post_process e)"
proof -
  have "goes_on_in (\<lambda>s. read_state s = READ_STATE_HEADER)
      (case wst of
         WORK_ERROR \<Rightarrow> do { check_fatal; finish SUB_STATE_ERROR }
       | WORK_FINISHED_CONTINUE \<Rightarrow> do { change (\<lambda>s. s\<lparr>read_state := READ_STATE_HEADER\<rparr>); again }
       | WORK_FINISHED_STOP \<Rightarrow> finish SUB_STATE_FINISHED
       | _ \<Rightarrow> finish SUB_STATE_ERROR)" for wst
    by (cases wst) (simp_all add: goes_on_rules(1,2,6))
  then show ?thesis
    unfolding read_post_process_def by (intro goes_on_rules(3))
qed

definition read_measure :: "('w \<Rightarrow> nat) \<Rightarrow> 'w tls_state \<Rightarrow> nat" where
  "read_measure \<mu> x = 3 * \<mu> (net x) + (case read_state (conn x) of
      READ_STATE_HEADER \<Rightarrow> 0
    | READ_STATE_POST_PROCESS \<Rightarrow> 1
    | READ_STATE_BODY \<Rightarrow> 2)"

lemma read_step_run:
  "run_state (read_step e) x = run_state (case read_state (conn x) of
       READ_STATE_HEADER \<Rightarrow> read_message_header e
     | READ_STATE_BODY \<Rightarrow> read_body e
     | READ_STATE_POST_PROCESS \<Rightarrow> read_post_process e) x"
  by (simp add: read_step_def State_Monad.bind_def look_def)

lemma read_step_decreases:
  assumes "finite_input \<mu> e" "run_state (read_step e) x = (None, y)"
  shows "read_measure \<mu> y < read_measure \<mu> x"
proof (cases "read_state (conn x)")
  case READ_STATE_HEADER
  with assms(2) have r: "run_state (read_message_header e) x = (None, y)" by (simp add: read_step_run)
  then have "read_state (conn y) \<in> {READ_STATE_HEADER, READ_STATE_POST_PROCESS}"
    using read_message_header_goes_on [of e] by (auto simp: goes_on_in_def)
  with read_message_header_uses(2) [OF assms(1) r] READ_STATE_HEADER show ?thesis
    by (auto simp: read_measure_def)
next
  case READ_STATE_BODY
  with assms(2) have r: "run_state (read_body e) x = (None, y)" by (simp add: read_step_run)
  then have "read_state (conn y) \<in> {READ_STATE_HEADER, READ_STATE_POST_PROCESS}" "\<mu> (net y) \<le> \<mu> (net x)"
    using read_body_goes_on [of e] read_body_uses [OF assms(1)] by (auto simp: goes_on_in_def uses_input_def)
  with READ_STATE_BODY show ?thesis by (auto simp: read_measure_def)
next
  case READ_STATE_POST_PROCESS
  with assms(2) have r: "run_state (read_post_process e) x = (None, y)" by (simp add: read_step_run)
  then have "read_state (conn y) = READ_STATE_HEADER" "\<mu> (net y) \<le> \<mu> (net x)"
    using read_post_process_goes_on [of e] read_post_process_uses [OF assms(1)] by (auto simp: goes_on_in_def uses_input_def)
  with READ_STATE_POST_PROCESS show ?thesis by (auto simp: read_measure_def)
qed

lemma read_step_uses:
  assumes "finite_input \<mu> e"
  shows "uses_input \<mu> (read_step e)"
  unfolding uses_input_def read_step_run
  using read_message_header_uses(1) [OF assms] read_body_uses [OF assms] read_post_process_uses [OF assms]
  by (auto simp: uses_input_def split: read_state.split)

abbreviation first_init :: "'w tls_state \<Rightarrow> 'w tls_state" where
  "first_init x \<equiv> (if read_state_first_init (conn x)
     then x\<lparr>conn := (conn x)\<lparr>first_packet := True, read_state_first_init := False\<rparr>\<rparr> else x)"

lemma read_returns:
  assumes "finite_input \<mu> e" "3 * \<mu> (net x) + 3 \<le> n"
  shows "\<exists>ret y. read_state_machine e n x = Some (ret, y)"
  unfolding read_state_machine_def
proof (rule sub_state_loop_returns [where P = "\<lambda>_. True" and \<mu> = "read_measure \<mu>"])
  show "read_measure \<mu> (first_init x) < n"
    using assms(2) by (auto simp: read_measure_def split: read_state.split)
qed (auto dest: read_step_decreases [OF assms(1)])

lemma read_state_machine_uses:
  assumes "finite_input \<mu> e" "read_state_machine e n x = Some (ret, y)"
  shows "\<mu> (net y) \<le> \<mu> (net x)"
    "read_state (conn x) = READ_STATE_HEADER \<Longrightarrow> ret \<noteq> SUB_STATE_ERROR \<Longrightarrow> \<mu> (net y) < \<mu> (net x)"
proof -
  from assms(2) have l: "sub_state_loop (read_step e) n (first_init x) = Some (ret, y)"
    by (simp add: read_state_machine_def)
  from sub_state_loop_uses [OF read_step_uses [OF assms(1)] this] show "\<mu> (net y) \<le> \<mu> (net x)"
    by (simp split: if_splits)
  assume h: "read_state (conn x) = READ_STATE_HEADER" "ret \<noteq> SUB_STATE_ERROR"
  obtain a z where r: "run_state (read_step e) (first_init x) = (a, z)" by fastforce
  then have header: "run_state (read_message_header e) (first_init x) = (a, z)"
    using h(1) by (simp add: read_step_run split: if_splits)
  from l obtain k where n: "n = Suc k" by (cases n) auto
  have "a \<noteq> Some SUB_STATE_ERROR" using l r h(2) n by auto
  from read_message_header_uses(2) [OF assms(1) header this] have z: "\<mu> (net z) < \<mu> (net x)"
    by (simp split: if_splits)
  show "\<mu> (net y) < \<mu> (net x)"
  proof (cases a)
    case None
    with l r n have "sub_state_loop (read_step e) k z = Some (ret, y)" by simp
    from sub_state_loop_uses [OF read_step_uses [OF assms(1)] this] z show ?thesis by simp
  next
    case (Some b)
    with l r n z show ?thesis by simp
  qed
qed

subsection \<open>The message flow\<close>

definition flow_measure :: "('w \<Rightarrow> nat) \<Rightarrow> 'w tls_state \<Rightarrow> nat" where
  "flow_measure \<mu> x = (case flow_state (conn x) of
      MSG_FLOW_WRITING \<Rightarrow> 2 * \<mu> (net x) + 2
    | MSG_FLOW_READING \<Rightarrow> 2 * \<mu> (net x) + (if read_state (conn x) = READ_STATE_HEADER then 1 else 3)
    | _ \<Rightarrow> 0)"

lemma flow_loop_returns:
  assumes "flow_env_ok e" "finite_input \<mu> e" "flow_inv x" "flow_state (conn x) \<noteq> MSG_FLOW_UNINITED"
    "flow_measure \<mu> x < k" "3 * \<mu> (net x) + 24 \<le> n"
  shows "\<exists>ok y. flow_loop e n k x = Some (ok, y)"
  using assms(3-6)
proof (induction k arbitrary: x)
  case (Suc k)
  show ?case
  proof (cases "flow_state (conn x)")
    case MSG_FLOW_READING
    obtain ret z where r: "read_state_machine e n x = Some (ret, z)"
      using read_returns [OF assms(2), of x n] Suc.prems(4) by auto
    have "read_live x" using Suc.prems(1) MSG_FLOW_READING by (simp add: flow_inv_def)
    note v = read_state_machine_valid [OF assms(1) this r] and u = read_state_machine_uses [OF assms(2) r]
    show ?thesis
    proof (cases "ret = SUB_STATE_FINISHED")
      case True
      let ?z = "z\<lparr>conn := (conn z)\<lparr>flow_state := MSG_FLOW_WRITING, write_state := WRITE_STATE_TRANSITION\<rparr>\<rparr>"
      have "flow_inv ?z" using v True by (intro flow_inv_writing) (simp_all add: read_result_def)
      moreover have "flow_measure \<mu> ?z < k"
        using u True Suc.prems(3) MSG_FLOW_READING by (auto simp: flow_measure_def split: if_splits)
      ultimately show ?thesis
        using Suc.IH [of ?z] u(1) Suc.prems(4) r MSG_FLOW_READING True by simp
    next
      case False
      with r MSG_FLOW_READING have "flow_loop e n (Suc k) x = Some (False, z)" by (cases ret) simp_all
      then show ?thesis by blast
    qed
  next
    case MSG_FLOW_WRITING
    have live: "write_live x" using Suc.prems(1) MSG_FLOW_WRITING by (simp add: flow_inv_def)
    obtain ret z where r: "write_state_machine e n x = Some (ret, z)"
      using write_returns [OF assms(1) live, of n] Suc.prems(4) by auto
    note v = write_state_machine_valid [OF assms(1) live r]
    have u: "\<mu> (net z) \<le> \<mu> (net x)"
      using sub_state_loop_uses [OF write_step_uses [OF assms(2)]] r by (simp add: write_state_machine_def)
    show ?thesis
    proof (cases ret)
      case SUB_STATE_FINISHED
      let ?z = "z\<lparr>conn := (conn z)\<lparr>flow_state := MSG_FLOW_READING, read_state := READ_STATE_HEADER\<rparr>\<rparr>"
      have "flow_inv ?z" using v SUB_STATE_FINISHED by (intro flow_inv_reading) (simp_all add: write_result_def)
      moreover have "flow_measure \<mu> ?z < k"
        using u Suc.prems(3) MSG_FLOW_WRITING by (simp add: flow_measure_def)
      ultimately show ?thesis
        using Suc.IH [of ?z] u Suc.prems(4) r MSG_FLOW_WRITING SUB_STATE_FINISHED by simp
    next
      case SUB_STATE_END_HANDSHAKE
      let ?z = "z\<lparr>conn := (conn z)\<lparr>flow_state := MSG_FLOW_FINISHED\<rparr>\<rparr>"
      have "k > 0" using Suc.prems(3) MSG_FLOW_WRITING by (simp add: flow_measure_def)
      then have "flow_loop e n k ?z = Some (True, ?z)" by (cases k) simp_all
      with r MSG_FLOW_WRITING SUB_STATE_END_HANDSHAKE show ?thesis by auto
    next
      case SUB_STATE_ERROR
      with r MSG_FLOW_WRITING have "flow_loop e n (Suc k) x = Some (False, z)" by simp
      then show ?thesis by blast
    qed
  qed (use Suc.prems in auto)
qed simp

lemma reset_uses:
  assumes "finite_input \<mu> e"
  shows "uses_input \<mu> (ossl_ssl_connection_reset e)"
  unfolding ossl_ssl_connection_reset_def by (intro uses finite_inputD [OF assms])

lemma init_flow_uses:
  assumes "finite_input \<mu> e"
  shows "uses_input \<mu> (init_flow e)"
  unfolding init_flow_def init_handshake_def setup_handshake_def by (intro uses finite_inputD [OF assms])

lemma flow_measure_bound: "flow_measure \<mu> x \<le> 2 * \<mu> (net x) + 3"
  by (simp add: flow_measure_def split: msg_flow_state.split)

lemma state_machine_returns:
  assumes "flow_env_ok e" "finite_input \<mu> e" "flow_inv x" "flow_state (conn x) \<noteq> MSG_FLOW_FINISHED" "3 * \<mu> (net x) + 24 \<le> n"
  shows "\<exists>ret y. state_machine e n x = Some (ret, y)"
proof (cases "flow_state (conn x) = MSG_FLOW_ERROR")
  case True
  then show ?thesis by (simp add: state_machine_def)
next
  case False
  obtain ok x2 where e: "entered e x = (ok, x2)" by fastforce
  obtain ok' x3 where i: "initialised e x2 = (ok', x3)" by fastforce
  note e_inv = entered_inv [OF assms(1,3) _ e]
  note i_inv = initialised_inv [OF assms(1) e_inv i]
  have "\<mu> (net x2) \<le> \<mu> (net x)"
    using reset_uses [OF assms(2)] e by (fastforce simp: entered_def uses_input_def Let_def split: if_splits)
  moreover have "\<mu> (net x3) \<le> \<mu> (net x2)"
    using init_flow_uses [OF assms(2)] i by (auto simp: initialised_def uses_input_def split: if_splits)
  ultimately have "3 * \<mu> (net x3) + 24 \<le> n" "flow_measure \<mu> x3 < n"
    using assms(5) flow_measure_bound [of \<mu> x3] by simp_all
  then have "ok' \<Longrightarrow> \<exists>ok y. flow_loop e n n x3 = Some (ok, y)"
    using flow_loop_returns [OF assms(1,2)] i_inv False assms(4) by simp
  then show ?thesis
    using e i state_machine_parts [OF False, of e n] by (cases ok; cases ok') auto
qed

end
