(* ===== verification/Tls_Script.thy ===== *)
theory Tls_Script
  imports Tls_Returns
begin

text \<open>
  An instance of the parameters of the message flow, a server that sends a given list of messages, and the evaluation of
  handshakes with it.
\<close>

text \<open>A server that sends a given list of messages and negotiates version \<open>v\<close> with cipher suite \<open>c\<close>.\<close>

definition ok_external :: "('w, bool) external" where
  "ok_external s w = (True, s, w)"

definition script_process :: "int \<Rightarrow> ssl_cipher \<Rightarrow> process_fun \<Rightarrow> (int list, msg_process_return) external" where
  "script_process v c f s w = (case f of
      process_server_hello \<Rightarrow> (MSG_PROCESS_CONTINUE_READING,
        if negotiating (hand_state s) then s\<lparr>method_version := v, new_cipher := c\<rparr> else s, w)
    | process_server_certificate \<Rightarrow> (MSG_PROCESS_CONTINUE_PROCESSING, s, w)
    | process_server_done \<Rightarrow> (MSG_PROCESS_FINISHED_READING, s, w)
    | process_finished \<Rightarrow> (MSG_PROCESS_FINISHED_READING, s, w)
    | _ \<Rightarrow> (MSG_PROCESS_CONTINUE_READING, s, w))"

definition script_header :: "(int list, int option) external" where
  "script_header s w = (case w of [] \<Rightarrow> (None, s, []) | mt # w \<Rightarrow> (Some mt, s, w))"

definition script_env :: "int \<Rightarrow> ssl_cipher \<Rightarrow> int list flow_env" where
  "script_env v c = \<lparr>transition_calls =
       (\<lambda>_. \<lparr>tls13_restore_handshake_digest_for_pha = True, ssl3_renegotiate_check = False, tls_setup_handshake = True\<rparr>),
     reset_method = (\<lambda>s w. (True, if hand_state s = TLS_ST_BEFORE then s\<lparr>tls_version := 772\<rparr> else s, w)),
     ssl_security_version = ok_external, new_init_buf = ok_external,
     ssl_init_wbio_buffer = ok_external, setup_checks = ok_external, tls_get_message_header = script_header,
     grow_init_buf = ok_external, tls_get_message_body = ok_external, tls_process = script_process v c,
     tls_post_process_server_certificate = (\<lambda>_ s w. (WORK_FINISHED_CONTINUE, s, w)),
     tls_prepare_client_certificate = (\<lambda>_ s w. (WORK_FINISHED_CONTINUE, s, w)),
     ssl_set_new_record_layer = ok_external, ssl_free_wbio_buffer = ok_external,
     start_packet = (\<lambda>_. ok_external), tls_construct = (\<lambda>_ s w. (CON_FUNC_SUCCESS, s, w)),
     finish_packet = (\<lambda>_. ok_external), statem_do_write = (\<lambda>s w. (1, s, w)), statem_flush = ok_external,
     tls_client_key_exchange_post_work = ok_external, tls13_change_cipher_state = ok_external,
     setup_key_block = ok_external, change_cipher_state = ok_external,
     tls13_save_handshake_digest_for_pha = ok_external, tls13_update_key = ok_external\<rparr>"

lemma script_env_ok: "flow_env_ok (script_env v c)"
  by (simp add: flow_env_ok_def script_env_def external_ok_def ok_external_def script_header_def script_process_def
    frame_defs negotiating_def split: list.split process_fun.split)

lemma script_env_finite: "finite_input length (script_env v c)"
  by (simp add: finite_input_def script_env_def input_kept_def ok_external_def script_header_def script_process_def
    split: list.split process_fun.split)

definition new_connection :: ssl_connection where
  "new_connection = \<lparr>flow_state = MSG_FLOW_UNINITED, write_state = WRITE_STATE_TRANSITION, write_state_work = WORK_MORE_A,
     read_state = READ_STATE_HEADER, read_state_work = WORK_MORE_A, hand_state = TLS_ST_BEFORE, in_init = True,
     read_state_first_init = False, in_handshake = 0, cleanuphand = False, deflt_version = 65536, first_handshake = True,
     first_packet = False, init_buf = False, init_num = 0, message_size = 0, change_cipher_spec = False, max_early_data = 0,
     is_dtls = False, is_quic = False, method_version = 65536, tls_version = 772, hit = False,
     new_cipher = \<lparr>algorithm_mkey = 0, algorithm_auth = 0\<rparr>, cert_req = 0, skip_cert_verify = False, npn_seen = False,
     ticket_expected = False, status_expected = False, compress_certificate_sent = False, client_cert_x509 = False,
     peer_compresses = False, session_secret_cb = False, session_tick = False, early_data_state = SSL_EARLY_DATA_NONE,
     ext_early_data = 0, hello_retry_request = SSL_HRR_NONE, post_handshake_auth = SSL_PHA_NONE, ssl_options = 0,
     ssl_shutdown = 0, key_update = SSL_KEY_UPDATE_NONE, renegotiate = False, max_cert_list = 102400\<rparr>"

definition new_state :: "int list \<Rightarrow> int list tls_state" where
  "new_state w = \<lparr>conn = new_connection, received = [], net = w\<rparr>"

lemma new_state_connecting: "connecting e (new_state w)"
  by (rule connecting.create) (simp add: fresh_def new_state_def new_connection_def)

subsection \<open>Evaluation\<close>

lemmas run_state_cong = arg_cong [where f = "\<lambda>m. run_state m x" for x]

lemma run_rules:
  "run_state (State_Monad.bind m f) x = (case run_state m x of (a, y) \<Rightarrow> run_state (f a) y)"
  "run_state (State_Monad.return a) x = (a, x)"
  "run_state (look g) x = (g (conn x), x)"
  "run_state (change h) x = ((), x\<lparr>conn := h (conn x)\<rparr>)"
  "run_state (call k) x = (let (a, s, w) = k (conn x) (net x) in (a, x\<lparr>conn := s, net := w\<rparr>))"
  by (simp_all add: State_Monad.bind_def State_Monad.return_def look_def change_def call_def split: prod.split)

lemmas run_functions = run_state_cong [OF finish_def] run_state_cong [OF again_def] run_state_cong [OF check_fatal_def]
  run_state_cong [OF fail_fatal_def] run_state_cong [OF tls_finish_handshake_def] run_state_cong [OF continue_if_def]
  run_state_cong [OF ossl_statem_client_pre_work_def] run_state_cong [OF post_work_change_def]
  run_state_cong [OF post_work_finished_def] run_state_cong [OF ossl_statem_client_post_work_def]
  run_state_cong [OF ossl_statem_client_process_message_def] run_state_cong [OF ossl_statem_client_post_process_message_def]
  run_state_cong [OF read_body_def] run_state_cong [OF read_message_header_def] run_state_cong [OF read_post_process_def]
  run_state_cong [OF read_step_def] run_state_cong [OF write_post_work_def] run_state_cong [OF to_post_work_def]
  run_state_cong [OF write_send_def] run_state_cong [OF write_message_def] run_state_cong [OF write_pre_work_def]
  run_state_cong [OF write_next_def] run_state_cong [OF write_step_def] run_state_cong [OF ossl_ssl_connection_reset_def]
  run_state_cong [OF setup_handshake_def] run_state_cong [OF init_fatal_def] run_state_cong [OF init_handshake_def]
  run_state_cong [OF init_flow_def] run_state_cong [OF write_transition_def] run_state_cong [OF read_transition_def]

lemmas loop_numeral = sub_state_loop.simps(2) [where n = "pred_numeral k" for k, folded numeral_eq_Suc]
  flow_loop.simps(2) [where k = "pred_numeral k" for k, folded numeral_eq_Suc]

lemma script_env_simps:
  "transition_calls (script_env v c) w =
     \<lparr>tls13_restore_handshake_digest_for_pha = True, ssl3_renegotiate_check = False, tls_setup_handshake = True\<rparr>"
  "reset_method (script_env v c) s w = (True, if hand_state s = TLS_ST_BEFORE then s\<lparr>tls_version := 772\<rparr> else s, w)"
  "ssl_security_version (script_env v c) s w = (True, s, w)"
  "new_init_buf (script_env v c) s w = (True, s, w)"
  "ssl_init_wbio_buffer (script_env v c) s w = (True, s, w)"
  "setup_checks (script_env v c) s w = (True, s, w)"
  "tls_get_message_header (script_env v c) s w = script_header s w"
  "grow_init_buf (script_env v c) s w = (True, s, w)"
  "tls_get_message_body (script_env v c) s w = (True, s, w)"
  "tls_process (script_env v c) f s w = script_process v c f s w"
  "tls_post_process_server_certificate (script_env v c) t s w = (WORK_FINISHED_CONTINUE, s, w)"
  "tls_prepare_client_certificate (script_env v c) t s w = (WORK_FINISHED_CONTINUE, s, w)"
  "ssl_free_wbio_buffer (script_env v c) s w = (True, s, w)"
  "start_packet (script_env v c) mt s w = (True, s, w)"
  "tls_construct (script_env v c) k s w = (CON_FUNC_SUCCESS, s, w)"
  "finish_packet (script_env v c) mt s w = (True, s, w)"
  "statem_do_write (script_env v c) s w = (1, s, w)"
  "statem_flush (script_env v c) s w = (True, s, w)"
  "tls_client_key_exchange_post_work (script_env v c) s w = (True, s, w)"
  "setup_key_block (script_env v c) s w = (True, s, w)"
  "change_cipher_state (script_env v c) s w = (True, s, w)"
  "tls13_save_handshake_digest_for_pha (script_env v c) s w = (True, s, w)"
  by (simp_all add: script_env_def ok_external_def)

lemmas script_defs = script_process_def script_header_def script_env_simps new_state_def new_connection_def
  SSL_in_before_def ossl_statem_clear_def handshaking_def negotiating_def SSLfatal_def SSL_CONNECTION_IS_TLS13_def
  client_process_fun_def ossl_statem_client_construct_message_def ossl_statem_client_max_message_size_def
  read_state_machine_def write_state_machine_def ossl_statem_client_read_transition_def
  ossl_statem_client13_read_transition_def read12_defs taken_to_def no_transition_def
  ossl_statem_client_write_transition_def ossl_statem_client13_write_transition_def client12_write_transition_def
  go_on_def write_error_def client_cert_or_finished_def middlebox_compat_def SSL_EARLY_DATA_REJECTED_def
  SSL_KEY_UPDATE_NONE_def



definition ecdhe_rsa :: ssl_cipher where
  "ecdhe_rsa = \<lparr>algorithm_mkey = SSL_kECDHE, algorithm_auth = 1\<rparr>"

lemma script13:
  "\<exists>y. state_machine (script_env 772 ecdhe_rsa) 20 (new_state [2, 8, 11, 15, 20]) = Some (1, y) \<and>
     SSL_CONNECTION_IS_TLS13 (conn y) \<and> \<not> hit (conn y) \<and> received y = [2, 8, 11, 15, 20]"
  by (simp add: state_machine_def run_rules run_functions script_defs loop_numeral)

lemma ecdhe_rsa_masks:
  "algorithm_mkey ecdhe_rsa AND (SSL_kDHE OR SSL_kECDHE OR SSL_kDHEPSK OR SSL_kECDHEPSK OR SSL_kSRP) \<noteq> 0"
  "algorithm_auth ecdhe_rsa AND (SSL_aNULL OR SSL_aSRP OR SSL_aPSK) = 0"
  by (simp_all add: ecdhe_rsa_def SSL_kDHE_def SSL_kECDHE_def SSL_kDHEPSK_def SSL_kECDHEPSK_def SSL_kSRP_def
    SSL_aNULL_def SSL_aSRP_def SSL_aPSK_def)

lemma script12:
  "\<exists>y. state_machine (script_env 771 ecdhe_rsa) 20 (new_state [2, 11, 12, 14, 257, 20]) = Some (1, y) \<and>
     \<not> SSL_CONNECTION_IS_TLS13 (conn y) \<and> \<not> hit (conn y) \<and> cert_cipher (conn y) \<and> key_exchange_expected (conn y) \<and>
     received y = [2, 11, 12, 14, 257, 20]"
  by (simp add: state_machine_def run_rules run_functions script_defs loop_numeral cert_cipher_def key_exchange_expected_def
    ecdhe_rsa_masks)

end
