(* ===== verification/Tls_Session.thy ===== *)
theory Tls_Session
  imports Tls_Script
begin

text \<open>What \<^verbatim>\<open>SSL_connect\<close> promises: it returns, and its success tells which messages the server has sent.\<close>

text \<open>
  C11. When \<^verbatim>\<open>SSL_connect\<close> reports success for a connection that negotiated TLS 1.3 without resuming a session, after
  any number of calls and whatever the server sent, the messages accepted since the last ClientHello are a
  ServerHello, the encrypted extensions, at most one certificate request, a certificate, the signature over the
  handshake (CertificateVerify) and the server's Finished message, in this order and before any other message. No
  sequence of messages skips the authentication of the server.
\<close>

theorem tls13_authenticated:
  assumes "flow_env_ok e" "connecting e x" "state_machine e n x = Some (1, y)"
    "SSL_CONNECTION_IS_TLS13 (conn y)" "\<not> hit (conn y)"
  shows "hand_state (conn y) = TLS_ST_OK \<and> server_auth13 (received y)"
  using connected [OF assms(1-3)] run_authenticated13 [OF _ assms(4,5)] by (auto simp: end_ok_def)

theorem tls13_authenticated_witness:
  "\<exists>y. state_machine (script_env 772 ecdhe_rsa) 20 (new_state [2, 8, 11, 15, 20]) = Some (1, y) \<and>
     hand_state (conn y) = TLS_ST_OK \<and> server_auth13 (received y) \<and> received y = [2, 8, 11, 15, 20]"
  using script13 tls13_authenticated [OF script_env_ok new_state_connecting] by blast

text \<open>
  C12. The same for the versions before TLS 1.3 and a cipher suite whose server has a certificate: the messages
  accepted are a ServerHello, a certificate, perhaps its status, a ServerKeyExchange wherever the cipher suite needs one,
  perhaps a certificate request, ServerHelloDone, perhaps a session ticket, ChangeCipherSpec and Finished.
\<close>

theorem tls12_authenticated:
  assumes "flow_env_ok e" "connecting e x" "state_machine e n x = Some (1, y)"
    "\<not> SSL_CONNECTION_IS_TLS13 (conn y)" "\<not> hit (conn y)" "cert_cipher (conn y)"
  shows "hand_state (conn y) = TLS_ST_OK \<and> server_auth12 (key_exchange_expected (conn y)) (received y)"
  using connected [OF assms(1-3)] run_authenticated12 [OF _ assms(4-6)] by (auto simp: end_ok_def)

theorem tls12_authenticated_witness:
  "\<exists>y. state_machine (script_env 771 ecdhe_rsa) 20 (new_state [2, 11, 12, 14, 257, 20]) = Some (1, y) \<and>
     hand_state (conn y) = TLS_ST_OK \<and> server_auth12 True (received y) \<and> received y = [2, 11, 12, 14, 257, 20]"
  using script12 tls12_authenticated [OF script_env_ok new_state_connecting] by fastforce

text \<open>
  C13. If the server sends finitely many messages, \<^verbatim>\<open>SSL_connect\<close> returns, in the first and in every later call: the loop
  that alternates between reading and writing ends and so do the loops inside it. With at most \<open>\<mu>\<close> messages still to be
  read each loop needs at most \<open>3 * \<mu> + 24\<close> rounds. In particular no answers of the functions called keep a client
  writing messages forever.
\<close>

theorem connect_returns:
  assumes "flow_env_ok e" "finite_input \<mu> e" "connecting e x" "3 * \<mu> (net x) + 24 \<le> n"
  shows "\<exists>ret y. state_machine e n x = Some (ret, y) \<and> (ret = 1 \<longleftrightarrow> flow_state (conn y) = MSG_FLOW_FINISHED)"
proof -
  have i: "flow_inv x" "flow_state (conn x) \<noteq> MSG_FLOW_FINISHED"
    using connecting_inv [OF assms(1,3)] by simp_all
  from state_machine_returns [OF assms(1,2) i assms(4)] state_machine_inv [OF assms(1) i] show ?thesis by blast
qed

theorem connect_returns_witness:
  "\<exists>ret y. state_machine (script_env 772 ecdhe_rsa) 27 (new_state [0]) = Some (ret, y) \<and>
     (ret = 1 \<longleftrightarrow> flow_state (conn y) = MSG_FLOW_FINISHED)"
  by (rule connect_returns [where \<mu> = length, OF script_env_ok script_env_finite new_state_connecting])
    (simp add: new_state_def)

end
