(* ===== verification/Spec2Isabelle.thy ===== *)
theory Spec2Isabelle
  imports Main_Config Telemetry Handover Tls_Session
begin

text \<open>
  \<^bold>\<open>The program.\<close> A gateway for Linux: it reads a holding register of a PLC over Modbus TCP, publishes the value as a
  JSON text to an MQTT broker over TLS, increments the register, and prints the messages of the same topic. Three
  threads do this: \<^verbatim>\<open>modbus_task\<close> talks to the PLC and leaves each value in the global \<^verbatim>\<open>shared_value\<close>, signalling a
  condition variable; \<^verbatim>\<open>mqtt_pub_task\<close> waits for it and publishes; \<^verbatim>\<open>mqtt_sub_task\<close> runs the receive cycle of the MQTT
  client. The client (\<^verbatim>\<open>MQTTClient.c\<close>) is built on the packet serializers and parsers of \<^verbatim>\<open>MQTTPacket/\<close> and on the timers
  and the TLS network layer of \<^verbatim>\<open>MQTTInterface.c\<close>, which calls the vendored OpenSSL.

  \<^bold>\<open>Conventions.\<close> Every C function is a HOL function that passes on the state it changes. The result \<^term>\<open>None\<close> is
  undefined behaviour: an access outside a buffer, a null or released pointer, a double release. Bytes and
  fixed-width integers are words; \<^verbatim>\<open>int\<close> is a mathematical integer with the conversions written out. Output
  parameters are results, uninitialised variables are parameters. What the environment does (answers of system calls
  and of TLS, the clock) is a script in the state; theorems hold for every script unless they name a condition.

  \<^bold>\<open>The theories and the sources.\<close>
  \<^item> \<open>C_Prelude\<close>: integers, pointers, cursors into buffers, string functions of the C library.
  \<^item> \<open>Packet_Core\<close> (\<^verbatim>\<open>MQTTPacket.c\<close>), \<open>Packet_Publish\<close> (\<^verbatim>\<open>MQTTSerializePublish.c\<close>, \<^verbatim>\<open>MQTTDeserializePublish.c\<close>),
    \<open>Packet_Connect\<close> (\<^verbatim>\<open>MQTTConnectClient.c\<close>, \<^verbatim>\<open>MQTTConnectServer.c\<close>), \<open>Packet_Subscribe\<close> (\<^verbatim>\<open>MQTTSubscribe*.c\<close>,
    \<^verbatim>\<open>MQTTUnsubscribe*.c\<close>): the packet formats. The locales \<open>serializer\<close>, \<open>checked_serializer\<close> and \<open>packet_codec\<close> state
    what a serializer and a parser promise; each pair of functions interprets them, and the round trips and
    the absence of writes outside the buffer are facts of the interpretations. \<open>char_source\<close> and \<open>byte_source\<close> are the
    inputs a length field is read from: a buffer, or the network.
  \<^item> \<open>Packet_Format\<close> (\<^verbatim>\<open>MQTTFormat.c\<close>): packets as text, with the part of \<^verbatim>\<open>snprintf\<close> that is used.
  \<^item> \<open>Interface\<close> (\<^verbatim>\<open>MQTTInterface.c\<close>): timers, connecting, reading, writing and disconnecting.
  \<^item> \<open>Client\<close> (\<^verbatim>\<open>MQTTClient.c\<close>): all functions of the client. \<open>Client_Inv\<close> has its invariant, \<open>Handler_Table\<close> the
    refinement of the handler array to a table (locale \<open>bounded_table\<close>), \<open>Topic_Filter\<close> the matching of topics,
    \<open>Client_Exchange\<close>, \<open>Client_Delivery\<close> and \<open>Client_Session\<close> what it sends, delivers and concludes from packets.
  \<^item> \<open>Platform\<close> (\<^verbatim>\<open>platform.h\<close>, \<^verbatim>\<open>utilis.c\<close>), \<open>Modbus_Task\<close> (\<^verbatim>\<open>modbus_task.c\<close>), \<open>Mqtt_Task\<close> (\<^verbatim>\<open>mqtt_task.c\<close>),
    \<open>Main_Config\<close> (\<^verbatim>\<open>main.c\<close>, \<^verbatim>\<open>config.h\<close>): sockets, the threads, the command line and signals.
  \<^item> \<open>Telemetry\<close>: the publishing thread of one device and the subscribing thread of another, end to end. \<open>Handover\<close>: the
    steps of the Modbus and the publishing thread on \<^verbatim>\<open>shared_value\<close>, in every order.
  \<^item> \<open>Tls_Handshake\<close> (\<^verbatim>\<open>ssl/statem/statem_clnt.c\<close>, the transitions) and \<open>Tls_Flow\<close> (\<^verbatim>\<open>ssl/statem/statem.c\<close>, the work functions
    of \<^verbatim>\<open>statem_clnt.c\<close>, \<^verbatim>\<open>ossl_ssl_connection_reset\<close>, \<^verbatim>\<open>tls_finish_handshake\<close>): the handshake that \<^verbatim>\<open>SSL_connect\<close> runs,
    in the state monad. \<open>Tls_Runs\<close> is the specification, a step relation over all servers; \<open>Tls_Connect\<close> shows by Hoare
    rules that the message flow stays within it, \<open>Tls_Returns\<close> that its loops end, \<open>Tls_Script\<close> is an instance of its
    parameters, \<open>Tls_Session\<close> has the properties.

  \<^bold>\<open>What is shown.\<close>
  \<^item> Packets: lengths, strings, PUBLISH, CONNECT, SUBSCRIBE, SUBACK, UNSUBSCRIBE and acknowledgements are read back as
    they were written; the client's serializers write the standard packet or report a short buffer; parsers
    stay inside the packet and take what the standard prescribes from any body; the exceptions (short bodies, too
    many return codes, too small buffers) are theorems.
  \<^item> Client: every reachable state satisfies the invariant whatever the network delivers; \<^verbatim>\<open>readPacket\<close> returns and stays
    inside its buffer on every input; the outcome of a connection attempt; what one client publishes reaches exactly the
    matching handlers of another.
  \<^item> Network and platform: reads and writes are exact and in order, timers expire on time, a connection that is
    reported has been verified and is released by a disconnect.
  \<^item> Threads: a register value published with QoS 0 arrives on another device as the text the publisher composed; values are
    taken in the order they were signalled, each at most once unless \<^verbatim>\<open>pthread_cond_wait\<close> returns spuriously; command lines are
    read back, a missing argument is only noticed if the stack holds zero; the threads only start without null pointers; two
    inputs from the network or the broker that make the program access released or foreign memory.
  \<^item> TLS: success of \<^verbatim>\<open>SSL_connect\<close> implies that the server sent the messages that authenticate it, for TLS 1.3 and for the
    older versions, and the call returns for every finite input.

  \<^bold>\<open>Fuel and bounds.\<close> Loops that the source bounds by data are total functions. The endless loops of the threads
  and the receive loops that wait for the network have a number of rounds as argument; the theorems hold for every
  number, or state how many are enough. In \<open>Tls_Flow\<close> each loop has at most \<open>n\<close> rounds; three rounds for each message
  still to come plus 24 are enough, since at most seven messages are written in a row and writing one takes three rounds.

  \<^bold>\<open>Assumptions.\<close> The functions of OpenSSL below the handshake are parameters of \<open>Tls_Flow\<close> with the assumptions
  \<open>flow_env_ok\<close>: they leave the state of the machine alone apart from recording a fatal error, set the negotiated
  parameters only while the hellos are exchanged, and end the reading after a ServerHello only for a HelloRetryRequest.
  The Modbus library is a parameter of \<open>Modbus_Task\<close>.

  \<^bold>\<open>Not modelled.\<close>
  \<^item> nanoMODBUS is a submodule whose sources are not part of the repository.
  \<^item> \<^verbatim>\<open>StackTrace.h\<close> expands to nothing.
  \<^item> The rest of OpenSSL (cryptography, certificates, record layer, configuration, command line tools, the server side, tests):
    the program only calls it, and its answers are scripts or parameters. In the message flow the branches for DTLS and
    SCTP, the callbacks and the time stamps are left out; a connection made with \<^verbatim>\<open>TLS_client_method\<close> does not use
    DTLS. Early data, which the program never sends, is excluded by the assumptions on a new connection.
  \<^item> The publishing and the subscribing thread use the client without a lock. Their accesses are not interleaved: the
    language gives such a race no meaning. Only the hand-over of \<^verbatim>\<open>shared_value\<close>, which is locked, is.
\<close>

end
